(* ===== verification/Prelude.thy ===== *)
theory Prelude
  imports Main "HOL-Library.Char_ord" "HOL-Library.List_Lexorder" "HOL-Library.Sublist"
begin

text \<open>
  The shared ground of the development.  It holds the sequencing of fallible calls (Go's
  \<open>if err != nil { return ..., err }\<close>), the collections of facts that the component theories
  feed into the simplifier, and generic lemmas on byte strings compared as Go compares them:
  lexicographically, byte by byte, which is the order that \<open>List_Lexorder\<close> and \<open>Char_ord\<close>
  give to \<^typ>\<open>string\<close>.
\<close>

section \<open>Collections of facts\<close>

named_theorems go_result \<open>inversion of a sequence of fallible calls\<close>
named_theorems order_keys \<open>facts on the digits and integer parts of order keys\<close>
named_theorems hlc_simps \<open>unfolding of clock readings and their comparison\<close>
named_theorems access_simps \<open>unfolding of the permission matrix\<close>

section \<open>Sequencing of fallible calls\<close>

definition rbind :: "'e + 'a \<Rightarrow> ('a \<Rightarrow> 'e + 'b) \<Rightarrow> 'e + 'b" where
  "rbind m f = (case m of Inl e \<Rightarrow> Inl e | Inr x \<Rightarrow> f x)"

text \<open>A check returns \<open>None\<close> for Go's \<open>nil\<close> error; the call after it runs only then.\<close>

definition guarded :: "'e option \<Rightarrow> 'e + 'a \<Rightarrow> 'e + 'a" where
  "guarded c m = (case c of None \<Rightarrow> m | Some e \<Rightarrow> Inl e)"

lemma rbind_simps [simp]:
  "rbind (Inl e) f = Inl e"
  "rbind (Inr x) f = f x"
  by (simp_all add: rbind_def)

lemma guarded_simps [simp]:
  "guarded None m = m"
  "guarded (Some e) m = Inl e"
  by (simp_all add: guarded_def)

lemma rbind_eq_Inr [go_result]:
  "rbind m f = Inr y \<longleftrightarrow> (\<exists>x. m = Inr x \<and> f x = Inr y)"
  by (cases m) simp_all

lemma rbind_eq_Inl [go_result]:
  "rbind m f = Inl e \<longleftrightarrow> m = Inl e \<or> (\<exists>x. m = Inr x \<and> f x = Inl e)"
  by (cases m) simp_all

lemma guarded_eq_Inr [go_result]: "guarded c m = Inr y \<longleftrightarrow> c = None \<and> m = Inr y"
  by (cases c) simp_all

lemma guarded_eq_Inl [go_result]:
  "guarded c m = Inl e \<longleftrightarrow> c = Some e \<or> c = None \<and> m = Inl e"
  by (cases c) simp_all

section \<open>Byte strings in lexicographic order\<close>

lemma append_less_append [simp]:
  fixes xs :: "'a::order list"
  shows "xs @ ys < xs @ zs \<longleftrightarrow> ys < zs"
  by (induction xs) simp_all

lemma less_append_proper [simp]:
  fixes xs :: "'a::order list"
  shows "xs < xs @ ys \<longleftrightarrow> ys \<noteq> []"
  using append_less_append [of xs "[]" ys] by (cases ys) simp_all

lemma Nil_less_iff [simp]:
  fixes xs :: "'a::order list"
  shows "[] < xs \<longleftrightarrow> xs \<noteq> []"
  by (cases xs) simp_all

text \<open>
  Two strings of one length that differ, differ before either ends; whatever is appended to them
  then no longer matters.
\<close>

lemma less_append_of_eq_length:
  fixes xs ys :: "'a::linorder list"
  assumes "length xs = length ys" and "xs < ys"
  shows "xs @ us < ys @ vs"
  using assms
proof (induction xs ys rule: list_induct2)
  case (Cons x xs y ys)
  then show ?case by auto
qed simp

lemma append_less_cases:
  fixes xs ys :: "'a::linorder list"
  assumes "length xs = length ys" and "xs @ us < ys @ vs"
  shows "xs < ys \<or> (xs = ys \<and> us < vs)"
  using assms
proof (induction xs ys rule: list_induct2)
  case (Cons x xs y ys)
  then show ?case by auto
qed simp

lemma append_less_iff_eq_length:
  fixes xs ys :: "'a::linorder list"
  assumes "length xs = length ys"
  shows "xs @ us < ys @ vs \<longleftrightarrow> xs < ys \<or> (xs = ys \<and> us < vs)"
  using assms append_less_cases less_append_of_eq_length by fastforce

lemma last_drop_same: "n < length xs \<Longrightarrow> last (drop n xs) = last xs"
  by simp

section \<open>Strictly sorted lists\<close>

lemma strict_sorted_unique:
  fixes xs ys :: "'a::linorder list"
  assumes "sorted_wrt (<) xs" and "sorted_wrt (<) ys" and "set xs = set ys"
  shows "xs = ys"
  using assms by (metis sorted_list_of_set.idem_if_sorted_distinct strict_sorted_iff)

end
