(* ===== verification/Errors.thy ===== *)
theory Errors
  imports Prelude
begin

text \<open>
  The domain's error values, from \<^verbatim>\<open>core/domain/model/shared/Errors.go\<close>.  A Go function that
  returns a value and an error is modelled by a result \<open>failure + 'a\<close>: \<open>Inr\<close> is the value with a
  nil error, \<open>Inl (Failure e)\<close> a returned error and \<open>Inl Panic\<close> a run-time panic (an index out of
  range).  A function that returns an error only gives a \<open>failure option\<close>, \<open>None\<close> for nil.  A
  parameter table (a Go map literal) is an association list in the order of the literal.
\<close>

datatype Category =
    CategoryValidation | CategoryNotFound | CategoryConflict | CategoryForbidden
  | CategoryUnauthenticated | CategoryGone | CategoryRateLimited | CategoryUnavailable
  | CategoryInternal

type_synonym params = "(string \<times> string) list"

record FieldError =
  Path :: string
  FieldCode :: string
  FieldParams :: params

record DomainError =
  ErrCategory :: Category
  Code :: string
  DetailCode :: string
  Params :: params
  Fields :: "FieldError list"
  cause :: "string option"

datatype failure = Failure DomainError | Panic

type_synonym 'a result = "failure + 'a"

definition WithParams :: "DomainError \<Rightarrow> params \<Rightarrow> DomainError" where
  "WithParams e params = e\<lparr>Params := params\<rparr>"

definition WithDetail :: "DomainError \<Rightarrow> string \<Rightarrow> DomainError" where
  "WithDetail e detailCode = e\<lparr>DetailCode := detailCode\<rparr>"

definition WithCause :: "DomainError \<Rightarrow> string \<Rightarrow> DomainError" where
  "WithCause e c = e\<lparr>cause := Some c\<rparr>"

definition WithFields :: "DomainError \<Rightarrow> FieldError list \<Rightarrow> DomainError" where
  "WithFields e fs = e\<lparr>Fields := fs\<rparr>"

definition New :: "Category \<Rightarrow> string \<Rightarrow> DomainError" where
  "New category code =
     \<lparr>ErrCategory = category, Code = code, DetailCode = '''', Params = [], Fields = [], cause = None\<rparr>"

definition ErrValidation :: DomainError where
  "ErrValidation = New CategoryValidation ''validation_failed''"

definition ErrNotFound :: DomainError where
  "ErrNotFound = New CategoryNotFound ''not_found''"

definition ErrForbidden :: DomainError where
  "ErrForbidden = New CategoryForbidden ''forbidden''"

definition ErrGone :: DomainError where
  "ErrGone = New CategoryGone ''gone''"

definition ErrConflict :: DomainError where
  "ErrConflict = New CategoryConflict ''conflict''"

definition ErrVersionConflict :: DomainError where
  "ErrVersionConflict = New CategoryConflict ''version_conflict''"

definition ErrUnavailable :: DomainError where
  "ErrUnavailable = New CategoryUnavailable ''dependency_unavailable''"

definition ErrInternal :: DomainError where
  "ErrInternal = New CategoryInternal ''internal''"

definition ErrCapabilityNotSupported :: DomainError where
  "ErrCapabilityNotSupported = New CategoryValidation ''capability_not_supported''"

text \<open>Go's composite literal \<open>shared.FieldError{Path: p, Code: c}\<close> leaves the parameters nil.\<close>

abbreviation field_error :: "string \<Rightarrow> string \<Rightarrow> FieldError" where
  "field_error p c \<equiv> \<lparr>Path = p, FieldCode = c, FieldParams = []\<rparr>"

text \<open>
  The builders change one field of a copy, so a refusal built from a shared value keeps that value's
  category and code.
\<close>

lemma builders_keep_code [simp]:
  "Code (WithParams e p) = Code e" "ErrCategory (WithParams e p) = ErrCategory e"
  "Code (WithDetail e d) = Code e" "ErrCategory (WithDetail e d) = ErrCategory e"
  "Code (WithFields e f) = Code e" "ErrCategory (WithFields e f) = ErrCategory e"
  "Code (WithCause e c) = Code e" "ErrCategory (WithCause e c) = ErrCategory e"
  by (simp_all add: WithParams_def WithDetail_def WithFields_def WithCause_def)

lemma builders_keep_detail [simp]:
  "DetailCode (WithParams e p) = DetailCode e"
  "DetailCode (WithFields e f) = DetailCode e"
  "DetailCode (WithCause e c) = DetailCode e"
  "DetailCode (WithDetail e d) = d"
  by (simp_all add: WithParams_def WithDetail_def WithFields_def WithCause_def)

lemma shared_categories [simp]:
  "ErrCategory ErrValidation = CategoryValidation"
  "ErrCategory ErrConflict = CategoryConflict"
  "ErrCategory ErrNotFound = CategoryNotFound"
  "ErrCategory ErrForbidden = CategoryForbidden"
  "ErrCategory ErrGone = CategoryGone"
  "ErrCategory ErrUnavailable = CategoryUnavailable"
  "ErrCategory ErrInternal = CategoryInternal"
  "ErrCategory ErrCapabilityNotSupported = CategoryValidation"
  by (simp_all add: ErrValidation_def ErrConflict_def ErrNotFound_def ErrForbidden_def ErrGone_def ErrUnavailable_def ErrInternal_def
      ErrCapabilityNotSupported_def New_def)

text \<open>The stable detail code of a returned error; a panic has none.\<close>

fun detail_of :: "failure \<Rightarrow> string option" where
  "detail_of (Failure e) = Some (DetailCode e)"
| "detail_of Panic = None"

fun category_of :: "failure \<Rightarrow> Category option" where
  "category_of (Failure e) = Some (ErrCategory e)"
| "category_of Panic = None"

end
