(* ===== verification/Ids.thy ===== *)
theory Ids
  imports Errors
begin

text \<open>
  Identifiers, from \<^verbatim>\<open>core/domain/model/shared/ID.go\<close>: a byte string, empty when absent, otherwise
  a UUID in the canonical lower-case form.  The Go loop ranges over runes; every byte of a multi-byte
  rune is outside the accepted characters and its first byte already refuses, so the model ranges
  over the bytes.
\<close>

type_synonym ID = string

definition uuidLength :: nat where
  "uuidLength = 36"

definition uuidChar :: "nat \<Rightarrow> char \<Rightarrow> bool" where
  "uuidChar i r =
     (if i \<in> {8, 13, 18, 23} then r = CHR ''-''
      else (CHR ''0'' \<le> r \<and> r \<le> CHR ''9'') \<or> (CHR ''a'' \<le> r \<and> r \<le> CHR ''f''))"

definition looksLikeUUID :: "string \<Rightarrow> bool" where
  "looksLikeUUID raw = (length raw = uuidLength \<and> list_all (\<lambda>(i, r). uuidChar i r) (enumerate 0 raw))"

definition ParseID :: "string \<Rightarrow> ID result" where
  "ParseID raw =
     (if \<not> looksLikeUUID raw
      then Inl (Failure (WithParams (WithDetail ErrValidation ''shared.id_malformed'') [(''value'', raw)]))
      else Inr raw)"

definition IsZero :: "ID \<Rightarrow> bool" where
  "IsZero i = (i = '''')"

definition IsUUIDv7 :: "ID \<Rightarrow> bool" where
  "IsUUIDv7 i = (length i = uuidLength \<and> take 1 (drop 14 i) = ''7'')"

lemma IsZero_Nil [simp]: "IsZero i \<longleftrightarrow> i = []"
  by (simp add: IsZero_def)

lemma ParseID_Inr [simp]: "ParseID raw = Inr i \<longleftrightarrow> looksLikeUUID raw \<and> i = raw"
  by (auto simp: ParseID_def)

lemma looksLikeUUID_chars:
  assumes "looksLikeUUID raw" and "c \<in> set raw"
  shows "c = CHR ''-'' \<or> (CHR ''0'' \<le> c \<and> c \<le> CHR ''9'') \<or> (CHR ''a'' \<le> c \<and> c \<le> CHR ''f'')"
proof -
  obtain i where "i < length raw" "c = raw ! i" using assms(2) by (auto simp: in_set_conv_nth)
  then have "(i, c) \<in> set (enumerate 0 raw)" by (auto simp: in_set_enumerate_eq)
  then have "uuidChar i c" using assms(1) by (auto simp: looksLikeUUID_def list_all_iff)
  then show ?thesis by (auto simp: uuidChar_def split: if_splits)
qed

lemma looksLikeUUID_no_slash: "looksLikeUUID raw \<Longrightarrow> CHR ''/'' \<notin> set raw"
  using looksLikeUUID_chars [of raw "CHR ''/''"] by (auto simp: less_eq_char_def)

lemma looksLikeUUID_no_colon: "looksLikeUUID raw \<Longrightarrow> CHR '':'' \<notin> set raw"
  using looksLikeUUID_chars [of raw "CHR '':''"] by (auto simp: less_eq_char_def)

lemma looksLikeUUID_nonempty: "looksLikeUUID raw \<Longrightarrow> raw \<noteq> []"
  by (auto simp: looksLikeUUID_def uuidLength_def)

end
