(* ===== verification/Order_Keys.thy ===== *)
theory Order_Keys
  imports Errors
begin

text \<open>
  Fractional index keys, from \<^verbatim>\<open>core/domain/service/Ordering.go\<close>.  A key is an integer part, whose
  first character says how many digits follow it, and an optional fraction.  Go strings are byte
  strings, so a key is a \<^typ>\<open>string\<close> and keys are compared as the code (and the database index)
  compares them, byte by byte.  Where the code indexes a string out of range the model returns
  \<open>Panic\<close>.  A Go function that ends in \<open>return prefix + rest, err\<close> gives \<open>Inl\<close> when \<open>err\<close> is set: no
  caller reads the value then.
\<close>

section \<open>Digits\<close>

definition orderKeyDigits :: string where
  "orderKeyDigits = ''0123456789ABCDEFGHIJKLMNOPQRSTUVWXYZabcdefghijklmnopqrstuvwxyz''"

definition orderKeyZero :: string where
  "orderKeyZero = ''a0''"

definition smallestOrderInteger :: string where
  "smallestOrderInteger = CHR ''A'' # replicate 26 (CHR ''0'')"

text \<open>\<open>strings.IndexByte\<close>: the first position of a byte, or -1.\<close>

fun indexByte :: "string \<Rightarrow> char \<Rightarrow> int" where
  "indexByte [] c = -1"
| "indexByte (x # xs) c =
     (if x = c then 0 else let i = indexByte xs c in if i < 0 then -1 else i + 1)"

definition digitIndex :: "char \<Rightarrow> int" where
  "digitIndex digit = indexByte orderKeyDigits digit"

text \<open>\<open>orderKeyDigits[i]\<close>: an index outside the string panics.\<close>

definition digitAt :: "int \<Rightarrow> char result" where
  "digitAt i =
     (if 0 \<le> i \<and> i < int (length orderKeyDigits) then Inr (orderKeyDigits ! nat i) else Inl Panic)"

definition cut :: "string \<Rightarrow> nat \<Rightarrow> string" where
  "cut s n = (if n \<ge> length s then '''' else drop n s)"

definition hasSuffixZero :: "string \<Rightarrow> bool" where
  "hasSuffixZero s = (s \<noteq> [] \<and> last s = CHR ''0'')"

section \<open>Refusals\<close>

definition boundsInvalid :: "string \<Rightarrow> string \<Rightarrow> failure" where
  "boundsInvalid previous next =
     Failure (WithParams (WithDetail ErrInternal ''ordering.bounds_invalid'')
       [(''previous'', previous), (''next'', next)])"

definition keyMalformed :: "string \<Rightarrow> failure" where
  "keyMalformed key =
     Failure (WithParams (WithDetail ErrInternal ''ordering.key_malformed'') [(''key'', key)])"

definition spaceExhausted :: "string \<Rightarrow> failure" where
  "spaceExhausted next =
     Failure (WithParams (WithDetail ErrInternal ''ordering.space_exhausted'') [(''next'', next)])"

section \<open>Midpoints of fractions\<close>

text \<open>
  The loop that counts the shared prefix: \<open>a\<close> is read as if followed by zero digits for as long as
  \<open>b\<close> lasts.
\<close>

fun commonPrefix :: "string \<Rightarrow> string \<Rightarrow> nat" where
  "commonPrefix a [] = 0"
| "commonPrefix a (d # b) =
     (let digit = (case a of [] \<Rightarrow> CHR ''0'' | c # _ \<Rightarrow> c)
      in if digit \<noteq> d then 0 else Suc (commonPrefix (tl a) b))"

lemma length_cut [simp]: "length (cut s n) = length s - n"
  by (simp add: cut_def)

lemma commonPrefix_le: "commonPrefix a b \<le> length b"
  by (induction a b rule: commonPrefix.induct) (auto simp: Let_def)

text \<open>
  A carried-over prefix shortens \<open>b\<close>; looking one position further drops \<open>b\<close> or, when there is no
  \<open>b\<close>, a digit of \<open>a\<close>: with neither left the gap is the whole digit range and the loop has ended.
\<close>

function midpoint :: "string \<Rightarrow> string \<Rightarrow> string result" where
  "midpoint a b =
     (if b \<noteq> [] \<and> a \<ge> b then Inl (boundsInvalid a b)
      else if hasSuffixZero a \<or> (b \<noteq> [] \<and> hasSuffixZero b)
      then Inl (keyMalformed (a @ '' '' @ b))
      else
        let common = commonPrefix a b in
        if b \<noteq> [] \<and> common > 0
        then rbind (midpoint (cut a common) (drop common b)) (\<lambda>rest. Inr (take common b @ rest))
        else
          let lower = (case a of [] \<Rightarrow> 0 | c # _ \<Rightarrow> digitIndex c);
              upper = (case b of [] \<Rightarrow> int (length orderKeyDigits) | d # _ \<Rightarrow> digitIndex d)
          in if upper - lower > 1
             then rbind (digitAt ((lower + upper + 1) div 2)) (\<lambda>d. Inr [d])
             else if length b > 1 then Inr (take 1 b)
             else rbind (digitAt lower) (\<lambda>d.
                  rbind (midpoint (cut a 1) '''') (\<lambda>rest. Inr (d # rest))))"
  by pat_completeness auto
termination
proof (relation "measure (\<lambda>(a, b). length a + length b)", goal_cases)
  case 1
  show ?case by simp
next
  case (2 a b common)
  then show ?case using commonPrefix_le [of a b] by (cases b) auto
next
  case (3 a b common lower upper d)
  then show ?case
    by (cases a; cases b) (auto simp: orderKeyDigits_def)
qed

declare midpoint.simps [simp del]

section \<open>Integer parts\<close>

definition integerLength :: "char \<Rightarrow> nat result" where
  "integerLength head =
     (if CHR ''a'' \<le> head \<and> head \<le> CHR ''z'' then Inr (of_char head - of_char (CHR ''a'') + 2)
      else if CHR ''A'' \<le> head \<and> head \<le> CHR ''Z''
      then Inr (of_char (CHR ''Z'') - of_char head + 2)
      else Inl (keyMalformed [head]))"

definition splitOrderKey :: "string \<Rightarrow> (string \<times> string) result" where
  "splitOrderKey key =
     (case key of [] \<Rightarrow> Inl Panic
      | head # _ \<Rightarrow>
         (case integerLength head of
            Inl _ \<Rightarrow> Inr (key, '''')
          | Inr len \<Rightarrow>
              if len > length key then Inr (key, '''') else Inr (take len key, drop len key)))"

definition validateInteger :: "string \<Rightarrow> failure option" where
  "validateInteger integer =
     (case integer of [] \<Rightarrow> Some (keyMalformed integer)
      | head # _ \<Rightarrow>
         (case integerLength head of
            Inl e \<Rightarrow> Some e
          | Inr len \<Rightarrow> if length integer \<noteq> len then Some (keyMalformed integer) else None))"

text \<open>
  The carry and the borrow run from the last digit; the model walks the reversed digits and returns
  them with the carry that is left.  The byte arithmetic on the head is on letters only, which
  \<open>validateInteger\<close> has checked.
\<close>

fun carryDigits :: "string \<Rightarrow> string \<times> bool" where
  "carryDigits [] = ([], True)"
| "carryDigits (d # ds) =
     (let next = digitIndex d + 1 in
      if next = int (length orderKeyDigits)
      then (let (ds', carry) = carryDigits ds in (orderKeyDigits ! 0 # ds', carry))
      else (orderKeyDigits ! nat next # ds, False))"

fun borrowDigits :: "string \<Rightarrow> string \<times> bool" where
  "borrowDigits [] = ([], True)"
| "borrowDigits (d # ds) =
     (let previous = digitIndex d - 1 in
      if previous < 0
      then (let (ds', borrow) = borrowDigits ds in (last orderKeyDigits # ds', borrow))
      else (orderKeyDigits ! nat previous # ds, False))"

definition headUp :: "char \<Rightarrow> char" where
  "headUp c = char_of (of_char c + 1 :: nat)"

definition headDown :: "char \<Rightarrow> char" where
  "headDown c = char_of (of_char c - 1 :: nat)"

definition incrementInteger :: "string \<Rightarrow> string result" where
  "incrementInteger integer =
     guarded (validateInteger integer)
      (let head = hd integer;
           (revDigits, carry) = carryDigits (rev (tl integer));
           digits = rev revDigits
       in if \<not> carry then Inr (head # digits)
          else if head = CHR ''Z'' then Inr orderKeyZero
          else if head = CHR ''z'' then Inr ''''
          else if headUp head > CHR ''a''
          then Inr (headUp head # digits @ [orderKeyDigits ! 0])
          else Inr (headUp head # drop 1 digits))"

definition decrementInteger :: "string \<Rightarrow> string result" where
  "decrementInteger integer =
     guarded (validateInteger integer)
      (let head = hd integer;
           (revDigits, borrow) = borrowDigits (rev (tl integer));
           digits = rev revDigits
       in if \<not> borrow then Inr (head # digits)
          else if head = CHR ''a'' then Inr [CHR ''Z'', last orderKeyDigits]
          else if head = CHR ''A'' then Inr ''''
          else if headDown head < CHR ''Z''
          then Inr (headDown head # digits @ [last orderKeyDigits])
          else Inr (headDown head # drop 1 digits))"

section \<open>Keys\<close>

definition validateOrderKey :: "string \<Rightarrow> failure option" where
  "validateOrderKey key =
     (if key = [] then None
      else if \<exists>c \<in> set key. digitIndex c < 0 then Some (keyMalformed key)
      else if key = smallestOrderInteger then Some (keyMalformed key)
      else case splitOrderKey key of
             Inl e \<Rightarrow> Some e
           | Inr (integer, fraction) \<Rightarrow>
              (case validateInteger integer of
                 Some e \<Rightarrow> Some e
               | None \<Rightarrow> if hasSuffixZero fraction then Some (keyMalformed key) else None))"

definition keyBefore :: "string \<Rightarrow> string result" where
  "keyBefore next =
     rbind (splitOrderKey next) (\<lambda>(integer, fraction).
       if integer = smallestOrderInteger
       then rbind (midpoint '''' fraction) (\<lambda>middle. Inr (integer @ middle))
       else if integer < next then Inr integer
       else rbind (decrementInteger integer) (\<lambda>decremented.
              if decremented = [] then Inl (spaceExhausted next) else Inr decremented))"

definition keyAfter :: "string \<Rightarrow> string result" where
  "keyAfter previous =
     rbind (splitOrderKey previous) (\<lambda>(integer, fraction).
     rbind (incrementInteger integer) (\<lambda>incremented.
       if incremented \<noteq> [] then Inr incremented
       else rbind (midpoint fraction '''') (\<lambda>middle. Inr (integer @ middle))))"

definition keyBetween :: "string \<Rightarrow> string \<Rightarrow> string result" where
  "keyBetween previous next =
     rbind (splitOrderKey previous) (\<lambda>(previousInteger, previousFraction).
     rbind (splitOrderKey next) (\<lambda>(nextInteger, nextFraction).
       if previousInteger = nextInteger
       then rbind (midpoint previousFraction nextFraction) (\<lambda>middle. Inr (previousInteger @ middle))
       else rbind (incrementInteger previousInteger) (\<lambda>incremented.
              if incremented \<noteq> [] \<and> incremented < next then Inr incremented
              else rbind (midpoint previousFraction '''') (\<lambda>middle. Inr (previousInteger @ middle)))))"

definition OrderKeyBetween :: "string \<Rightarrow> string \<Rightarrow> string result" where
  "OrderKeyBetween previous next =
     guarded (validateOrderKey previous) (guarded (validateOrderKey next)
      (if previous \<noteq> [] \<and> next \<noteq> [] \<and> previous \<ge> next then Inl (boundsInvalid previous next)
       else if previous = [] \<and> next = [] then Inr orderKeyZero
       else if previous = [] then keyBefore next
       else if next = [] then keyAfter previous
       else keyBetween previous next))"

definition OrderKeyAfter :: "string \<Rightarrow> string result" where
  "OrderKeyAfter previous = OrderKeyBetween previous ''''"

definition ValidOrderKey :: "string \<Rightarrow> failure option" where
  "ValidOrderKey key =
     (if key = [] \<or> validateOrderKey key \<noteq> None
      then Some (Failure (WithFields (WithParams (WithDetail ErrValidation ''sync.order_key_malformed'')
             [(''key'', key)]) [field_error ''/order_key'' ''sync.order_key_malformed'']))
      else None)"

end
