(* ===== verification/Order_Key_Laws.thy ===== *)
theory Order_Key_Laws
  imports Order_Keys
begin

text \<open>
  The laws of the order keys of \<^verbatim>\<open>core/domain/service/Ordering.go\<close>: digits compare as their
  positions in the digit string, \<open>midpoint\<close> finds a fraction strictly between its bounds, the integer
  steps are strict, and \<open>OrderKeyBetween\<close> always finds a key strictly between two valid bounds.  The
  interface that a list of rows relies on is the locale \<open>key_space\<close>; it is interpreted on
  \<open>OrderKeyBetween\<close>, and the properties of insertion rest on that interpretation.
\<close>

section \<open>Digits\<close>

abbreviation digit :: "char \<Rightarrow> bool" where
  "digit c \<equiv> 0 \<le> digitIndex c"

lemma length_orderKeyDigits [simp]: "length orderKeyDigits = 62"
  by (simp add: orderKeyDigits_def)

lemma orderKeyDigits_sorted: "sorted_wrt (<) orderKeyDigits"
  by code_simp

lemma orderKeyDigits_ends [simp]:
  "orderKeyDigits ! 0 = CHR ''0''" "last orderKeyDigits = CHR ''z''"
  by (simp_all add: orderKeyDigits_def)

lemma indexByte_bounds: "-1 \<le> indexByte xs c \<and> indexByte xs c < int (length xs)"
  by (induction xs) (auto simp: Let_def)

lemma indexByte_nth: "0 \<le> indexByte xs c \<Longrightarrow> xs ! nat (indexByte xs c) = c"
proof (induction xs)
  case (Cons x xs)
  then show ?case
    by (auto simp: Let_def nat_add_distrib split: if_splits)
qed simp

lemma indexByte_eq: "distinct xs \<Longrightarrow> i < length xs \<Longrightarrow> indexByte xs (xs ! i) = int i"
proof (induction xs arbitrary: i)
  case (Cons x xs)
  then show ?case
    by (cases i) (auto simp: Let_def nth_mem)
qed simp

lemma digitIndex_bounds: "-1 \<le> digitIndex c" "digitIndex c \<le> 61"
  using indexByte_bounds [of orderKeyDigits c] by (simp_all add: digitIndex_def)

lemma nth_digitIndex: "digit c \<Longrightarrow> orderKeyDigits ! nat (digitIndex c) = c"
  by (simp add: digitIndex_def indexByte_nth)

lemma digitIndex_nth [simp]: "i < 62 \<Longrightarrow> digitIndex (orderKeyDigits ! i) = int i"
  using orderKeyDigits_sorted
  by (simp add: digitIndex_def indexByte_eq strict_sorted_iff)

lemma nth_less_nth: "i < 62 \<Longrightarrow> j < 62 \<Longrightarrow> orderKeyDigits ! i < orderKeyDigits ! j \<longleftrightarrow> i < j"
  by (metis (no_types, lifting) orderKeyDigits_sorted length_orderKeyDigits linorder_less_linear
      order_less_asym sorted_wrt_nth_less order_less_irrefl)

lemma digit_less_iff:
  assumes "digit c" "digit d"
  shows "c < d \<longleftrightarrow> digitIndex c < digitIndex d"
proof -
  have "orderKeyDigits ! nat (digitIndex c) < orderKeyDigits ! nat (digitIndex d)
        \<longleftrightarrow> nat (digitIndex c) < nat (digitIndex d)"
    using digitIndex_bounds [of c] digitIndex_bounds [of d] assms by (intro nth_less_nth) auto
  then show ?thesis using assms by (auto simp: nth_digitIndex)
qed

lemma digit_eq_iff: "digit c \<Longrightarrow> digit d \<Longrightarrow> c = d \<longleftrightarrow> digitIndex c = digitIndex d"
  by (metis nth_digitIndex)

lemma digitIndex_ends [simp]: "digitIndex (CHR ''0'') = 0" "digitIndex (CHR ''z'') = 61"
  by (simp_all add: digitIndex_def orderKeyDigits_def)

lemma digitIndex_zero_iff: "digitIndex c = 0 \<longleftrightarrow> c = CHR ''0''"
  using digit_eq_iff [of c "CHR ''0''"] by auto

lemma digitAt_Inr [simp]: "0 \<le> i \<Longrightarrow> i < 62 \<Longrightarrow> digitAt i = Inr (orderKeyDigits ! nat i)"
  by (simp add: digitAt_def)

section \<open>Fractions and their midpoint\<close>

text \<open>A fraction of a key: digits only, and no trailing zero.\<close>

definition fraction_ok :: "string \<Rightarrow> bool" where
  "fraction_ok s \<longleftrightarrow> (\<forall>c \<in> set s. digit c) \<and> \<not> hasSuffixZero s"

lemma fraction_ok_Nil [simp]: "fraction_ok []"
  by (simp add: fraction_ok_def hasSuffixZero_def)

lemma fraction_ok_append:
  "fraction_ok (xs @ ys) \<longleftrightarrow>
     (\<forall>c \<in> set xs. digit c) \<and> (if ys = [] then \<not> hasSuffixZero xs else fraction_ok ys)"
  by (auto simp: fraction_ok_def hasSuffixZero_def)

lemma fraction_ok_Cons:
  "fraction_ok (c # s) \<longleftrightarrow> digit c \<and> (if s = [] then c \<noteq> CHR ''0'' else fraction_ok s)"
  by (auto simp: fraction_ok_def hasSuffixZero_def)

lemma cut_eq_drop [simp]: "cut s n = drop n s"
  by (simp add: cut_def)

lemma fraction_ok_drop: "fraction_ok s \<Longrightarrow> fraction_ok (drop n s)"
  by (auto simp: fraction_ok_def hasSuffixZero_def dest: in_set_dropD)

text \<open>
  The shared prefix: either \<open>a\<close> starts with it, or \<open>a\<close> ends inside it and only zeros follow.
\<close>

lemma commonPrefix_split:
  "(take (commonPrefix a b) b = take (commonPrefix a b) a \<and> commonPrefix a b \<le> length a) \<or>
   (\<exists>k > 0. take (commonPrefix a b) b = a @ replicate k (CHR ''0''))"
proof (induction a b rule: commonPrefix.induct)
  case (2 a d b)
  show ?case
  proof (cases a)
    case Nil
    show ?thesis
    proof (cases "d = CHR ''0''")
      case True
      let ?n = "commonPrefix [] b"
      from 2 Nil True have "?n = 0 \<or> (\<exists>k > 0. take ?n b = replicate k (CHR ''0''))"
        by (auto simp: Let_def)
      then obtain k where "take ?n b = replicate k (CHR ''0'')"
        by (metis replicate_0 take_0)
      with Nil True have "take (commonPrefix a (d # b)) (d # b) = a @ replicate (Suc k) (CHR ''0'')"
        by (simp add: Let_def)
      then show ?thesis by blast
    qed (use Nil in \<open>simp add: Let_def\<close>)
  next
    case (Cons c a')
    with 2 show ?thesis by (auto simp: Let_def)
  qed
qed simp

lemma commonPrefix_zero_differs:
  assumes "commonPrefix a b = 0" and "b \<noteq> []"
  shows "hd b \<noteq> (case a of [] \<Rightarrow> CHR ''0'' | c # _ \<Rightarrow> c)"
  using assms by (cases b) (auto simp: Let_def split: if_splits)

text \<open>Cutting the shared prefix off keeps the bounds in order, and putting it back is monotone.\<close>

lemma commonPrefix_cut:
  assumes "fraction_ok b" and "a < b" and n: "n = commonPrefix a b"
  shows "drop n a < drop n b" and "drop n a < m \<Longrightarrow> a < take n b @ m"
proof -
  consider (prefix) "take n b = take n a" "n \<le> length a"
    | (zeros) k where "k > 0" "take n b = a @ replicate k (CHR ''0'')"
    using commonPrefix_split [of a b] n by blast
  then have "drop n a < drop n b \<and> (drop n a < m \<longrightarrow> a < take n b @ m)"
  proof cases
    case prefix
    have a: "a = take n a @ drop n a" and b: "b = take n a @ drop n b"
      using append_take_drop_id [of n b] by (simp_all add: prefix)
    have "drop n a < drop n b"
      using \<open>a < b\<close> append_less_append [of "take n a" "drop n a" "drop n b"] a b by metis
    moreover have "drop n a < m \<longrightarrow> a < take n b @ m"
      using append_less_append [of "take n a" "drop n a" m] a prefix by metis
    ultimately show ?thesis by blast
  next
    case zeros
    have len: "n = length a + k"
      using zeros(2) commonPrefix_le [of a b] n by (metis length_append length_replicate length_take min.absorb2)
    have "drop n b \<noteq> []"
    proof
      assume "drop n b = []"
      then have "b = a @ replicate k (CHR ''0'')" using zeros(2) by simp
      with zeros(1) \<open>fraction_ok b\<close> show False by (simp add: fraction_ok_def hasSuffixZero_def)
    qed
    moreover have "a < take n b @ m" using zeros by simp
    ultimately show ?thesis using len by (cases "drop n b") auto
  qed
  then show "drop n a < drop n b" and "drop n a < m \<Longrightarrow> a < take n b @ m" by blast+
qed

lemma midpoint_gap:
  assumes "0 \<le> lower" and "upper \<le> 62" and "(upper::int) - lower > 1"
  shows "\<exists>i. (lower + upper + 1) div 2 = int i \<and> lower < int i \<and> int i < upper \<and> i < 62"
  using assms by (intro exI [of _ "nat ((lower + upper + 1) div 2)"]) auto

text \<open>The fraction found is strictly between the bounds, and is again a fraction.\<close>

definition strictly_between :: "string \<Rightarrow> string \<Rightarrow> string \<Rightarrow> bool" where
  "strictly_between a b m \<longleftrightarrow> a < m \<and> (b \<noteq> [] \<longrightarrow> m < b) \<and> m \<noteq> [] \<and> fraction_ok m"

lemma single_digit_between:
  assumes "fraction_ok a" and "fraction_ok b" and "i < 62"
    and "case a of [] \<Rightarrow> 0 < i | c # _ \<Rightarrow> digitIndex c < int i"
    and "case b of [] \<Rightarrow> True | d # _ \<Rightarrow> int i < digitIndex d"
  shows "strictly_between a b [orderKeyDigits ! i]"
proof -
  let ?m = "orderKeyDigits ! i"
  have m: "digit ?m" "digitIndex ?m = int i" using assms(3) by simp_all
  have pos: "0 < i"
    using assms(1,4) by (auto simp: fraction_ok_Cons split: list.splits)
  then have "?m \<noteq> CHR ''0''" using m by (metis digitIndex_zero_iff of_nat_0_less_iff less_irrefl)
  moreover have "a < [?m]"
    using assms(1,4) m digit_less_iff by (cases a) (auto simp: fraction_ok_Cons)
  moreover have "b \<noteq> [] \<longrightarrow> [?m] < b"
    using assms(2,5) m digit_less_iff by (cases b) (auto simp: fraction_ok_Cons)
  ultimately show ?thesis using m by (simp add: strictly_between_def fraction_ok_Cons)
qed

text \<open>
  Past a shared prefix the leading digits differ: the lower bound reads as a smaller digit than the
  upper one, with 0 and 62 standing in for absent bounds.
\<close>

lemma lead_digits:
  assumes "fraction_ok a" and "fraction_ok b" and "b \<noteq> [] \<Longrightarrow> a < b"
    and "n = commonPrefix a b" and "\<not> (b \<noteq> [] \<and> n > 0)"
  defines "lower \<equiv> (case a of [] \<Rightarrow> 0 | c # _ \<Rightarrow> digitIndex c)"
    and "upper \<equiv> (case b of [] \<Rightarrow> 62 | d # _ \<Rightarrow> digitIndex d)"
  shows "0 \<le> lower" and "lower < upper" and "upper \<le> 62"
proof -
  show "0 \<le> lower"
    using assms(1) by (auto simp: lower_def fraction_ok_Cons split: list.splits)
  show "upper \<le> 62"
    using digitIndex_bounds(2) [of "hd b"] by (cases b) (simp_all add: upper_def)
  show "lower < upper"
  proof (cases b)
    case Nil
    then show ?thesis
      using digitIndex_bounds(2) [of "hd a"] by (cases a) (simp_all add: lower_def upper_def)
  next
    case (Cons d b')
    have d: "digit d" using assms(2) Cons by (simp add: fraction_ok_Cons)
    have differ: "d \<noteq> (case a of [] \<Rightarrow> CHR ''0'' | c # _ \<Rightarrow> c)"
      using commonPrefix_zero_differs [of a b] assms(4,5) Cons by simp
    show ?thesis
    proof (cases a)
      case Nil
      with d differ Cons show ?thesis
        using digitIndex_zero_iff [of d] by (simp add: lower_def upper_def)
    next
      case a: (Cons c a')
      with assms(1) have "digit c" by (simp add: fraction_ok_Cons)
      with a d differ Cons assms(3) show ?thesis
        by (simp add: lower_def upper_def digit_less_iff)
    qed
  qed
qed

lemma first_digit_between:
  assumes "fraction_ok a" and "fraction_ok b" and "length b > 1"
    and "(case a of [] \<Rightarrow> 0 | c # _ \<Rightarrow> digitIndex c) < (case b of [] \<Rightarrow> 62 | d # _ \<Rightarrow> digitIndex d)"
  shows "strictly_between a b (take 1 b)"
proof -
  obtain d b' where b: "b = d # b'" "b' \<noteq> []" using assms(3) by (cases b) auto
  then have d: "digit d" using assms(2) by (simp add: fraction_ok_Cons)
  have pos: "0 < digitIndex d"
    using assms(1,4) b by (auto simp: fraction_ok_Cons split: list.splits)
  have "a < [d]"
    using assms(1,4) b d by (cases a) (auto simp: fraction_ok_Cons digit_less_iff)
  with b d pos show ?thesis
    by (cases b') (auto simp: strictly_between_def fraction_ok_Cons)
qed

lemma next_position_between:
  assumes "fraction_ok a" and "fraction_ok b" and "\<not> length b > 1"
    and less: "(case a of [] \<Rightarrow> 0 | c # _ \<Rightarrow> digitIndex c) < (case b of [] \<Rightarrow> 62 | d # _ \<Rightarrow> digitIndex d)"
    and "strictly_between (drop 1 a) [] m"
  shows "strictly_between a b (orderKeyDigits ! nat (case a of [] \<Rightarrow> 0 | c # _ \<Rightarrow> digitIndex c) # m)"
    (is "strictly_between a b (?d # m)")
proof -
  have m: "drop 1 a < m" "m \<noteq> []" "fraction_ok m"
    using assms(5) by (simp_all add: strictly_between_def)
  have d: "digit ?d \<and> digitIndex ?d = (case a of [] \<Rightarrow> 0 | c # _ \<Rightarrow> digitIndex c)"
    using assms(1) by (auto simp: fraction_ok_Cons nth_digitIndex split: list.splits)
  have "a < ?d # m"
    using m(1) assms(1) by (cases a) (auto simp: fraction_ok_Cons nth_digitIndex)
  moreover have "?d # m < b" if nonempty: "b \<noteq> []"
  proof -
    obtain e where b: "b = [e]" using nonempty assms(3) by (cases b) auto
    then show ?thesis
      using assms(2) less d digit_less_iff [of ?d e] by (simp add: fraction_ok_Cons)
  qed
  ultimately show ?thesis
    using m d by (auto simp: strictly_between_def fraction_ok_Cons)
qed

lemma midpoint_between:
  assumes "fraction_ok a" and "fraction_ok b" and "b \<noteq> [] \<Longrightarrow> a < b"
  shows "\<exists>m. midpoint a b = Inr m \<and> strictly_between a b m"
  using assms
proof (induction a b rule: midpoint.induct)
  case (1 a b)
  let ?n = "commonPrefix a b"
  let ?lower = "case a of [] \<Rightarrow> 0 | c # _ \<Rightarrow> digitIndex c"
  let ?upper = "case b of [] \<Rightarrow> 62 | d # _ \<Rightarrow> digitIndex d"
  have guards: "\<not> (b \<noteq> [] \<and> b \<le> a)" "\<not> (hasSuffixZero a \<or> (b \<noteq> [] \<and> hasSuffixZero b))"
    using "1.prems" by (auto simp: fraction_ok_def)
  note unfolded = midpoint.simps [of a b, unfolded Let_def, simplified guards if_False length_orderKeyDigits of_nat_numeral]
  show ?case
  proof (cases "b \<noteq> [] \<and> ?n > 0")
    case True
    note cuts = commonPrefix_cut [OF "1.prems"(2) "1.prems"(3) refl]
    obtain m where m: "midpoint (drop ?n a) (drop ?n b) = Inr m"
        "strictly_between (drop ?n a) (drop ?n b) m"
      using "1.IH"(1) [OF guards(1,2) refl True] "1.prems" True cuts(1)
      by (auto simp: fraction_ok_drop)
    have "drop ?n b \<noteq> []" using cuts(1) True by auto
    then have "take ?n b @ m < b" and "fraction_ok (take ?n b @ m)"
      using m(2) "1.prems"(2) append_less_append [of "take ?n b" m "drop ?n b"]
      by (auto simp: strictly_between_def fraction_ok_append fraction_ok_def hasSuffixZero_def
          dest: in_set_takeD)
    with m True cuts(2) show ?thesis
      by (simp add: unfolded strictly_between_def)
  next
    case False
    note past = unfolded [unfolded if_not_P [OF False]]
    note lead = lead_digits [OF "1.prems", of ?n] False
    show ?thesis
    proof (cases "?upper - ?lower > 1")
      case True
      with midpoint_gap [of ?lower ?upper] lead obtain i where
        i: "(?lower + ?upper + 1) div 2 = int i" "?lower < int i" "int i < ?upper" "i < 62"
        by auto
      then have "strictly_between a b [orderKeyDigits ! i]"
        using "1.prems" by (intro single_digit_between) (auto split: list.splits)
      with i True show ?thesis by (simp add: past)
    next
      case adjacent: False
      show ?thesis
      proof (cases "length b > 1")
        case True
        then have "strictly_between a b (take 1 b)"
          using "1.prems" lead by (intro first_digit_between) auto
        with True adjacent show ?thesis by (simp add: past)
      next
        case short: False
        obtain m where m: "midpoint (drop 1 a) [] = Inr m" "strictly_between (drop 1 a) [] m"
          using "1.IH"(2) [OF guards(1,2) refl False refl refl, unfolded length_orderKeyDigits of_nat_numeral]
            adjacent short "1.prems" lead
          by (auto simp: fraction_ok_drop)
        have "strictly_between a b (orderKeyDigits ! nat ?lower # m)"
          using m(2) "1.prems" lead short by (intro next_position_between) auto
        with m adjacent short lead show ?thesis by (simp add: past)
      qed
    qed
  qed
qed

section \<open>Integer parts\<close>

lemma digit_iff_mem: "digit c \<longleftrightarrow> c \<in> set orderKeyDigits"
proof
  assume "digit c"
  then show "c \<in> set orderKeyDigits"
    using nth_digitIndex [of c] digitIndex_bounds(2) [of c] nth_mem [of "nat (digitIndex c)" orderKeyDigits]
    by auto
next
  assume "c \<in> set orderKeyDigits"
  then show "digit c" by (auto simp: in_set_conv_nth)
qed

lemma letter_cases:
  assumes "integerLength c = Inr n"
  obtains (lower) k where "k < 26" "of_char c = 97 + k" "n = k + 2"
    | (upper) k where "k < 26" "of_char c = 65 + k" "n = 27 - k"
proof -
  from assms have "(97 \<le> (of_char c :: nat) \<and> of_char c \<le> (122::nat) \<and> n = of_char c - 97 + 2) \<or>
      (65 \<le> (of_char c :: nat) \<and> of_char c \<le> (90::nat) \<and> n = 90 - of_char c + 2)"
    by (auto simp: integerLength_def less_eq_char_def split: if_splits)
  then show thesis
    using lower [of "of_char c - 97"] upper [of "of_char c - 65"] by auto
qed

lemma integerLength_eqs:
  "of_char c = (97::nat) + k \<Longrightarrow> k < 26 \<Longrightarrow> integerLength c = Inr (k + 2)"
  "of_char c = (65::nat) + k \<Longrightarrow> k < 26 \<Longrightarrow> integerLength c = Inr (27 - k)"
  by (simp_all add: integerLength_def less_eq_char_def)

lemma letters_are_digits: "list_all (\<lambda>n. char_of n \<in> set orderKeyDigits) ([97..<123] @ [65..<(91::nat)])"
  by code_simp

lemma letter_digit: "integerLength c = Inr n \<Longrightarrow> digit c"
proof -
  assume "integerLength c = Inr n"
  then have "of_char c \<in> {97..<123} \<union> {65..<(91::nat)}"
    by (cases rule: letter_cases) auto
  then have "char_of (of_char c :: nat) \<in> set orderKeyDigits"
    using letters_are_digits unfolding list_all_iff set_append set_upt by blast
  then show "digit c" by (simp add: digit_iff_mem)
qed

text \<open>An integer part: its head declares its length, and every character is a digit.\<close>

definition integer_ok :: "string \<Rightarrow> bool" where
  "integer_ok s \<longleftrightarrow> (\<exists>h ds. s = h # ds \<and> integerLength h = Inr (Suc (length ds)) \<and> (\<forall>c \<in> set ds. digit c))"

lemma integer_okE:
  assumes "integer_ok s"
  obtains h ds where "s = h # ds" "integerLength h = Inr (Suc (length ds))" "\<forall>c \<in> set ds. digit c"
  using assms by (auto simp: integer_ok_def)

lemma integer_ok_Cons:
  "integer_ok (h # ds) \<longleftrightarrow> integerLength h = Inr (Suc (length ds)) \<and> (\<forall>c \<in> set ds. digit c)"
  by (simp add: integer_ok_def)

lemma integer_ok_validate: "integer_ok s \<Longrightarrow> validateInteger s = None"
  by (auto simp: integer_ok_def validateInteger_def)

lemma integer_ok_digits: "integer_ok s \<Longrightarrow> c \<in> set s \<Longrightarrow> digit c"
  by (auto simp: integer_ok_def letter_digit)

lemma split_integer: "integer_ok i \<Longrightarrow> splitOrderKey (i @ f) = Inr (i, f)"
  by (auto simp: integer_ok_def splitOrderKey_def)

text \<open>Two integer parts that differ decide the comparison, whatever fractions follow.\<close>

lemma integer_less_append:
  assumes "integer_ok i" "integer_ok j" "i < j"
  shows "i @ f < j @ g"
  using assms
  by (auto elim!: integer_okE simp: append_less_iff_eq_length)

lemma integer_less_of_key_less:
  assumes "integer_ok i" "integer_ok j" "i \<noteq> j" "i @ f < j @ g"
  shows "i < j"
  using assms integer_less_append [of j i g f] by (meson not_less_iff_gr_or_eq)

section \<open>Carry and borrow\<close>

lemma carryDigits_strict:
  assumes "\<forall>c \<in> set ds. digit c" and "carryDigits ds = (r, carry)"
  shows "length r = length ds \<and> (\<forall>c \<in> set r. digit c) \<and> (\<not> carry \<longrightarrow> rev ds < rev r)"
  using assms
proof (induction ds arbitrary: r carry)
  case (Cons d ds)
  obtain r' c' where rec: "carryDigits ds = (r', c')" by fastforce
  have IH: "length r' = length ds" "\<forall>c \<in> set r'. digit c" "\<not> c' \<longrightarrow> rev ds < rev r'"
    using Cons.IH [OF _ rec] Cons.prems(1) by auto
  show ?case
  proof (cases "digitIndex d + 1 = 62")
    case True
    with Cons.prems(2) rec IH show ?thesis
      by (auto simp: Let_def less_append_of_eq_length)
  next
    case False
    let ?i = "nat (digitIndex d + 1)"
    have i: "?i < 62" "digitIndex d < int ?i" using False digitIndex_bounds [of d] by auto
    then have "d < orderKeyDigits ! ?i"
      using Cons.prems(1) digit_less_iff [of d "orderKeyDigits ! ?i"] by simp
    with Cons.prems False i show ?thesis by (auto simp: Let_def)
  qed
qed simp

lemma borrowDigits_strict:
  assumes "\<forall>c \<in> set ds. digit c" and "borrowDigits ds = (r, borrow)"
  shows "length r = length ds \<and> (\<forall>c \<in> set r. digit c) \<and> (\<not> borrow \<longrightarrow> rev r < rev ds)
       \<and> (borrow \<longrightarrow> ds = replicate (length ds) (CHR ''0''))"
  using assms
proof (induction ds arbitrary: r borrow)
  case (Cons d ds)
  obtain r' c' where rec: "borrowDigits ds = (r', c')" by fastforce
  have IH: "length r' = length ds" "\<forall>c \<in> set r'. digit c" "\<not> c' \<longrightarrow> rev r' < rev ds"
      "c' \<longrightarrow> ds = replicate (length ds) (CHR ''0'')"
    using Cons.IH [OF _ rec] Cons.prems(1) by auto
  show ?case
  proof (cases "digitIndex d - 1 < 0")
    case True
    then have "d = CHR ''0''"
      using Cons.prems(1) digitIndex_zero_iff [of d] by auto
    with True Cons.prems(2) rec IH show ?thesis
      by (auto simp: Let_def less_append_of_eq_length)
  next
    case False
    let ?i = "nat (digitIndex d - 1)"
    have i: "?i < 62" "int ?i < digitIndex d" using False digitIndex_bounds [of d] by auto
    then have "orderKeyDigits ! ?i < d"
      using Cons.prems(1) digit_less_iff [of "orderKeyDigits ! ?i" d] by simp
    with Cons.prems False i show ?thesis by (auto simp: Let_def)
  qed
qed simp

lemma headUp_lower: "of_char c = (97::nat) + k \<Longrightarrow> k < 25 \<Longrightarrow> of_char (headUp c) = (97::nat) + Suc k"
  by (simp add: headUp_def)

lemma headUp_upper: "of_char c = (65::nat) + k \<Longrightarrow> k < 25 \<Longrightarrow> of_char (headUp c) = (65::nat) + Suc k"
  by (simp add: headUp_def)

lemma headDown_lower: "of_char c = (97::nat) + Suc k \<Longrightarrow> k < 25 \<Longrightarrow> of_char (headDown c) = (97::nat) + k"
  by (simp add: headDown_def)

lemma headDown_upper: "of_char c = (65::nat) + Suc k \<Longrightarrow> k < 25 \<Longrightarrow> of_char (headDown c) = (65::nat) + k"
  by (simp add: headDown_def)

lemma char_eq_nat: "c = d \<longleftrightarrow> of_char c = (of_char d :: nat)"
  by simp

lemma integer_ok_orderKeyZero: "integer_ok orderKeyZero"
  by (simp add: orderKeyZero_def integer_ok_Cons integerLength_def less_eq_char_def)

lemma integer_ok_minusOne: "integer_ok [CHR ''Z'', CHR ''z'']"
  by (simp add: integer_ok_Cons integerLength_def less_eq_char_def)

text \<open>When the carry leaves the digits, the head moves on and the length with it.\<close>

lemma carry_head:
  assumes "integerLength h = Inr (Suc (length ds))" and "\<forall>c \<in> set ds. digit c"
    and "h \<noteq> CHR ''Z''" and "h \<noteq> CHR ''z''"
  defines "j \<equiv> (if headUp h > CHR ''a'' then headUp h # ds @ [CHR ''0''] else headUp h # drop 1 ds)"
  shows "integer_ok j \<and> h < hd j"
  using assms(1)
proof (cases rule: letter_cases)
  case (lower k)
  then have "k \<noteq> 25" using assms(4) by (auto simp: char_eq_nat)
  then have up: "of_char (headUp h) = (97::nat) + Suc k" "Suc k < 26"
    using lower headUp_lower [of h k] by auto
  then show ?thesis
    using lower assms(2) integerLength_eqs(1) [OF up]
    by (auto simp: j_def integer_ok_Cons less_char_def)
next
  case (upper k)
  then have "k \<noteq> 25" using assms(3) by (auto simp: char_eq_nat)
  then have up: "of_char (headUp h) = (65::nat) + Suc k" "Suc k < 26"
    using upper headUp_upper [of h k] by auto
  then show ?thesis
    using upper assms(2) integerLength_eqs(2) [OF up]
    by (auto simp: j_def integer_ok_Cons less_char_def dest: in_set_dropD)
qed

lemma borrow_head:
  assumes "integerLength h = Inr (Suc (length ds))" and "\<forall>c \<in> set ds. digit c"
    and "h \<noteq> CHR ''a''" and "h \<noteq> CHR ''A''"
  defines "j \<equiv> (if headDown h < CHR ''Z'' then headDown h # ds @ [CHR ''z''] else headDown h # drop 1 ds)"
  shows "integer_ok j \<and> hd j < h"
  using assms(1)
proof (cases rule: letter_cases)
  case (lower k)
  then have "k \<noteq> 0" using assms(3) by (auto simp: char_eq_nat)
  then obtain l where l: "k = Suc l" by (cases k) auto
  then have down: "of_char (headDown h) = (97::nat) + l" "l < 26"
    using lower headDown_lower [of h l] by auto
  then show ?thesis
    using lower l assms(2) integerLength_eqs(1) [OF down]
    by (auto simp: j_def integer_ok_Cons less_char_def dest: in_set_dropD)
next
  case (upper k)
  then have "k \<noteq> 0" using assms(4) by (auto simp: char_eq_nat)
  then obtain l where l: "k = Suc l" by (cases k) auto
  then have down: "of_char (headDown h) = (65::nat) + l" "l < 26"
    using upper headDown_upper [of h l] by auto
  then show ?thesis
    using upper l assms(2) integerLength_eqs(2) [OF down]
    by (auto simp: j_def integer_ok_Cons less_char_def)
qed

lemma hd_less_imp_less: "integer_ok j \<Longrightarrow> h < hd j \<Longrightarrow> h # ds < j"
  by (auto simp: integer_ok_def)

lemma hd_greater_imp_greater: "integer_ok j \<Longrightarrow> hd j < h \<Longrightarrow> j < h # ds"
  by (auto simp: integer_ok_def)

text \<open>The next integer is strictly greater; there is none only under the head \<open>z\<close>.\<close>

lemma incrementInteger_strict:
  assumes "integer_ok i"
  shows "\<exists>j. incrementInteger i = Inr j \<and> (j \<noteq> [] \<longrightarrow> integer_ok j \<and> i < j)"
proof -
  obtain h ds where i: "i = h # ds" "integerLength h = Inr (Suc (length ds))" "\<forall>c \<in> set ds. digit c"
    using assms by (rule integer_okE)
  obtain r carry where rc: "carryDigits (rev ds) = (r, carry)" by fastforce
  have r: "length r = length ds" "\<forall>c \<in> set r. digit c" "\<not> carry \<longrightarrow> ds < rev r"
    using carryDigits_strict [OF _ rc] i(3) by auto
  have unfolded: "incrementInteger i =
      (if \<not> carry then Inr (h # rev r)
       else if h = CHR ''Z'' then Inr orderKeyZero else if h = CHR ''z'' then Inr []
       else Inr (if headUp h > CHR ''a'' then headUp h # rev r @ [CHR ''0''] else headUp h # drop 1 (rev r)))"
    using integer_ok_validate [OF assms] i rc by (simp add: incrementInteger_def)
  have head: "h \<noteq> CHR ''Z'' \<Longrightarrow> h \<noteq> CHR ''z'' \<Longrightarrow>
      integer_ok (if headUp h > CHR ''a'' then headUp h # rev r @ [CHR ''0''] else headUp h # drop 1 (rev r)) \<and>
      h < hd (if headUp h > CHR ''a'' then headUp h # rev r @ [CHR ''0''] else headUp h # drop 1 (rev r))"
    using carry_head [of h "rev r"] i r by simp
  show ?thesis
  proof (cases "\<not> carry \<or> h = CHR ''Z'' \<or> h = CHR ''z''")
    case True
    then show ?thesis
      using i r unfolded integer_ok_orderKeyZero
      by (auto simp: integer_ok_Cons orderKeyZero_def less_char_def)
  next
    case False
    with head show ?thesis
      using i(1) unfolded hd_less_imp_less by auto
  qed
qed

text \<open>The previous integer is strictly smaller; there is none only below the smallest.\<close>

lemma decrementInteger_strict:
  assumes "integer_ok i"
  shows "\<exists>j. decrementInteger i = Inr j \<and> (if j = [] then i = smallestOrderInteger else integer_ok j \<and> j < i)"
proof -
  obtain h ds where i: "i = h # ds" "integerLength h = Inr (Suc (length ds))" "\<forall>c \<in> set ds. digit c"
    using assms by (rule integer_okE)
  obtain r borrow where rb: "borrowDigits (rev ds) = (r, borrow)" by fastforce
  have r: "length r = length ds" "\<forall>c \<in> set r. digit c" "\<not> borrow \<longrightarrow> rev r < ds"
      "borrow \<longrightarrow> rev ds = replicate (length ds) (CHR ''0'')"
    using borrowDigits_strict [OF _ rb] i(3) by auto
  have unfolded: "decrementInteger i =
      (if \<not> borrow then Inr (h # rev r)
       else if h = CHR ''a'' then Inr [CHR ''Z'', CHR ''z''] else if h = CHR ''A'' then Inr []
       else Inr (if headDown h < CHR ''Z'' then headDown h # rev r @ [CHR ''z''] else headDown h # drop 1 (rev r)))"
    using integer_ok_validate [OF assms] i rb by (simp add: decrementInteger_def)
  have head: "h \<noteq> CHR ''a'' \<Longrightarrow> h \<noteq> CHR ''A'' \<Longrightarrow>
      integer_ok (if headDown h < CHR ''Z'' then headDown h # rev r @ [CHR ''z''] else headDown h # drop 1 (rev r)) \<and>
      hd (if headDown h < CHR ''Z'' then headDown h # rev r @ [CHR ''z''] else headDown h # drop 1 (rev r)) < h"
    using borrow_head [of h "rev r"] i r by simp
  show ?thesis
  proof (cases "\<not> borrow \<or> h = CHR ''a'' \<or> h = CHR ''A''")
    case True
    have "i = smallestOrderInteger" if "borrow" "h = CHR ''A''"
    proof -
      have "length ds = 26" using i(2) that(2) by (simp add: integerLength_def less_eq_char_def)
      moreover have "ds = replicate (length ds) (CHR ''0'')"
        using r(4) that(1) by (metis rev_replicate rev_rev_ident)
      ultimately show ?thesis using i(1) that(2) unfolding smallestOrderInteger_def by metis
    qed
    with True show ?thesis
      using i r unfolded integer_ok_minusOne
      by (auto simp: integer_ok_Cons less_char_def)
  next
    case False
    with head show ?thesis
      using i(1) unfolded hd_greater_imp_greater by auto
  qed
qed

section \<open>Keys\<close>

text \<open>The key one step above the floor of the integer space.\<close>

definition lowestKey :: string where
  "lowestKey = CHR ''A'' # replicate 25 (CHR ''0'') @ ''1''"

definition key_parts :: "string \<Rightarrow> string \<Rightarrow> string \<Rightarrow> bool" where
  "key_parts key i f \<longleftrightarrow> key = i @ f \<and> integer_ok i \<and> fraction_ok f \<and> (i = smallestOrderInteger \<longrightarrow> f \<noteq> [])"

lemma validateOrderKey_Nil [simp]: "validateOrderKey [] = None"
  by (simp add: validateOrderKey_def)

lemma validateInteger_NoneD:
  assumes "validateInteger i = None"
  shows "\<exists>h ds. i = h # ds \<and> integerLength h = Inr (Suc (length ds))"
  using assms by (auto simp: validateInteger_def split: list.splits sum.splits if_splits)

lemma key_partsE:
  assumes "validateOrderKey key = None" and "key \<noteq> []"
  obtains i f where "key_parts key i f"
proof -
  have digits: "\<forall>c \<in> set key. digit c" and floor: "key \<noteq> smallestOrderInteger"
    using assms by (auto simp: validateOrderKey_def split: if_splits)
  obtain i f where split: "splitOrderKey key = Inr (i, f)" "validateInteger i = None" "\<not> hasSuffixZero f"
    using assms by (auto simp: validateOrderKey_def split: if_splits sum.splits option.splits)
  have key: "key = i @ f"
    using split(1) by (auto simp: splitOrderKey_def split: list.splits sum.splits if_splits)
  have "integer_ok i"
    using validateInteger_NoneD [OF split(2)] digits key by (auto simp: integer_ok_def)
  moreover have "fraction_ok f" using split(3) digits key by (auto simp: fraction_ok_def)
  ultimately show thesis using that key floor by (auto simp: key_parts_def)
qed

lemma key_parts_valid: "key_parts key i f \<Longrightarrow> key \<noteq> [] \<and> validateOrderKey key = None"
proof -
  assume parts: "key_parts key i f"
  then have i: "integer_ok i" "i \<noteq> []" and f: "fraction_ok f" and key: "key = i @ f"
    by (auto simp: key_parts_def integer_ok_def)
  have "\<forall>c \<in> set key. \<not> digitIndex c < 0"
    using i f key by (auto simp: fraction_ok_def not_less dest: integer_ok_digits)
  moreover have "key \<noteq> smallestOrderInteger"
  proof
    assume "key = smallestOrderInteger"
    moreover have "integer_ok smallestOrderInteger"
      by (simp add: smallestOrderInteger_def integer_ok_Cons integerLength_def less_eq_char_def)
    ultimately have "splitOrderKey key = Inr (smallestOrderInteger, [])"
      using split_integer [of smallestOrderInteger "[]"] by simp
    then show False using parts split_integer [OF i(1), of f] key by (auto simp: key_parts_def)
  qed
  ultimately show ?thesis
    using i f key split_integer [OF i(1), of f]
    by (auto simp: validateOrderKey_def integer_ok_validate fraction_ok_def)
qed

lemma key_parts_split: "key_parts key i f \<Longrightarrow> splitOrderKey key = Inr (i, f)"
  by (auto simp: key_parts_def split_integer)

lemma key_parts_between: "key_parts (i @ f) i f \<Longrightarrow> strictly_between a b m \<Longrightarrow> key_parts (i @ m) i m"
  by (simp add: key_parts_def strictly_between_def)

lemma integer_key_parts: "integer_ok j \<Longrightarrow> j \<noteq> smallestOrderInteger \<Longrightarrow> key_parts j j []"
  by (simp add: key_parts_def)

text \<open>A step down reaches the floor from the lowest key only.\<close>

lemma borrowDigits_zeros:
  assumes "\<forall>c \<in> set ds. digit c" and "borrowDigits ds = (replicate n (CHR ''0''), False)"
  shows "ds = CHR ''1'' # replicate (n - 1) (CHR ''0'')"
proof (cases ds)
  case (Cons d ds')
  have one: "digitIndex (CHR ''1'') = 1" by (simp add: digitIndex_def orderKeyDigits_def)
  have zero: "orderKeyDigits ! nat (digitIndex d - 1) = CHR ''0'' \<Longrightarrow> 0 < digitIndex d \<Longrightarrow> d = CHR ''1''"
    using digitIndex_nth [of "nat (digitIndex d - 1)"] digitIndex_bounds(2) [of d] one
      digit_eq_iff [of d "CHR ''1''"] by auto
  show ?thesis
  proof (cases "digitIndex d - 1 < 0")
    case True
    with assms(2) Cons show ?thesis
      by (cases n) (auto simp: Let_def split: prod.splits)
  next
    case False
    with assms(2) Cons have r: "replicate n (CHR ''0'') = orderKeyDigits ! nat (digitIndex d - 1) # ds'"
      by (simp add: Let_def)
    then obtain m where m: "n = Suc m" by (cases n) auto
    with r have "orderKeyDigits ! nat (digitIndex d - 1) = CHR ''0''" "ds' = replicate m (CHR ''0'')"
      by auto
    with zero False Cons m show ?thesis by simp
  qed
qed (use assms in simp)

lemma decrement_to_floor:
  assumes "integer_ok i" and "decrementInteger i = Inr smallestOrderInteger"
  shows "i = lowestKey"
proof -
  obtain h ds where i: "i = h # ds" "integerLength h = Inr (Suc (length ds))" "\<forall>c \<in> set ds. digit c"
    using assms(1) by (rule integer_okE)
  obtain r borrow where rb: "borrowDigits (rev ds) = (r, borrow)" by fastforce
  define zeros where "zeros = replicate 26 (CHR ''0'')"
  have floor: "smallestOrderInteger = CHR ''A'' # zeros" "zeros \<noteq> []" "last zeros = CHR ''0''"
    by (simp_all add: smallestOrderInteger_def zeros_def)
  have "\<not> borrow"
  proof
    assume borrow
    then have "(if h = CHR ''a'' then [CHR ''Z'', CHR ''z''] else if h = CHR ''A'' then []
        else if headDown h < CHR ''Z'' then headDown h # rev r @ [CHR ''z''] else headDown h # drop 1 (rev r))
        = CHR ''A'' # zeros"
      using assms i rb integer_ok_validate [OF assms(1)] floor(1)
      by (auto simp: decrementInteger_def Let_def split: if_splits)
    then show False
      using floor(2,3) by (auto simp: less_char_def split: if_splits)
  qed
  then have "h = CHR ''A''" "rev r = zeros"
    using assms(2) [unfolded floor(1)] i rb integer_ok_validate [OF assms(1)]
    by (simp_all add: decrementInteger_def)
  then have "borrowDigits (rev ds) = (replicate 26 (CHR ''0''), False)"
    using rb \<open>\<not> borrow\<close> unfolding zeros_def by (metis rev_replicate rev_rev_ident)
  then have "rev ds = CHR ''1'' # replicate 25 (CHR ''0'')"
    using borrowDigits_zeros [of "rev ds" 26] i(3) by simp
  then have "ds = rev (CHR ''1'' # replicate 25 (CHR ''0''))" by (metis rev_rev_ident)
  then show ?thesis using i(1) \<open>h = CHR ''A''\<close> unfolding lowestKey_def by (simp add: rev_replicate)
qed

text \<open>The three ways to a new key, each strictly inside its bounds.\<close>

definition placed :: "string \<Rightarrow> string \<Rightarrow> string \<Rightarrow> bool" where
  "placed previous next k \<longleftrightarrow>
     k \<noteq> [] \<and> (previous \<noteq> [] \<longrightarrow> previous < k) \<and> (next \<noteq> [] \<longrightarrow> k < next)
     \<and> (previous \<noteq> [] \<or> next \<noteq> lowestKey \<longrightarrow> validateOrderKey k = None)"

lemma keyBefore_placed:
  assumes "validateOrderKey next = None" and "next \<noteq> []"
  shows "\<exists>k. keyBefore next = Inr k \<and> placed [] next k"
proof -
  obtain i f where parts: "key_parts next i f" using assms by (rule key_partsE)
  then have n: "next = i @ f" "integer_ok i" "fraction_ok f" by (auto simp: key_parts_def)
  note split = split_integer [OF n(2)] split_integer [OF n(2), of "[]", simplified]
  consider (bottom) "i = smallestOrderInteger" | (fraction) "i \<noteq> smallestOrderInteger" "f \<noteq> []"
    | (whole) "i \<noteq> smallestOrderInteger" "f = []" by blast
  then show ?thesis
  proof cases
    case bottom
    then have "f \<noteq> []" using parts by (simp add: key_parts_def)
    then obtain m where m: "midpoint [] f = Inr m" "strictly_between [] f m"
      using midpoint_between [of "[]" f] n(3) by (cases f) auto
    then show ?thesis
      using key_parts_valid [OF key_parts_between [OF parts [unfolded n(1)] m(2)]]
        bottom n(1) \<open>f \<noteq> []\<close> m
      by (simp add: keyBefore_def split_integer [OF n(2) [unfolded bottom]] placed_def strictly_between_def)
  next
    case fraction
    then show ?thesis
      using key_parts_valid [OF integer_key_parts [OF n(2)]] n(1)
      by (simp add: keyBefore_def split placed_def)
  next
    case whole
    obtain j where j: "decrementInteger i = Inr j" "j \<noteq> []" "integer_ok j" "j < i"
      using decrementInteger_strict [OF n(2)] whole(1) by (auto split: if_splits)
    moreover have "i \<noteq> lowestKey \<longrightarrow> j \<noteq> smallestOrderInteger"
      using decrement_to_floor [OF n(2)] j(1) by auto
    ultimately show ?thesis
      using key_parts_valid [OF integer_key_parts [OF j(3)]] whole n(1)
      by (auto simp: keyBefore_def split placed_def)
  qed
qed

lemma not_less_zeros: "\<forall>c \<in> set ds. digit c \<Longrightarrow> \<not> ds < replicate (length ds) (CHR ''0'')"
proof (induction ds)
  case (Cons d ds)
  then have "\<not> d < CHR ''0''" using digit_less_iff [of d "CHR ''0''"] by simp
  with Cons show ?case by auto
qed simp

lemma integer_above_not_floor: "integer_ok i \<Longrightarrow> i < j \<Longrightarrow> j \<noteq> smallestOrderInteger"
proof
  assume i: "integer_ok i" "i < j" and j: "j = smallestOrderInteger"
  have floor: "smallestOrderInteger = CHR ''A'' # replicate 26 (CHR ''0'')"
    by (simp add: smallestOrderInteger_def)
  obtain h ds where h: "i = h # ds" "integerLength h = Inr (Suc (length ds))" "\<forall>c \<in> set ds. digit c"
    using i(1) by (rule integer_okE)
  have "\<not> h < CHR ''A''" using h(2) by (cases rule: letter_cases) (auto simp: less_char_def)
  then have "h = CHR ''A''" "ds < replicate 26 (CHR ''0'')"
    using i(2) [unfolded j h(1) floor] by auto
  moreover have "length ds = 26"
    using h(2) \<open>h = CHR ''A''\<close> by (simp add: integerLength_def less_eq_char_def)
  ultimately show False using not_less_zeros [of ds] h(3) by metis
qed

lemma keyAfter_placed:
  assumes "validateOrderKey previous = None" and "previous \<noteq> []"
  shows "\<exists>k. keyAfter previous = Inr k \<and> placed previous [] k"
proof -
  obtain i f where parts: "key_parts previous i f" using assms by (rule key_partsE)
  then have p: "previous = i @ f" "integer_ok i" "fraction_ok f" by (auto simp: key_parts_def)
  note split = split_integer [OF p(2)]
  obtain j where j: "incrementInteger i = Inr j" "j \<noteq> [] \<longrightarrow> integer_ok j \<and> i < j"
    using incrementInteger_strict [OF p(2)] by auto
  show ?thesis
  proof (cases "j = []")
    case True
    obtain m where m: "midpoint f [] = Inr m" "strictly_between f [] m"
      using midpoint_between [of f "[]"] p(3) by auto
    then show ?thesis
      using key_parts_valid [OF key_parts_between [OF parts [unfolded p(1)] m(2)]] True j(1) p(1)
      by (simp add: keyAfter_def split placed_def strictly_between_def)
  next
    case False
    with j(2) have ok: "integer_ok j" "i < j" by auto
    then show ?thesis
      using key_parts_valid [OF integer_key_parts [OF ok(1) integer_above_not_floor [OF p(2) ok(2)]]]
        integer_less_append [OF p(2) ok, of f "[]"] False j(1) p(1)
      by (simp add: keyAfter_def split placed_def)
  qed
qed

lemma keyBetween_placed:
  assumes "validateOrderKey previous = None" "previous \<noteq> []"
    and "validateOrderKey next = None" "next \<noteq> []" and less: "previous < next"
  shows "\<exists>k. keyBetween previous next = Inr k \<and> placed previous next k"
proof -
  obtain i f where pp: "key_parts previous i f" using assms(1,2) by (rule key_partsE)
  obtain j g where np: "key_parts next j g" using assms(3,4) by (rule key_partsE)
  have p: "previous = i @ f" "integer_ok i" "fraction_ok f"
    and n: "next = j @ g" "integer_ok j" "fraction_ok g"
    using pp np by (auto simp: key_parts_def)
  note split = split_integer [OF p(2)] split_integer [OF n(2)]
  have valid: "key_parts (i @ m) i m" if "strictly_between a b m" for a b m
    using key_parts_between [OF pp [unfolded p(1)] that] .
  show ?thesis
  proof (cases "i = j")
    case True
    then have "f < g" using less p(1) n(1) by simp
    then have "g \<noteq> []" by auto
    then obtain m where m: "midpoint f g = Inr m" "strictly_between f g m"
      using midpoint_between [OF p(3) n(3)] \<open>f < g\<close> by auto
    then show ?thesis
      using key_parts_valid [OF valid [OF m(2)]] True p(1) n(1) \<open>g \<noteq> []\<close>
      by (simp add: keyBetween_def split placed_def strictly_between_def)
  next
    case False
    then have ij: "i < j" using integer_less_of_key_less [OF p(2) n(2)] less p(1) n(1) by simp
    obtain u where u: "incrementInteger i = Inr u" "u \<noteq> [] \<longrightarrow> integer_ok u \<and> i < u"
      using incrementInteger_strict [OF p(2)] by auto
    show ?thesis
    proof (cases "u \<noteq> [] \<and> u < next")
      case True
      with u(2) have ok: "integer_ok u" "i < u" by auto
      then show ?thesis
        using key_parts_valid [OF integer_key_parts [OF ok(1) integer_above_not_floor [OF p(2) ok(2)]]]
          integer_less_append [OF p(2) ok, of f "[]"] True u(1) p(1) False
        by (simp add: keyBetween_def split key_parts_split [OF np] placed_def)
    next
      case stay: False
      obtain m where m: "midpoint f [] = Inr m" "strictly_between f [] m"
        using midpoint_between [of f "[]"] p(3) by auto
      then show ?thesis
        using key_parts_valid [OF valid [OF m(2)]] integer_less_append [OF p(2) n(2) ij, of m g]
          stay False u(1) p(1) n(1)
        by (auto simp: keyBetween_def split placed_def strictly_between_def)
    qed
  qed
qed

lemma OrderKeyBetween_placed:
  assumes "validateOrderKey previous = None" and "validateOrderKey next = None"
    and "previous \<noteq> [] \<Longrightarrow> next \<noteq> [] \<Longrightarrow> previous < next"
  shows "\<exists>k. OrderKeyBetween previous next = Inr k \<and> placed previous next k"
proof -
  have zero: "placed [] [] orderKeyZero"
    using key_parts_valid [OF integer_key_parts [OF integer_ok_orderKeyZero]]
    by (simp add: placed_def orderKeyZero_def smallestOrderInteger_def)
  show ?thesis
    using assms zero keyBefore_placed keyAfter_placed keyBetween_placed
    by (cases "previous = []"; cases "next = []") (auto simp: OrderKeyBetween_def not_le)
qed

section \<open>The interface of a space of rank keys\<close>

text \<open>
  What a list of rows relies on: between two valid bounds, either of which may be absent (the empty
  string), there is a key, and it is valid again unless the bound above is the last key over the
  floor of the space and there is no bound below.
\<close>

primrec greatest :: "string list \<Rightarrow> string" where
  "greatest [] = []"
| "greatest (k # ks) = max k (greatest ks)"

lemma greatest_ge: "k \<in> set ks \<Longrightarrow> k \<le> greatest ks"
  by (induction ks) (auto simp: le_max_iff_disj)

lemma greatest_in: "greatest ks = [] \<or> greatest ks \<in> set ks"
  by (induction ks) (auto simp: max_def)

locale key_space =
  fixes valid :: "string \<Rightarrow> bool"
    and between :: "string \<Rightarrow> string \<Rightarrow> string result"
    and floor :: string
  assumes between_law:
    "a = [] \<or> valid a \<Longrightarrow> b = [] \<or> valid b \<Longrightarrow> (a \<noteq> [] \<Longrightarrow> b \<noteq> [] \<Longrightarrow> a < b) \<Longrightarrow>
     \<exists>k. between a b = Inr k \<and> k \<noteq> [] \<and> (a \<noteq> [] \<longrightarrow> a < k) \<and> (b \<noteq> [] \<longrightarrow> k < b)
         \<and> (a \<noteq> [] \<or> b \<noteq> floor \<longrightarrow> valid k)"
begin

text \<open>
  Measuring a position by the greatest key below it: the new key goes between exactly the rows
  before the position and the rows at or after it.
\<close>

lemma between_greatest:
  assumes "\<forall>x \<in> set ks. valid x" and "b = [] \<or> valid b"
  defines "below \<equiv> filter (\<lambda>x. b = [] \<or> x < b) ks"
  shows "\<exists>k. between (greatest below) b = Inr k \<and> k \<noteq> []
           \<and> (\<forall>x \<in> set ks. if b = [] \<or> x < b then x < k else k < x)
           \<and> (greatest below \<noteq> [] \<or> b \<noteq> floor \<longrightarrow> valid k)"
proof -
  let ?a = "greatest below"
  have "?a = [] \<or> valid ?a" and "?a \<noteq> [] \<Longrightarrow> b \<noteq> [] \<Longrightarrow> ?a < b"
    using assms(1) greatest_in [of below] by (auto simp: below_def)
  then obtain k where k: "between ?a b = Inr k" "k \<noteq> []" "?a \<noteq> [] \<longrightarrow> ?a < k" "b \<noteq> [] \<longrightarrow> k < b"
      "?a \<noteq> [] \<or> b \<noteq> floor \<longrightarrow> valid k"
    using between_law [of ?a b] assms(2) by blast
  have "if b = [] \<or> x < b then x < k else k < x" if "x \<in> set ks" for x
  proof (cases "b = [] \<or> x < b")
    case True
    then have "x \<le> ?a" using that by (intro greatest_ge) (simp add: below_def)
    with True k(2,3) show ?thesis by (cases "?a = []") auto
  next
    case False
    with k(4) show ?thesis by auto
  qed
  with k show ?thesis by blast
qed

end

interpretation order_keys: key_space
  "\<lambda>k. k \<noteq> [] \<and> validateOrderKey k = None" OrderKeyBetween lowestKey
proof unfold_locales
  fix a b :: string
  assume "a = [] \<or> a \<noteq> [] \<and> validateOrderKey a = None" "b = [] \<or> b \<noteq> [] \<and> validateOrderKey b = None"
    and less: "a \<noteq> [] \<Longrightarrow> b \<noteq> [] \<Longrightarrow> a < b"
  then have "validateOrderKey a = None" "validateOrderKey b = None"
    by auto
  with less show "\<exists>k. OrderKeyBetween a b = Inr k \<and> k \<noteq> [] \<and> (a \<noteq> [] \<longrightarrow> a < k) \<and> (b \<noteq> [] \<longrightarrow> k < b)
      \<and> (a \<noteq> [] \<or> b \<noteq> lowestKey \<longrightarrow> k \<noteq> [] \<and> validateOrderKey k = None)"
    using OrderKeyBetween_placed [of a b] by (auto simp: placed_def)
qed

section \<open>Properties\<close>

text \<open>
  C1. \<open>OrderKeyBetween\<close> always returns a key, and the key sorts strictly after \<open>previous\<close> and
  strictly before \<open>next\<close>, whenever the bounds are valid keys in order; an empty bound is no bound.
  So the integer space is never exhausted, and no index is ever out of range.
\<close>

theorem OrderKeyBetween_strict:
  assumes "validateOrderKey previous = None" and "validateOrderKey next = None"
    and "previous = [] \<or> next = [] \<or> previous < next"
  shows "\<exists>k. OrderKeyBetween previous next = Inr k \<and> k \<noteq> []
           \<and> (previous = [] \<or> previous < k) \<and> (next = [] \<or> k < next)"
  using OrderKeyBetween_placed [of previous "next"] assms by (auto simp: placed_def)

theorem OrderKeyBetween_strict_witness:
  "\<exists>k. OrderKeyBetween ''a0V'' ''a0W'' = Inr k \<and> k \<noteq> []
     \<and> (''a0V'' = [] \<or> ''a0V'' < k) \<and> (''a0W'' = [] \<or> k < ''a0W'')"
proof (rule OrderKeyBetween_strict)
  show "validateOrderKey ''a0V'' = None" by code_simp
  show "validateOrderKey ''a0W'' = None" by code_simp
  show "''a0V'' = [] \<or> ''a0W'' = [] \<or> ''a0V'' < ''a0W''" by code_simp
qed

text \<open>
  C2. The key returned is itself a valid key, so it can be a bound of the next insertion: always when
  there is a row above it in the list, and at the top of the list unless \<open>next\<close> is the single lowest
  key of the space.
\<close>

theorem OrderKeyBetween_valid:
  assumes "OrderKeyBetween previous next = Inr k" and "previous \<noteq> [] \<or> next \<noteq> lowestKey"
  shows "validateOrderKey k = None \<and> ValidOrderKey k = None"
proof -
  from assms(1) have "validateOrderKey previous = None" "validateOrderKey next = None"
      "previous \<noteq> [] \<Longrightarrow> next \<noteq> [] \<Longrightarrow> previous < next"
    by (auto simp: OrderKeyBetween_def go_result split: if_splits)
  then show ?thesis
    using OrderKeyBetween_placed [of previous "next"] assms by (auto simp: placed_def ValidOrderKey_def)
qed

theorem OrderKeyBetween_valid_witness:
  "OrderKeyBetween ''Zz'' ''a1'' = Inr ''a0'' \<and> validateOrderKey ''a0'' = None \<and> ValidOrderKey ''a0'' = None"
proof -
  have run: "OrderKeyBetween ''Zz'' ''a1'' = Inr ''a0''" by code_simp
  show ?thesis using run OrderKeyBetween_valid [OF run] by simp
qed

text \<open>
  Moving a row above the lowest key yields the floor of the integer space, which is the one key
  the scheme refuses: the returned key is rejected by \<open>validateOrderKey\<close>, so every later placement
  that reads it as a bound fails.
\<close>

theorem OrderKeyBetween_floor:
  "validateOrderKey lowestKey = None \<and> OrderKeyBetween [] lowestKey = Inr smallestOrderInteger
   \<and> (\<forall>next. OrderKeyBetween smallestOrderInteger next = Inl (keyMalformed smallestOrderInteger))"
proof -
  have refused: "validateOrderKey smallestOrderInteger = Some (keyMalformed smallestOrderInteger)"
    by (simp add: validateOrderKey_def smallestOrderInteger_def)
  have "validateOrderKey lowestKey = None" by code_simp
  moreover have "OrderKeyBetween [] lowestKey = Inr smallestOrderInteger" by code_simp
  ultimately show ?thesis by (simp add: OrderKeyBetween_def refused)
qed

end
