(* ===== verification/Ranks.thy ===== *)
theory Ranks
  imports Ids Order_Key_Laws
begin

text \<open>
  How a row takes its place in an ordered level.  The bounds of a position come from the query
  \<^verbatim>\<open>OrderKeyNeighbours\<close> (\<^verbatim>\<open>infrastructure/postgres/sqlc/Work.sql.go\<close>), the key from
  \<open>OrderKeyBetween\<close>; the clients are \<^verbatim>\<open>CreateWorkItem.itemOrderKey\<close>, \<^verbatim>\<open>PlacementWriter.rankAt\<close>,
  \<^verbatim>\<open>CreateBucket.orderKey\<close> and \<^verbatim>\<open>ReorderContainer.rankIn\<close>.  A level is the list of the stored rows
  the query ranges over (one collection and parent, not deleted), as pairs of identifier and key; the
  repository's own failure to answer is not modelled.
\<close>

type_synonym level = "(ID \<times> string) list"

text \<open>\<open>chr(1114111)\<close> in UTF-8, the upper end of the comparison under collation \<open>C\<close>.\<close>

definition maxRune :: string where
  "maxRune = map char_of [0xF4, 0x8F, 0xBF, 0xBF :: nat]"

definition OrderKeyNeighbours :: "level \<Rightarrow> ID \<Rightarrow> ID \<Rightarrow> string \<times> string" where
  "OrderKeyNeighbours rows beforeID movingID =
     (let others = filter (\<lambda>(id, _). id \<noteq> movingID) rows;
          anchor = map_of others beforeID;
          bound = (case anchor of Some k \<Rightarrow> k | None \<Rightarrow> maxRune);
          previousKey = greatest (filter (\<lambda>k. k < bound) (map snd others));
          nextKey = (case anchor of Some k \<Rightarrow> k | None \<Rightarrow> '''')
      in (previousKey, nextKey))"

definition LastOrderKey :: "level \<Rightarrow> string" where
  "LastOrderKey rows = greatest (map snd rows)"

definition beforeItemNotInLevel :: "ID \<Rightarrow> failure" where
  "beforeItemNotInLevel beforeID =
     Failure (WithFields (WithParams (WithDetail ErrValidation ''items.before_item_not_in_level'')
       [(''before_item_id'', beforeID)]) [field_error ''/before_item_id'' ''items.before_item_not_in_level''])"

definition itemOrderKey :: "level \<Rightarrow> ID \<Rightarrow> string result" where
  "itemOrderKey rows beforeID =
     (if IsZero beforeID then OrderKeyAfter (LastOrderKey rows)
      else let (previous, next) = OrderKeyNeighbours rows beforeID '''' in
        if next = '''' then Inl (beforeItemNotInLevel beforeID)
        else OrderKeyBetween previous next)"

definition rankAt :: "level \<Rightarrow> string \<Rightarrow> ID \<Rightarrow> ID \<Rightarrow> string result" where
  "rankAt rows orderKey beforeID movingID =
     (if orderKey \<noteq> '''' then Inr orderKey
      else let (previous, next) = OrderKeyNeighbours rows beforeID movingID in
        if \<not> IsZero beforeID \<and> next = '''' then Inl (beforeItemNotInLevel beforeID)
        else OrderKeyBetween previous next)"

definition bucketOrderKey :: "level \<Rightarrow> ID \<Rightarrow> string result" where
  "bucketOrderKey rows beforeID =
     (if IsZero beforeID then OrderKeyAfter (LastOrderKey rows)
      else let (previous, next) = OrderKeyNeighbours rows beforeID '''' in
        if next = ''''
        then Inl (Failure (WithFields (WithParams (WithDetail ErrValidation ''buckets.before_bucket_not_on_board'')
               [(''bucket_id'', beforeID)])
               [field_error ''/before_bucket_id'' ''buckets.before_bucket_not_on_board'']))
        else OrderKeyBetween previous next)"

definition rankIn :: "level \<Rightarrow> ID \<Rightarrow> ID \<Rightarrow> string result" where
  "rankIn rows beforeID containerID =
     (let (previous, next) = OrderKeyNeighbours rows beforeID containerID in
      if \<not> IsZero beforeID \<and> next = ''''
      then Inl (Failure (WithFields (WithParams (WithDetail ErrValidation ''containers.before_container_not_in_level'')
             [(''before_container_id'', beforeID)])
             [field_error ''/before_container_id'' ''containers.before_container_not_in_level'']))
      else OrderKeyBetween previous next)"

section \<open>Levels of valid keys\<close>

definition level_ok :: "level \<Rightarrow> bool" where
  "level_ok rows \<longleftrightarrow> (\<forall>(id, key) \<in> set rows. id \<noteq> [] \<and> key \<noteq> [] \<and> validateOrderKey key = None)"

lemma valid_key_below_maxRune:
  assumes "validateOrderKey k = None"
  shows "k < maxRune"
proof (cases k)
  case Nil
  then show ?thesis by (simp add: maxRune_def)
next
  case (Cons c s)
  with assms obtain i f where "key_parts k i f" by (auto elim: key_partsE)
  with Cons have "digit c" by (auto simp: key_parts_def integer_ok_def letter_digit)
  then have "c \<le> last orderKeyDigits"
    using digit_less_iff [of "CHR ''z''" c] digitIndex_bounds(2) [of c] by (simp add: not_less [symmetric])
  with Cons show ?thesis by (auto simp: maxRune_def less_char_def less_eq_char_def)
qed

text \<open>
  What a position means: every other row that sorts before the anchor sorts before the new key, and
  every other row at or after it sorts after the new key.  With no anchor the position is the end.
\<close>

definition sits_before :: "level \<Rightarrow> ID \<Rightarrow> string \<Rightarrow> string \<Rightarrow> bool" where
  "sits_before rows movingID anchor k \<longleftrightarrow>
     (\<forall>(id, key) \<in> set rows. id \<noteq> movingID \<longrightarrow>
        (if anchor = [] \<or> key < anchor then key < k else k < key))"

lemma neighbours_between:
  assumes "level_ok rows" and "OrderKeyNeighbours rows beforeID movingID = (previous, next)"
  shows "\<exists>k. OrderKeyBetween previous next = Inr k \<and> k \<noteq> [] \<and> sits_before rows movingID next k
           \<and> (previous \<noteq> [] \<or> next \<noteq> lowestKey \<longrightarrow> validateOrderKey k = None)"
proof -
  let ?others = "filter (\<lambda>(id, _). id \<noteq> movingID) rows"
  let ?ks = "map snd ?others"
  have valid: "\<forall>x \<in> set ?ks. x \<noteq> [] \<and> validateOrderKey x = None"
    using assms(1) by (auto simp: level_ok_def)
  have "previous = greatest (filter (\<lambda>x. next = [] \<or> x < next) ?ks) \<and> (next = [] \<or> next \<in> set ?ks)"
  proof (cases "map_of ?others beforeID")
    case None
    have "filter (\<lambda>k. k < maxRune) ?ks = ?ks"
      using valid valid_key_below_maxRune by (auto simp: filter_id_conv)
    with None assms(2) show ?thesis by (simp add: OrderKeyNeighbours_def)
  next
    case (Some a)
    then have "a \<in> set ?ks" by (force dest: map_of_SomeD)
    with Some assms(2) valid show ?thesis by (auto simp: OrderKeyNeighbours_def)
  qed
  then have bounds: "previous = greatest (filter (\<lambda>x. next = [] \<or> x < next) ?ks)"
      "next = [] \<or> next \<noteq> [] \<and> validateOrderKey next = None"
    using valid by auto
  obtain k where k: "OrderKeyBetween previous next = Inr k" "k \<noteq> []"
      "\<forall>x \<in> set ?ks. if next = [] \<or> x < next then x < k else k < x"
      "previous \<noteq> [] \<or> next \<noteq> lowestKey \<longrightarrow> validateOrderKey k = None"
    using order_keys.between_greatest [OF valid bounds(2)] unfolding bounds(1) by blast
  have "sits_before rows movingID next k"
    unfolding sits_before_def
  proof clarify
    fix i key
    assume "(i, key) \<in> set rows" "i \<noteq> movingID"
    then have "key \<in> set ?ks" by force
    with k(3) show "if next = [] \<or> key < next then key < k else k < key" by blast
  qed
  with k show ?thesis by blast
qed

lemma anchor_of:
  assumes "level_ok rows" and "OrderKeyNeighbours rows beforeID movingID = (previous, next)"
  shows "next = (case map_of rows beforeID of Some a \<Rightarrow> if beforeID = movingID then [] else a | None \<Rightarrow> [])"
proof -
  have "map_of (filter (\<lambda>(i, _). i \<noteq> movingID) rows) beforeID =
      (if beforeID = movingID then None else map_of rows beforeID)"
    by (induction rows) auto
  with assms(2) show ?thesis
    by (auto simp: OrderKeyNeighbours_def Let_def split: option.splits if_splits)
qed

lemma level_ok_anchor: "level_ok rows \<Longrightarrow> map_of rows i = Some a \<Longrightarrow> a \<noteq> [] \<and> i \<noteq> []"
  by (auto simp: level_ok_def dest: map_of_SomeD)

section \<open>Properties\<close>

text \<open>
  C4. Moving a row before a sibling of the level (with no key of the device's own) always finds a
  rank, and the rank puts the row exactly there: every other row that sorted before the sibling sorts
  before the moved row, every other row from the sibling on sorts after it, and no other row changes.
\<close>

theorem rankAt_position:
  assumes "level_ok rows" and "map_of rows beforeID = Some anchor" and "beforeID \<noteq> movingID"
  shows "\<exists>k. rankAt rows [] beforeID movingID = Inr k \<and> sits_before rows movingID anchor k"
proof -
  obtain previous nxt where n: "OrderKeyNeighbours rows beforeID movingID = (previous, nxt)" by fastforce
  have "nxt = anchor" using anchor_of [OF assms(1) n] assms(2,3) by simp
  then show ?thesis
    using neighbours_between [OF assms(1) n] level_ok_anchor [OF assms(1,2)] n
    by (auto simp: rankAt_def)
qed

theorem rankAt_position_witness:
  "\<exists>k. rankAt [(''x'', ''a0''), (''y'', ''a1''), (''z'', ''a2'')] [] ''y'' ''z'' = Inr k
     \<and> sits_before [(''x'', ''a0''), (''y'', ''a1''), (''z'', ''a2'')] ''z'' ''a1'' k"
proof (rule rankAt_position)
  show "level_ok [(''x'', ''a0''), (''y'', ''a1''), (''z'', ''a2'')]" unfolding level_ok_def by code_simp
qed simp_all

text \<open>
  Creating a row without naming a sibling appends it: the new key is valid and sorts after every
  row of the level, for items and for board columns alike.
\<close>

theorem itemOrderKey_appends:
  assumes "level_ok rows"
  shows "\<exists>k. itemOrderKey rows [] = Inr k \<and> bucketOrderKey rows [] = Inr k
           \<and> validateOrderKey k = None \<and> (\<forall>(i, key) \<in> set rows. key < k)"
proof -
  let ?last = "LastOrderKey rows"
  have last: "?last = [] \<or> ?last \<noteq> [] \<and> validateOrderKey ?last = None"
    using greatest_in [of "map snd rows"] assms by (auto simp: LastOrderKey_def level_ok_def)
  then obtain k where k: "OrderKeyBetween ?last [] = Inr k" "k \<noteq> []" "?last \<noteq> [] \<longrightarrow> ?last < k"
      "validateOrderKey k = None"
    using order_keys.between_law [of ?last "[]"] by (auto simp: lowestKey_def)
  have "key < k" if "(i, key) \<in> set rows" for i key
  proof -
    have "key \<le> ?last" unfolding LastOrderKey_def by (rule greatest_ge) (use that in force)
    with k(2,3) show ?thesis by (cases "?last = []") auto
  qed
  with k show ?thesis
    by (auto simp: itemOrderKey_def bucketOrderKey_def OrderKeyAfter_def)
qed

theorem itemOrderKey_appends_witness:
  "\<exists>k. itemOrderKey [(''x'', ''a0''), (''y'', ''a0V'')] [] = Inr k
     \<and> bucketOrderKey [(''x'', ''a0''), (''y'', ''a0V'')] [] = Inr k \<and> validateOrderKey k = None
     \<and> (\<forall>(i, key) \<in> set [(''x'', ''a0''), (''y'', ''a0V'')]. key < k)"
proof (rule itemOrderKey_appends)
  show "level_ok [(''x'', ''a0''), (''y'', ''a0V'')]" unfolding level_ok_def by code_simp
qed

text \<open>
  C6. A named sibling that is not in the level is refused, never read as an append: the three callers
  that place before a sibling return their own refusal exactly when no other row of the level has the
  identifier.
\<close>

theorem placement_refused:
  assumes "level_ok rows" and "beforeID \<noteq> []"
  shows "((\<exists>e. rankAt rows [] beforeID movingID = Inl e) \<longleftrightarrow> map_of rows beforeID = None \<or> beforeID = movingID)
    \<and> ((\<exists>e. rankIn rows beforeID movingID = Inl e) \<longleftrightarrow> map_of rows beforeID = None \<or> beforeID = movingID)
    \<and> ((\<exists>e. itemOrderKey rows beforeID = Inl e) \<longleftrightarrow> map_of rows beforeID = None)
    \<and> (map_of rows beforeID = None \<longrightarrow> rankAt rows [] beforeID movingID = Inl (beforeItemNotInLevel beforeID))"
proof -
  obtain previous nxt where n: "OrderKeyNeighbours rows beforeID movingID = (previous, nxt)" by fastforce
  obtain previous' nxt' where n': "OrderKeyNeighbours rows beforeID [] = (previous', nxt')" by fastforce
  have nxt: "nxt = [] \<longleftrightarrow> map_of rows beforeID = None \<or> beforeID = movingID"
    and nxt': "nxt' = [] \<longleftrightarrow> map_of rows beforeID = None"
    using anchor_of [OF assms(1) n] anchor_of [OF assms(1) n'] level_ok_anchor [OF assms(1)] assms(2)
    by (auto split: option.splits)
  note found = neighbours_between [OF assms(1) n] neighbours_between [OF assms(1) n']
  have "(\<exists>e. rankAt rows [] beforeID movingID = Inl e) \<longleftrightarrow> nxt = []"
    and "(\<exists>e. rankIn rows beforeID movingID = Inl e) \<longleftrightarrow> nxt = []"
    and "(\<exists>e. itemOrderKey rows beforeID = Inl e) \<longleftrightarrow> nxt' = []"
    and "nxt = [] \<Longrightarrow> rankAt rows [] beforeID movingID = Inl (beforeItemNotInLevel beforeID)"
    using n n' found assms(2) by (auto simp: rankAt_def rankIn_def itemOrderKey_def)
  with nxt nxt' show ?thesis by simp
qed

theorem placement_refused_witness:
  "map_of [(''x'', ''a0'')] ''q'' = None \<and> rankAt [(''x'', ''a0'')] [] ''q'' ''m'' = Inl (beforeItemNotInLevel ''q'')"
proof -
  have "level_ok [(''x'', ''a0'')]" unfolding level_ok_def by code_simp
  then show ?thesis using placement_refused [of "[(''x'', ''a0'')]" "''q''" "''m''"] by simp
qed

end
