(* ===== verification/Clock.thy ===== *)
theory Clock
  imports Errors "HOL-Library.Word" "HOL-Library.Product_Lexorder"
begin

text \<open>
  Hybrid logical clocks, from \<^verbatim>\<open>core/domain/model/shared/HLC.go\<close>, and the skew bound of
  \<^verbatim>\<open>core/domain/model/sync/Mutation.go\<close>.  An instant (\<^verbatim>\<open>time.Time\<close>) is the integer number of
  nanoseconds since the Unix epoch; the zero value of Go's type is the year 1.  \<^verbatim>\<open>UTC()\<close> changes the
  location only and is the identity here.  The counter is a 32-bit word, as the code has it.  Of the
  standard library the model writes out \<^verbatim>\<open>Truncate\<close>, \<^verbatim>\<open>UnixMilli\<close>, the saturating \<^verbatim>\<open>Sub\<close>, the zero
  padded verbs of \<^verbatim>\<open>Sprintf\<close>, \<^verbatim>\<open>strings.Cut\<close>, \<^verbatim>\<open>ParseInt\<close> and \<^verbatim>\<open>ParseUint\<close>.
\<close>

section \<open>Instants\<close>

type_synonym time = int

definition millisecond :: int where
  "millisecond = 1000000"

definition zeroTime :: time where
  "zeroTime = - 62135596800 * 1000000000"

definition truncateMs :: "time \<Rightarrow> time" where
  "truncateMs t = t - t mod millisecond"

definition unixMilli :: "time \<Rightarrow> int" where
  "unixMilli t = t div millisecond"

text \<open>\<open>time.Sub\<close> saturates at the ends of a 64-bit duration; negating the least one wraps to itself.\<close>

definition timeSub :: "time \<Rightarrow> time \<Rightarrow> int" where
  "timeSub a b = max (- (2 ^ 63)) (min (2 ^ 63 - 1) (a - b))"

definition negDuration :: "int \<Rightarrow> int" where
  "negDuration d = (if d = - (2 ^ 63) then d else - d)"

section \<open>Decimal numbers in text\<close>

definition decDigit :: "nat \<Rightarrow> char" where
  "decDigit n = char_of (48 + n)"

fun dec :: "nat \<Rightarrow> string" where
  "dec n = (if n < 10 then [decDigit n] else dec (n div 10) @ [decDigit (n mod 10)])"

declare dec.simps [simp del]

definition zeroPad :: "nat \<Rightarrow> string \<Rightarrow> string" where
  "zeroPad w s = replicate (w - length s) (CHR ''0'') @ s"

text \<open>The verb \<open>%0*d\<close>: the sign comes first and counts towards the width.\<close>

definition paddedDecimal :: "nat \<Rightarrow> int \<Rightarrow> string" where
  "paddedDecimal w n =
     (if n < 0 then CHR ''-'' # zeroPad (w - 1) (dec (nat (- n))) else zeroPad w (dec (nat n)))"

definition isDecDigit :: "char \<Rightarrow> bool" where
  "isDecDigit c \<longleftrightarrow> CHR ''0'' \<le> c \<and> c \<le> CHR ''9''"

definition decValue :: "string \<Rightarrow> nat" where
  "decValue s = foldl (\<lambda>n c. 10 * n + (of_char c - 48)) 0 s"

definition parseDigits :: "string \<Rightarrow> nat option" where
  "parseDigits s = (if s \<noteq> [] \<and> list_all isDecDigit s then Some (decValue s) else None)"

definition ParseInt64 :: "string \<Rightarrow> int option" where
  "ParseInt64 s =
     (case s of
        [] \<Rightarrow> None
      | c # rest \<Rightarrow>
          let (negative, body) = (if c = CHR ''-'' then (True, rest)
                                  else if c = CHR ''+'' then (False, rest) else (False, s))
          in case parseDigits body of
               None \<Rightarrow> None
             | Some n \<Rightarrow>
                 if \<not> negative \<and> n < 2 ^ 63 then Some (int n)
                 else if negative \<and> n \<le> 2 ^ 63 then Some (- int n)
                 else None)"

definition ParseUint32 :: "string \<Rightarrow> nat option" where
  "ParseUint32 s = (case parseDigits s of Some n \<Rightarrow> if n < 2 ^ 32 then Some n else None | None \<Rightarrow> None)"

text \<open>\<open>strings.Cut\<close> around the first separator.\<close>

definition stringsCut :: "string \<Rightarrow> char \<Rightarrow> (string \<times> string) option" where
  "stringsCut s sep =
     (if sep \<in> set s then Some (takeWhile (\<lambda>c. c \<noteq> sep) s, tl (dropWhile (\<lambda>c. c \<noteq> sep) s)) else None)"

section \<open>Readings\<close>

record HLC =
  Physical :: time
  Counter :: "32 word"
  Device :: string

definition hlcPhysicalDigits :: nat where
  "hlcPhysicalDigits = 13"

definition hlcCounterDigits :: nat where
  "hlcCounterDigits = 5"

definition hlcMaxCounter :: "32 word" where
  "hlcMaxCounter = 99999"

text \<open>The zero value \<open>HLC{}\<close>.\<close>

definition zeroHLC :: HLC where
  "zeroHLC = \<lparr>Physical = zeroTime, Counter = 0, Device = ''''\<rparr>"

definition NewHLC :: "time \<Rightarrow> 32 word \<Rightarrow> string \<Rightarrow> HLC result" where
  "NewHLC physical counter device =
     (if physical = zeroTime then Inl (Failure (WithDetail ErrInternal ''sync.hlc_incomplete''))
      else if device = '''' \<or> CHR '':'' \<in> set device
      then Inl (Failure (WithParams (WithDetail ErrInternal ''sync.hlc_device_malformed'')
             [(''device'', device)]))
      else if counter > hlcMaxCounter
      then Inl (Failure (WithDetail ErrInternal ''sync.hlc_counter_exhausted''))
      else Inr \<lparr>Physical = truncateMs physical, Counter = counter, Device = device\<rparr>)"

definition Tick :: "HLC \<Rightarrow> time \<Rightarrow> string \<Rightarrow> HLC result" where
  "Tick h now device =
     (let now' = truncateMs now in
      if Physical h = zeroTime \<or> now' > Physical h then NewHLC now' 0 device
      else if Counter h \<ge> hlcMaxCounter then NewHLC (Physical h + millisecond) 0 device
      else NewHLC (Physical h) (Counter h + 1) device)"

definition HLC_String :: "HLC \<Rightarrow> string" where
  "HLC_String h =
     (if Physical h = zeroTime then ''''
      else paddedDecimal hlcPhysicalDigits (unixMilli (Physical h)) @ '':''
         @ paddedDecimal hlcCounterDigits (uint (Counter h)) @ '':'' @ Device h)"

definition HLC_IsZero :: "HLC \<Rightarrow> bool" where
  "HLC_IsZero h \<longleftrightarrow> Physical h = zeroTime"

definition hlcMalformed :: "string \<Rightarrow> failure" where
  "hlcMalformed raw =
     Failure (WithParams (WithDetail ErrValidation ''sync.hlc_malformed'') [(''value'', raw)])"

definition ParseHLC :: "string \<Rightarrow> HLC result" where
  "ParseHLC raw =
     (case stringsCut raw (CHR '':'') of
        None \<Rightarrow> Inl (hlcMalformed raw)
      | Some (physical, rest) \<Rightarrow>
         (case stringsCut rest (CHR '':'') of
            None \<Rightarrow> Inl (hlcMalformed raw)
          | Some (counter, device) \<Rightarrow>
              if device = '''' then Inl (hlcMalformed raw)
              else case ParseInt64 physical of
                     None \<Rightarrow> Inl (hlcMalformed raw)
                   | Some milliseconds \<Rightarrow>
                       if milliseconds < 0 then Inl (hlcMalformed raw)
                       else case ParseUint32 counter of
                              None \<Rightarrow> Inl (hlcMalformed raw)
                            | Some ticks \<Rightarrow>
                                if ticks > unat hlcMaxCounter then Inl (hlcMalformed raw)
                                else Inr \<lparr>Physical = milliseconds * millisecond,
                                          Counter = of_nat ticks, Device = device\<rparr>))"

definition stringsCompare :: "string \<Rightarrow> string \<Rightarrow> int" where
  "stringsCompare a b = (if a = b then 0 else if a < b then -1 else 1)"

definition Compare :: "HLC \<Rightarrow> HLC \<Rightarrow> int" where
  "Compare h other =
     (if Physical h \<noteq> Physical other then if Physical h < Physical other then -1 else 1
      else if Counter h \<noteq> Counter other then if Counter h < Counter other then -1 else 1
      else stringsCompare (Device h) (Device other))"

definition After :: "HLC \<Rightarrow> HLC \<Rightarrow> bool" where
  "After h other \<longleftrightarrow> Compare h other > 0"

text \<open>
  \<^verbatim>\<open>sync.Bound\<close>: the reading to use and the drift that was corrected.  A failed construction of the
  replacement keeps the reading as it came.
\<close>

definition Bound :: "HLC \<Rightarrow> time \<Rightarrow> int \<Rightarrow> HLC \<times> int" where
  "Bound reading serverNow skew =
     (let drift = timeSub (Physical reading) serverNow;
          drift' = (if drift < 0 then negDuration drift else drift)
      in if drift' \<le> skew then (reading, 0)
         else case NewHLC serverNow (Counter reading) (Device reading) of
                Inl _ \<Rightarrow> (reading, drift')
              | Inr bounded \<Rightarrow> (bounded, drift'))"

end
