(* ===== verification/Clock_Laws.thy ===== *)
theory Clock_Laws
  imports Clock
begin

text \<open>
  The laws of the hybrid logical clocks: comparison is the lexicographic order on physical time,
  counter and device; the text form parses back to the reading and sorts as the clock does; a tick
  moves the clock strictly forward; the skew bound keeps a device near server time.
\<close>

section \<open>Decimal text\<close>

lemma decDigit_of_char: "n < 10 \<Longrightarrow> of_char (decDigit n) = 48 + n"
  by (simp add: decDigit_def)

lemma isDecDigit_decDigit: "n < 10 \<Longrightarrow> isDecDigit (decDigit n)"
  by (simp add: isDecDigit_def less_eq_char_def decDigit_of_char)

lemma decDigit_less: "n < 10 \<Longrightarrow> m < 10 \<Longrightarrow> decDigit n < decDigit m \<longleftrightarrow> n < m"
  by (simp add: less_char_def decDigit_of_char)

lemma decDigit_zero [simp]: "decDigit 0 = CHR ''0''"
  by code_simp

lemma decValue_append: "decValue (s @ [c]) = 10 * decValue s + (of_char c - 48)"
  by (simp add: decValue_def)

lemma decValue_dec: "decValue (dec n) = n"
proof (induction n rule: dec.induct)
  case (1 n)
  show ?case
  proof (cases "n < 10")
    case True
    then show ?thesis by (subst dec.simps) (simp add: decValue_def decDigit_of_char)
  next
    case False
    with 1 show ?thesis
      by (subst dec.simps) (simp add: decValue_append decDigit_of_char)
  qed
qed

lemma dec_digits: "list_all isDecDigit (dec n)"
proof (induction n rule: dec.induct)
  case (1 n)
  then show ?case by (subst dec.simps) (simp add: isDecDigit_decDigit)
qed

lemma dec_nonempty: "dec n \<noteq> []"
  by (subst dec.simps) simp

lemma decValue_zeros: "decValue (replicate k (CHR ''0'') @ s) = decValue s"
  by (induction k) (simp_all add: decValue_def)

lemma parseDigits_zeroPad: "parseDigits (zeroPad w (dec n)) = Some n"
  using dec_digits [of n] dec_nonempty [of n]
  by (auto simp: parseDigits_def zeroPad_def decValue_zeros decValue_dec list_all_iff isDecDigit_def
      less_eq_char_def)

lemma zeroPad_digits: "c \<in> set (zeroPad w (dec n)) \<Longrightarrow> isDecDigit c"
  using dec_digits [of n]
  by (auto simp: zeroPad_def list_all_iff isDecDigit_def less_eq_char_def)

text \<open>Numbers below the width's bound are written with exactly that many digits.\<close>

fun fixedWidth :: "nat \<Rightarrow> nat \<Rightarrow> string" where
  "fixedWidth 0 n = []"
| "fixedWidth (Suc w) n = fixedWidth w (n div 10) @ [decDigit (n mod 10)]"

lemma length_fixedWidth [simp]: "length (fixedWidth w n) = w"
  by (induction w n rule: fixedWidth.induct) simp_all

lemma fixedWidth_zero: "fixedWidth w 0 = replicate w (CHR ''0'')"
  by (induction w) (simp_all add: replicate_append_same [symmetric])

lemma zeroPad_snoc: "zeroPad (Suc w) (s @ [c]) = zeroPad w s @ [c]"
  by (simp add: zeroPad_def)

lemma zeroPad_dec: "0 < w \<Longrightarrow> n < 10 ^ w \<Longrightarrow> zeroPad w (dec n) = fixedWidth w n"
proof (induction w arbitrary: n)
  case (Suc w)
  show ?case
  proof (cases "n < 10")
    case True
    then show ?thesis
      by (subst dec.simps) (simp add: zeroPad_def fixedWidth_zero)
  next
    case False
    then have "0 < w" "n div 10 < 10 ^ w"
      using Suc.prems(2) by (cases w, simp_all add: less_mult_imp_div_less mult.commute)
    with Suc.IH [of "n div 10"] False show ?thesis
      by (subst dec.simps) (simp add: zeroPad_snoc)
  qed
qed simp

lemma less_by_digits:
  fixes n m :: nat
  shows "n < m \<longleftrightarrow> n div 10 < m div 10 \<or> (n div 10 = m div 10 \<and> n mod 10 < m mod 10)"
proof -
  define a b c d where "a = n div 10" "b = n mod 10" "c = m div 10" "d = m mod 10"
  then have "n = 10 * a + b" "b < 10" "m = 10 * c + d" "d < 10" by simp_all
  then have "n < m \<longleftrightarrow> a < c \<or> (a = c \<and> b < d)" by arith
  then show ?thesis by (simp add: a_b_c_d_def)
qed

lemma fixedWidth_less:
  "n < 10 ^ w \<Longrightarrow> m < 10 ^ w \<Longrightarrow> fixedWidth w n < fixedWidth w m \<longleftrightarrow> n < m"
proof (induction w arbitrary: n m)
  case (Suc w)
  have IH: "fixedWidth w (n div 10) < fixedWidth w (m div 10) \<longleftrightarrow> n div 10 < m div 10"
    and IH': "fixedWidth w (m div 10) < fixedWidth w (n div 10) \<longleftrightarrow> m div 10 < n div 10"
    using Suc.IH Suc.prems by auto
  have eq: "fixedWidth w (n div 10) = fixedWidth w (m div 10) \<longleftrightarrow> n div 10 = m div 10"
    using IH IH' by (metis less_irrefl linorder_less_linear)
  have "n < m \<longleftrightarrow> n div 10 < m div 10 \<or> (n div 10 = m div 10 \<and> n mod 10 < m mod 10)"
    by (rule less_by_digits)
  then show ?case
    using IH eq by (simp add: append_less_iff_eq_length decDigit_less)
qed simp

lemma fixedWidth_inj: "n < 10 ^ w \<Longrightarrow> m < 10 ^ w \<Longrightarrow> fixedWidth w n = fixedWidth w m \<longleftrightarrow> n = m"
  by (metis fixedWidth_less less_irrefl linorder_less_linear)

section \<open>The order of readings\<close>

definition hlc_key :: "HLC \<Rightarrow> time \<times> 32 word \<times> string" where
  "hlc_key h = (Physical h, Counter h, Device h)"

lemma hlc_key_inj [simp]: "hlc_key a = hlc_key b \<longleftrightarrow> a = b"
  by (cases a; cases b) (simp add: hlc_key_def)

lemma Compare_key:
  "Compare a b = (if hlc_key a = hlc_key b then 0 else if hlc_key a < hlc_key b then -1 else 1)"
  by (auto simp: Compare_def stringsCompare_def hlc_key_def less_prod_def' simp del: hlc_key_inj)

lemma After_key [hlc_simps]: "After a b \<longleftrightarrow> hlc_key b < hlc_key a"
  by (auto simp: After_def Compare_key not_less_iff_gr_or_eq)

text \<open>A reading as the constructors and the parser leave it.\<close>

definition hlc_ok :: "HLC \<Rightarrow> bool" where
  "hlc_ok h \<longleftrightarrow> 0 \<le> Physical h \<and> Physical h mod millisecond = 0 \<and> Counter h \<le> hlcMaxCounter \<and> Device h \<noteq> []"

definition device_ok :: "string \<Rightarrow> bool" where
  "device_ok d \<longleftrightarrow> d \<noteq> [] \<and> CHR '':'' \<notin> set d"

lemma hlc_ok_nonzero: "hlc_ok h \<Longrightarrow> Physical h \<noteq> zeroTime"
  by (auto simp: hlc_ok_def zeroTime_def)

lemma truncateMs_le: "truncateMs t \<le> t" "t < truncateMs t + millisecond"
  by (simp_all add: truncateMs_def millisecond_def)

lemma truncateMs_aligned [simp]: "truncateMs t mod millisecond = 0"
  by (simp add: truncateMs_def minus_mod_eq_mult_div)

lemma truncateMs_id: "t mod millisecond = 0 \<Longrightarrow> truncateMs t = t"
  by (simp add: truncateMs_def)

lemma truncateMs_nonneg: "0 \<le> t \<Longrightarrow> 0 \<le> truncateMs t"
  by (simp add: truncateMs_def millisecond_def minus_mod_eq_mult_div)

lemma NewHLC_ok:
  assumes "0 \<le> physical" "device_ok device" "counter \<le> hlcMaxCounter"
  shows "NewHLC physical counter device
           = Inr \<lparr>Physical = truncateMs physical, Counter = counter, Device = device\<rparr>"
  using assms by (auto simp: NewHLC_def device_ok_def zeroTime_def)

lemma NewHLC_Inr:
  "NewHLC physical counter device = Inr h \<Longrightarrow>
     h = \<lparr>Physical = truncateMs physical, Counter = counter, Device = device\<rparr>
     \<and> device_ok device \<and> counter \<le> hlcMaxCounter"
  by (auto simp: NewHLC_def device_ok_def split: if_splits)


section \<open>The text form\<close>

lemma stringsCut_append: "sep \<notin> set a \<Longrightarrow> stringsCut (a @ sep # b) sep = Some (a, b)"
  by (induction a) (auto simp: stringsCut_def)

lemma zeroPad_no_colon: "CHR '':'' \<notin> set (zeroPad w (dec n))"
  using zeroPad_digits [of "CHR '':''" w n] by (auto simp: isDecDigit_def less_eq_char_def)

lemma ParseInt64_zeroPad: "n < 2 ^ 63 \<Longrightarrow> ParseInt64 (zeroPad w (dec n)) = Some (int n)"
proof (cases "zeroPad w (dec n)")
  case Nil
  then show ?thesis using dec_nonempty [of n] by (simp add: zeroPad_def)
next
  case (Cons c rest)
  assume "n < 2 ^ 63"
  have "isDecDigit c" using zeroPad_digits [of c w n] Cons by simp
  then have "c \<noteq> CHR ''-'' \<and> c \<noteq> CHR ''+''" by (auto simp: isDecDigit_def less_eq_char_def)
  with Cons \<open>n < 2 ^ 63\<close> show ?thesis
    using parseDigits_zeroPad [of w n] by (simp add: ParseInt64_def)
qed

lemma counter_bound: "c \<le> hlcMaxCounter \<longleftrightarrow> unat c \<le> 99999"
  by (simp add: word_le_nat_alt hlcMaxCounter_def)

lemma unat_hlcMaxCounter [simp]: "unat hlcMaxCounter = 99999"
  by (simp add: hlcMaxCounter_def)

lemma unixMilli_nonneg: "hlc_ok h \<Longrightarrow> 0 \<le> unixMilli (Physical h)"
  by (simp add: hlc_ok_def unixMilli_def millisecond_def div_int_pos_iff)

lemma HLC_String_eq:
  assumes "hlc_ok h"
  shows "HLC_String h = zeroPad 13 (dec (nat (unixMilli (Physical h)))) @ CHR '':''
       # zeroPad 5 (dec (unat (Counter h))) @ CHR '':'' # Device h"
proof -
  have "0 \<le> unixMilli (Physical h)" using unixMilli_nonneg [OF assms] .
  then show ?thesis
    using hlc_ok_nonzero [OF assms]
    by (simp add: HLC_String_def paddedDecimal_def hlcPhysicalDigits_def hlcCounterDigits_def not_less
        flip: nat_uint_eq)
qed

lemma unixMilli_exact: "hlc_ok h \<Longrightarrow> unixMilli (Physical h) * millisecond = Physical h"
  using div_mult_mod_eq [of "Physical h" millisecond] by (simp add: hlc_ok_def unixMilli_def)

lemma Physical_unixMilli:
  assumes "hlc_ok a" "hlc_ok b"
  shows "Physical a < Physical b \<longleftrightarrow> nat (unixMilli (Physical a)) < nat (unixMilli (Physical b))"
    and "Physical a = Physical b \<longleftrightarrow> nat (unixMilli (Physical a)) = nat (unixMilli (Physical b))"
proof -
  have "Physical a = 1000000 * unixMilli (Physical a)" "Physical b = 1000000 * unixMilli (Physical b)"
    using unixMilli_exact [OF assms(1)] unixMilli_exact [OF assms(2)] by (simp_all add: millisecond_def)
  then show "Physical a < Physical b \<longleftrightarrow> nat (unixMilli (Physical a)) < nat (unixMilli (Physical b))"
    and "Physical a = Physical b \<longleftrightarrow> nat (unixMilli (Physical a)) = nat (unixMilli (Physical b))"
    using unixMilli_nonneg [OF assms(1)] unixMilli_nonneg [OF assms(2)] by linarith+
qed

lemma String_prefix_less:
  assumes "hlc_ok h" "unixMilli (Physical h) < 10 ^ 13"
  shows "HLC_String h = (fixedWidth 13 (nat (unixMilli (Physical h))) @ CHR '':''
       # fixedWidth 5 (unat (Counter h))) @ CHR '':'' # Device h"
proof -
  have "nat (unixMilli (Physical h)) < 10 ^ 13" using assms(2) by simp
  moreover have "unat (Counter h) < 10 ^ 5" using assms(1) by (simp add: hlc_ok_def counter_bound)
  ultimately show ?thesis
    using HLC_String_eq [OF assms(1)] zeroPad_dec [of 13] zeroPad_dec [of 5] by simp
qed

lemma ParseHLC_text:
  assumes "hlc_ok h" and "unixMilli (Physical h) < 2 ^ 63"
  shows "ParseHLC (HLC_String h) = Inr h"
proof -
  let ?ms = "unixMilli (Physical h)"
  have ms: "0 \<le> ?ms" "nat ?ms < 2 ^ 63"
    using unixMilli_nonneg [OF assms(1)] assms(2) by simp_all
  have counter: "unat (Counter h) \<le> 99999" "Device h \<noteq> []"
    using assms(1) by (simp_all add: hlc_ok_def counter_bound)
  have "ParseUint32 (zeroPad 5 (dec (unat (Counter h)))) = Some (unat (Counter h))"
    using counter by (simp add: ParseUint32_def parseDigits_zeroPad)
  then show ?thesis
    using ms counter unixMilli_exact [OF assms(1)] ParseInt64_zeroPad [OF ms(2), of 13]
    by (simp add: ParseHLC_def HLC_String_eq [OF assms(1)] stringsCut_append zeroPad_no_colon)
qed

section \<open>Properties\<close>

text \<open>
  C7. The text form of a reading parses back to exactly that reading, for every reading with a whole
  millisecond after the epoch, a counter within bounds and a device that is not empty.
\<close>

theorem ParseHLC_String:
  assumes "hlc_ok h" and "unixMilli (Physical h) < 2 ^ 63"
  shows "ParseHLC (HLC_String h) = Inr h"
  using assms by (rule ParseHLC_text)

theorem ParseHLC_String_witness:
  "ParseHLC (HLC_String \<lparr>Physical = 1700000000123000000, Counter = 7, Device = ''phone''\<rparr>)
     = Inr \<lparr>Physical = 1700000000123000000, Counter = 7, Device = ''phone''\<rparr>"
  by (rule ParseHLC_String)
    (simp_all add: hlc_ok_def hlcMaxCounter_def millisecond_def unixMilli_def word_le_nat_alt)

text \<open>
  C8. Until the year 2286 the text form sorts as the clock does: comparing two stored readings as
  strings gives the same answer as \<open>Compare\<close>, which is what the database index relies on.
\<close>

theorem HLC_String_order:
  assumes "hlc_ok a" "hlc_ok b" and "unixMilli (Physical a) < 10 ^ 13" "unixMilli (Physical b) < 10 ^ 13"
  shows "stringsCompare (HLC_String a) (HLC_String b) = Compare a b"
proof -
  let ?m = "\<lambda>h. nat (unixMilli (Physical h))" and ?c = "\<lambda>h. unat (Counter h)"
  have bounds: "?m a < 10 ^ 13" "?m b < 10 ^ 13" "?c a < 10 ^ 5" "?c b < 10 ^ 5"
    using assms by (simp_all add: hlc_ok_def counter_bound)
  have "HLC_String a < HLC_String b \<longleftrightarrow>
      ?m a < ?m b \<or> (?m a = ?m b \<and> (?c a < ?c b \<or> (?c a = ?c b \<and> Device a < Device b)))"
    using bounds
    by (simp add: String_prefix_less assms append_less_iff_eq_length fixedWidth_less fixedWidth_inj)
  moreover have "HLC_String a = HLC_String b \<longleftrightarrow> ?m a = ?m b \<and> ?c a = ?c b \<and> Device a = Device b"
    using bounds by (simp add: String_prefix_less assms fixedWidth_inj)
  ultimately show ?thesis
    by (auto simp: stringsCompare_def Compare_def Physical_unixMilli [OF assms(1,2)] word_less_nat_alt word_unat_eq_iff)
qed

theorem HLC_String_order_witness:
  "stringsCompare (HLC_String \<lparr>Physical = 5000000, Counter = 9, Device = ''b''\<rparr>)
      (HLC_String \<lparr>Physical = 5000000, Counter = 10, Device = ''a''\<rparr>)
    = Compare \<lparr>Physical = 5000000, Counter = 9, Device = ''b''\<rparr> \<lparr>Physical = 5000000, Counter = 10, Device = ''a''\<rparr>"
  by (rule HLC_String_order)
    (simp_all add: hlc_ok_def hlcMaxCounter_def millisecond_def unixMilli_def word_le_nat_alt)

text \<open>Below the cap the counter's increment does not wrap.\<close>

lemma counter_step:
  assumes "c < hlcMaxCounter"
  shows "c < c + 1" and "c + 1 \<le> hlcMaxCounter"
proof -
  have "unat c < 99999" using assms by (simp add: word_less_nat_alt hlcMaxCounter_def)
  moreover from this have "unat (c + 1) = unat c + 1" by (simp add: unat_word_ariths)
  ultimately show "c < c + 1" "c + 1 \<le> hlcMaxCounter"
    by (simp_all add: word_less_nat_alt word_le_nat_alt hlcMaxCounter_def)
qed

text \<open>
  C9. A tick always succeeds for a well-formed device and moves the clock strictly forward, whatever
  the wall clock did: the new reading wins against the old one, is never behind the wall clock, and
  runs ahead of both by at most the one millisecond it may borrow.
\<close>

theorem Tick_forward:
  assumes "hlc_ok h" and "device_ok device" and "0 \<le> now"
  shows "\<exists>h'. Tick h now device = Inr h' \<and> hlc_ok h' \<and> Device h' = device \<and> After h' h
           \<and> truncateMs now \<le> Physical h' \<and> Physical h' \<le> max (truncateMs now) (Physical h + millisecond)"
proof -
  let ?now = "truncateMs now"
  have h: "0 \<le> Physical h" "truncateMs (Physical h) = Physical h" "Physical h mod millisecond = 0"
    using assms(1) by (simp_all add: hlc_ok_def truncateMs_id)
  have dev: "device \<noteq> []" using assms(2) by (simp add: device_ok_def)
  have next_ms: "truncateMs (Physical h + millisecond) = Physical h + millisecond"
    using h(3) by (intro truncateMs_id) simp
  consider (wall) "Physical h < ?now" | (exhausted) "?now \<le> Physical h" "Counter h \<ge> hlcMaxCounter"
    | (counter) "?now \<le> Physical h" "Counter h < hlcMaxCounter" by fastforce
  then show ?thesis
  proof cases
    case wall
    then have "Tick h now device = Inr \<lparr>Physical = ?now, Counter = 0, Device = device\<rparr>"
      using NewHLC_ok [of ?now device 0] assms truncateMs_id [of ?now] truncateMs_nonneg [of now]
      by (simp add: Tick_def)
    with wall dev h show ?thesis
      by (auto simp: hlc_ok_def After_key hlc_key_def truncateMs_nonneg [OF assms(3)])
  next
    case exhausted
    then have "Tick h now device = Inr \<lparr>Physical = Physical h + millisecond, Counter = 0, Device = device\<rparr>"
      using NewHLC_ok [of "Physical h + millisecond" device 0] assms(2) h(1) next_ms hlc_ok_nonzero [OF assms(1)]
      by (simp add: Tick_def millisecond_def not_less)
    with exhausted dev h show ?thesis
      by (auto simp: hlc_ok_def After_key hlc_key_def millisecond_def)
  next
    case counter
    note step = counter_step [OF counter(2)]
    then have "Tick h now device = Inr \<lparr>Physical = Physical h, Counter = Counter h + 1, Device = device\<rparr>"
      using counter NewHLC_ok [of "Physical h" device "Counter h + 1"] assms(2) h hlc_ok_nonzero [OF assms(1)]
      by (auto simp: Tick_def)
    with counter step dev h show ?thesis
      by (auto simp: hlc_ok_def After_key hlc_key_def millisecond_def)
  qed
qed

theorem Tick_forward_witness:
  "\<exists>h'. Tick \<lparr>Physical = 5000000, Counter = 99999, Device = ''a''\<rparr> 4000000 ''b'' = Inr h' \<and> hlc_ok h'
     \<and> Device h' = ''b'' \<and> After h' \<lparr>Physical = 5000000, Counter = 99999, Device = ''a''\<rparr>
     \<and> truncateMs 4000000 \<le> Physical h'
     \<and> Physical h' \<le> max (truncateMs 4000000) (Physical \<lparr>Physical = 5000000, Counter = 99999, Device = ''a''\<rparr> + millisecond)"
  by (rule Tick_forward)
    (simp_all add: hlc_ok_def device_ok_def hlcMaxCounter_def millisecond_def)



text \<open>
  A reading whose device contains the separator parses, and is never bounded: whatever the skew
  and the server time, the device's own moment is kept.
\<close>

theorem Bound_colon_device:
  assumes "hlc_ok h" "unixMilli (Physical h) < 2 ^ 63" and "CHR '':'' \<in> set (Device h)"
  shows "ParseHLC (HLC_String h) = Inr h \<and> fst (Bound h serverNow skew) = h"
proof -
  have "\<exists>e. NewHLC serverNow (Counter h) (Device h) = Inl e"
    using assms(3) by (auto simp: NewHLC_def)
  then have "fst (Bound h serverNow skew) = h" by (auto simp: Bound_def Let_def)
  with ParseHLC_text [OF assms(1,2)] show ?thesis by simp
qed

theorem Bound_colon_device_witness:
  "ParseHLC (HLC_String \<lparr>Physical = 9999999999999000000, Counter = 0, Device = ''x:y''\<rparr>)
      = Inr \<lparr>Physical = 9999999999999000000, Counter = 0, Device = ''x:y''\<rparr>
   \<and> fst (Bound \<lparr>Physical = 9999999999999000000, Counter = 0, Device = ''x:y''\<rparr> 1700000000000000000 300000000000)
      = \<lparr>Physical = 9999999999999000000, Counter = 0, Device = ''x:y''\<rparr>"
  by (rule Bound_colon_device) (simp_all add: hlc_ok_def hlcMaxCounter_def millisecond_def unixMilli_def)

end
