(* ===== verification/Replicas.thy ===== *)
theory Replicas
  imports Prelude
begin

text \<open>
  What a merge promises to the replicas that exchange states, as an interface: on well-formed states
  it is closed, commutative, associative and idempotent.  A client of the interface learns that the
  state of a replica depends only on which states it was merged with, never on their order, their
  number or the way they were grouped.  The set merge and the field-wise merge are its providers.
\<close>

locale state_merge =
  fixes ok :: "'r \<Rightarrow> bool"
    and merge :: "'r \<Rightarrow> 'r \<Rightarrow> 'r"
  assumes closed: "ok a \<Longrightarrow> ok b \<Longrightarrow> ok (merge a b)"
    and commute: "ok a \<Longrightarrow> ok b \<Longrightarrow> merge a b = merge b a"
    and assoc: "ok a \<Longrightarrow> ok b \<Longrightarrow> ok c \<Longrightarrow> merge (merge a b) c = merge a (merge b c)"
    and idem: "ok a \<Longrightarrow> merge a a = a"
begin

lemma closed_foldl: "ok a \<Longrightarrow> list_all ok xs \<Longrightarrow> ok (foldl merge a xs)"
  by (induction xs arbitrary: a) (simp_all add: closed)

lemma foldl_merge_out:
  assumes "ok a" "ok b" "list_all ok xs"
  shows "foldl merge (merge a b) xs = merge (foldl merge a xs) b"
  using assms
proof (induction xs arbitrary: a)
  case (Cons x xs)
  then have "merge (merge a b) x = merge (merge a x) b"
    by (simp add: assoc) (simp add: commute)
  with Cons show ?case by (simp add: closed)
qed simp

lemma absorb_delivered:
  assumes "ok a" "list_all ok xs" "x \<in> set xs"
  shows "merge (foldl merge a xs) x = foldl merge a xs"
  using assms
proof (induction xs arbitrary: a)
  case (Cons y xs)
  then have ok: "ok x" "ok (foldl merge a xs)" by (auto simp: list_all_iff closed_foldl)
  show ?case
  proof (cases "x = y")
    case True
    with Cons.prems ok show ?thesis by (simp add: foldl_merge_out assoc idem)
  next
    case False
    with Cons show ?thesis by (simp add: closed)
  qed
qed simp

lemma redelivery:
  assumes "ok a" "list_all ok xs" "set ys \<subseteq> set xs"
  shows "foldl merge (foldl merge a xs) ys = foldl merge a xs"
  using assms(3) by (induction ys) (simp_all add: absorb_delivered assms(1,2))

lemma exchange:
  assumes "ok a" "list_all ok xs" "list_all ok ys"
  shows "foldl merge (foldl merge a xs) ys = foldl merge (foldl merge a ys) xs"
  using assms(3)
proof (induction ys)
  case Nil
  show ?case by simp
next
  case (Cons y ys)
  then have ok: "ok y" "list_all ok ys" "ok (foldl merge a xs)" "ok (foldl merge a ys)"
    using assms by (simp_all add: closed_foldl)
  with Cons.IH assms show ?case by (simp add: foldl_merge_out)
qed

theorem converge:
  assumes "ok a" "list_all ok xs" "list_all ok ys" "set xs = set ys"
  shows "foldl merge a xs = foldl merge a ys"
  using exchange [OF assms(1-3)] redelivery [OF assms(1,2)] redelivery [OF assms(1,3)] assms(4)
  by simp

end

end
