(* ===== verification/Go_Strings.thy ===== *)
theory Go_Strings
  imports Prelude
begin

text \<open>
  What the code uses of Go's \<^verbatim>\<open>strings\<close> and \<^verbatim>\<open>unicode/utf8\<close> packages, on byte strings: decoding of
  UTF-8 one rune at a time (an invalid byte is a rune of width 1), the rune count, trimming of Unicode
  white space, prefixes, splitting and joining.
\<close>

section \<open>UTF-8\<close>

abbreviation byte :: "char \<Rightarrow> nat" where
  "byte c \<equiv> of_char c"

definition inRange :: "nat \<Rightarrow> nat \<Rightarrow> char \<Rightarrow> bool" where
  "inRange lo hi c \<longleftrightarrow> lo \<le> byte c \<and> byte c \<le> hi"

abbreviation cont :: "char \<Rightarrow> bool" where
  "cont \<equiv> inRange 128 191"

text \<open>The range of the second byte, by the first; \<open>None\<close> for a first byte that starts no such rune.\<close>

definition second3 :: "nat \<Rightarrow> (nat \<times> nat) option" where
  "second3 b = (if b = 224 then Some (160, 191) else if b = 237 then Some (128, 159)
     else if 225 \<le> b \<and> b \<le> 239 then Some (128, 191) else None)"

definition second4 :: "nat \<Rightarrow> (nat \<times> nat) option" where
  "second4 b = (if b = 240 then Some (144, 191) else if b = 244 then Some (128, 143)
     else if 241 \<le> b \<and> b \<le> 243 then Some (128, 191) else None)"

fun runeWidth :: "string \<Rightarrow> nat" where
  "runeWidth (b0 # b1 # rest) =
     (if inRange 194 223 b0 \<and> cont b1 then 2
      else case second3 (byte b0) of
        Some (lo, hi) \<Rightarrow> (case rest of b2 # _ \<Rightarrow> if inRange lo hi b1 \<and> cont b2 then 3 else 1 | _ \<Rightarrow> 1)
      | None \<Rightarrow> (case second4 (byte b0) of
          Some (lo, hi) \<Rightarrow> (case rest of b2 # b3 # _ \<Rightarrow>
              if inRange lo hi b1 \<and> cont b2 \<and> cont b3 then 4 else 1 | _ \<Rightarrow> 1)
        | None \<Rightarrow> 1))"
| "runeWidth _ = 1"

lemma runeWidth_pos: "0 < runeWidth s"
  by (cases s rule: runeWidth.cases) (auto split: option.split list.split)

function RuneCountInString :: "string \<Rightarrow> nat" where
  "RuneCountInString [] = 0"
| "RuneCountInString (c # s) = Suc (RuneCountInString (drop (runeWidth (c # s)) (c # s)))"
  by pat_completeness auto
termination
  by (relation "measure length") (auto simp: runeWidth_pos)

text \<open>A string of runes bounded in number is bounded in bytes, and a rune is at least a byte.\<close>

lemma RuneCount_le_length: "RuneCountInString s \<le> length s"
proof (induction s rule: RuneCountInString.induct)
  case (2 c s)
  have "length (drop (runeWidth (c # s)) (c # s)) \<le> length s"
    using runeWidth_pos [of "c # s"] by simp
  with 2 show ?case by (simp del: length_drop)
qed simp

lemma RuneCount_eq_0 [simp]: "RuneCountInString s = 0 \<longleftrightarrow> s = []"
  by (cases s) simp_all

lemma RuneCount_ASCII: "list_all (\<lambda>c. byte c < 128) s \<Longrightarrow> RuneCountInString s = length s"
proof (induction s)
  case (Cons c s)
  then have "runeWidth (c # s) = 1"
    by (cases s) (auto simp: inRange_def second3_def second4_def)
  with Cons show ?case by simp
qed simp

section \<open>White space\<close>

definition bytes :: "nat list \<Rightarrow> string" where
  "bytes = map (char_of :: nat \<Rightarrow> char)"

text \<open>The UTF-8 encodings of the characters for which \<^verbatim>\<open>unicode.IsSpace\<close> holds.\<close>

definition spaces :: "string list" where
  "spaces = map (\<lambda>b. bytes [b]) [9, 10, 11, 12, 13, 32]
     @ [bytes [194, 133], bytes [194, 160], bytes [225, 154, 128]]
     @ map (\<lambda>b. bytes [226, 128, b]) [128, 129, 130, 131, 132, 133, 134, 135, 136, 137, 138, 168, 169, 175]
     @ [bytes [226, 129, 159], bytes [227, 128, 128]]"

text \<open>The equations the evaluation of examples uses.\<close>

lemma spaces_code [code]:
  "spaces = [[CHR 0x09], [CHR 0x0A], [CHR 0x0B], [CHR 0x0C], [CHR 0x0D], [CHR 0x20], [CHR 0xC2, CHR 0x85], [CHR 0xC2, CHR 0xA0],
     [CHR 0xE1, CHR 0x9A, CHR 0x80], [CHR 0xE2, CHR 0x80, CHR 0x80], [CHR 0xE2, CHR 0x80, CHR 0x81],
     [CHR 0xE2, CHR 0x80, CHR 0x82], [CHR 0xE2, CHR 0x80, CHR 0x83], [CHR 0xE2, CHR 0x80, CHR 0x84],
     [CHR 0xE2, CHR 0x80, CHR 0x85], [CHR 0xE2, CHR 0x80, CHR 0x86], [CHR 0xE2, CHR 0x80, CHR 0x87],
     [CHR 0xE2, CHR 0x80, CHR 0x88], [CHR 0xE2, CHR 0x80, CHR 0x89], [CHR 0xE2, CHR 0x80, CHR 0x8A],
     [CHR 0xE2, CHR 0x80, CHR 0xA8], [CHR 0xE2, CHR 0x80, CHR 0xA9], [CHR 0xE2, CHR 0x80, CHR 0xAF],
     [CHR 0xE2, CHR 0x81, CHR 0x9F], [CHR 0xE3, CHR 0x80, CHR 0x80]]"
  by (simp add: spaces_def bytes_def char_of_def bit_0)

definition leadingSpace :: "string \<Rightarrow> nat" where
  "leadingSpace s = (case find (\<lambda>w. take (length w) s = w) spaces of None \<Rightarrow> 0 | Some w \<Rightarrow> length w)"

lemma spaces_nonempty: "w \<in> set spaces \<Longrightarrow> w \<noteq> []"
  by (auto simp: spaces_def bytes_def)

function TrimLeftSpace :: "string \<Rightarrow> string" where
  "TrimLeftSpace s = (if s = [] \<or> leadingSpace s = 0 then s else TrimLeftSpace (drop (leadingSpace s) s))"
  by pat_completeness auto
termination
  by (relation "measure length") auto

declare TrimLeftSpace.simps [simp del]

definition trailingSpace :: "string \<Rightarrow> nat" where
  "trailingSpace s =
     (case find (\<lambda>w. length w \<le> length s \<and> drop (length s - length w) s = w) spaces of
        None \<Rightarrow> 0 | Some w \<Rightarrow> length w)"

function TrimRightSpace :: "string \<Rightarrow> string" where
  "TrimRightSpace s =
     (if s = [] \<or> trailingSpace s = 0 then s else TrimRightSpace (take (length s - trailingSpace s) s))"
  by pat_completeness auto
termination
  by (relation "measure length") auto

declare TrimRightSpace.simps [simp del]

lemma TrimLeftSpace_code [code]:
  "TrimLeftSpace s = (case leadingSpace s of 0 \<Rightarrow> s | Suc n \<Rightarrow> TrimLeftSpace (drop (Suc n) s))"
  by (cases "leadingSpace s") (simp_all add: TrimLeftSpace.simps [of s] TrimLeftSpace.simps [of "[]"])

lemma TrimRightSpace_code [code]:
  "TrimRightSpace s = (case trailingSpace s of 0 \<Rightarrow> s | Suc n \<Rightarrow> TrimRightSpace (take (length s - Suc n) s))"
  by (cases "trailingSpace s") (simp_all add: TrimRightSpace.simps [of s] TrimRightSpace.simps [of "[]"])

definition TrimSpace :: "string \<Rightarrow> string" where
  "TrimSpace s = TrimRightSpace (TrimLeftSpace s)"

text \<open>Trimming is idempotent: what it leaves neither starts nor ends with white space.\<close>

lemma TrimLeftSpace_stable: "leadingSpace (TrimLeftSpace s) = 0 \<or> TrimLeftSpace s = []"
proof (induction s rule: TrimLeftSpace.induct)
  case (1 s)
  then show ?case by (cases "s = [] \<or> leadingSpace s = 0") (auto simp: TrimLeftSpace.simps [of s])
qed

lemma TrimRightSpace_stable: "trailingSpace (TrimRightSpace s) = 0 \<or> TrimRightSpace s = []"
proof (induction s rule: TrimRightSpace.induct)
  case (1 s)
  then show ?case by (cases "s = [] \<or> trailingSpace s = 0") (auto simp: TrimRightSpace.simps [of s])
qed

lemma TrimRightSpace_prefix: "\<exists>k. TrimRightSpace s = take k s"
proof (induction s rule: TrimRightSpace.induct)
  case (1 s)
  show ?case
  proof (cases "s = [] \<or> trailingSpace s = 0")
    case True
    then have "TrimRightSpace s = take (length s) s" by (simp add: TrimRightSpace.simps [of s])
    then show ?thesis by blast
  next
    case False
    with 1 obtain k where "TrimRightSpace s = take k (take (length s - trailingSpace s) s)"
      by (auto simp: TrimRightSpace.simps [of s])
    then show ?thesis by (metis take_take)
  qed
qed

lemma leadingSpace_0_iff: "leadingSpace s = 0 \<longleftrightarrow> (\<forall>w \<in> set spaces. take (length w) s \<noteq> w)"
  by (auto simp: leadingSpace_def find_None_iff spaces_nonempty find_Some_iff split: option.split)

lemma leadingSpace_take: "leadingSpace s = 0 \<Longrightarrow> leadingSpace (take k s) = 0"
  unfolding leadingSpace_0_iff
  by (metis append_eq_conv_conj append_take_drop_id length_append take_add take_take min.absorb1 nat_le_linear take_all)

lemma TrimSpace_idem [simp]: "TrimSpace (TrimSpace s) = TrimSpace s"
proof -
  obtain k where k: "TrimSpace s = take k (TrimLeftSpace s)"
    using TrimRightSpace_prefix by (auto simp: TrimSpace_def)
  have "leadingSpace (TrimSpace s) = 0 \<or> TrimSpace s = []"
    using TrimLeftSpace_stable [of s] leadingSpace_take by (auto simp: k)
  then have "TrimLeftSpace (TrimSpace s) = TrimSpace s" by (auto simp: TrimLeftSpace.simps [of "TrimSpace s"])
  moreover have "TrimRightSpace (TrimSpace s) = TrimSpace s"
    using TrimRightSpace_stable [of "TrimLeftSpace s"]
    by (auto simp: TrimSpace_def TrimRightSpace.simps [of "TrimRightSpace (TrimLeftSpace s)"])
  ultimately show ?thesis by (simp add: TrimSpace_def [of "TrimSpace s"])
qed

section \<open>Prefixes, splitting and joining\<close>

definition hasPrefix :: "string \<Rightarrow> string \<Rightarrow> bool" where
  "hasPrefix s p = (take (length p) s = p)"

definition trimPrefix :: "string \<Rightarrow> string \<Rightarrow> string" where
  "trimPrefix s p = (if hasPrefix s p then drop (length p) s else s)"

lemma hasPrefix_append [simp]: "hasPrefix (p @ s) p"
  by (simp add: hasPrefix_def)

text \<open>Whether some rune of the string is a control character (U+0000 to U+001F, U+007F to U+009F).\<close>

function containsControl :: "string \<Rightarrow> bool" where
  "containsControl [] = False"
| "containsControl (c # s) =
     (let w = runeWidth (c # s) in
      (w = 1 \<and> (byte c < 32 \<or> byte c = 127))
      \<or> (w = 2 \<and> byte c = 194 \<and> inRange 128 159 (hd s))
      \<or> containsControl (drop w (c # s)))"
  by pat_completeness auto
termination
  by (relation "measure length") (auto simp: runeWidth_pos)

fun splitOn :: "char \<Rightarrow> string \<Rightarrow> string list" where
  "splitOn sep [] = [[]]"
| "splitOn sep (c # s) =
     (if c = sep then [] # splitOn sep s
      else case splitOn sep s of part # parts \<Rightarrow> (c # part) # parts | [] \<Rightarrow> [[c]])"

fun joinWith :: "string \<Rightarrow> string list \<Rightarrow> string" where
  "joinWith sep [] = []"
| "joinWith sep [part] = part"
| "joinWith sep (part # parts) = part @ sep @ joinWith sep parts"

lemma splitOn_nonempty [simp]: "splitOn sep s \<noteq> []"
  by (induction s) (auto split: list.split)

lemma splitOn_plain: "sep \<notin> set s \<Longrightarrow> splitOn sep s = [s]"
  by (induction s) auto

lemma splitOn_append: "sep \<notin> set s \<Longrightarrow> splitOn sep (s @ sep # t) = s # splitOn sep t"
  by (induction s) auto

lemma splitOn_join:
  "parts \<noteq> [] \<Longrightarrow> \<forall>p \<in> set parts. sep \<notin> set p \<Longrightarrow> splitOn sep (joinWith [sep] parts) = parts"
  by (induction "[sep]" parts rule: joinWith.induct) (auto simp: splitOn_plain splitOn_append)

lemma join_splitOn: "joinWith [sep] (splitOn sep s) = s"
proof (induction s)
  case (Cons c s)
  obtain part parts where "splitOn sep s = part # parts" by (metis splitOn_nonempty list.exhaust)
  with Cons show ?case by (cases parts) auto
qed simp

end
