(* ===== verification/Sync_Kinds.thy ===== *)
theory Sync_Kinds
  imports Clock_Laws Ids Replicas Go_Strings
begin

text \<open>
  The rows of the merge matrix, from \<^verbatim>\<open>core/domain/model/sync\<close>: the closed set of mutation kinds
  (\<^verbatim>\<open>Mutation.go\<close>), the entities and their merge rules (\<^verbatim>\<open>Entity.go\<close>), the families of fields and the
  last-writer-wins decision per field (\<^verbatim>\<open>Merge.go\<close>), and the row of the item
  (\<^verbatim>\<open>core/application/service/sync/Patch.go\<close>).  A kind is a string in Go, so that a device may name any;
  the model keeps it a string.  A Go set (\<open>map[string]bool\<close>) is the list of its members, a Go map with
  fields as keys an association list.
\<close>

section \<open>Mutation kinds\<close>

type_synonym MutationKind = string

abbreviation "ItemCreate \<equiv> ''ITEM_CREATE''"
abbreviation "ItemPatch \<equiv> ''ITEM_PATCH''"
abbreviation "ItemDelete \<equiv> ''ITEM_DELETE''"
abbreviation "SetAdd \<equiv> ''SET_ADD''"
abbreviation "SetRemove \<equiv> ''SET_REMOVE''"
abbreviation "Move \<equiv> ''MOVE''"
abbreviation "CommentAdd \<equiv> ''COMMENT_ADD''"
abbreviation "ReminderCreate \<equiv> ''REMINDER_CREATE''"
abbreviation "ReminderPatch \<equiv> ''REMINDER_PATCH''"
abbreviation "ReminderDelete \<equiv> ''REMINDER_DELETE''"
abbreviation "RecurrenceCreate \<equiv> ''RECURRENCE_CREATE''"
abbreviation "RecurrencePatch \<equiv> ''RECURRENCE_PATCH''"
abbreviation "RecurrenceDelete \<equiv> ''RECURRENCE_DELETE''"
abbreviation "TemplateApply \<equiv> ''TEMPLATE_APPLY''"
abbreviation "ContainerCreate \<equiv> ''CONTAINER_CREATE''"
abbreviation "ContainerPatch \<equiv> ''CONTAINER_PATCH''"
abbreviation "ContainerDelete \<equiv> ''CONTAINER_DELETE''"
abbreviation "LabelCreate \<equiv> ''LABEL_CREATE''"
abbreviation "LabelPatch \<equiv> ''LABEL_PATCH''"
abbreviation "LabelDelete \<equiv> ''LABEL_DELETE''"
abbreviation "BucketCreate \<equiv> ''BUCKET_CREATE''"
abbreviation "BucketPatch \<equiv> ''BUCKET_PATCH''"
abbreviation "BucketDelete \<equiv> ''BUCKET_DELETE''"
abbreviation "EntityUpsert \<equiv> ''ENTITY_UPSERT''"
abbreviation "EntityPatch \<equiv> ''ENTITY_PATCH''"
abbreviation "EntityDelete \<equiv> ''ENTITY_DELETE''"

definition MutationKinds :: "MutationKind list" where
  "MutationKinds =
     [ItemCreate, ItemPatch, ItemDelete, SetAdd, SetRemove, Move, CommentAdd,
      ReminderCreate, ReminderPatch, ReminderDelete,
      RecurrenceCreate, RecurrencePatch, RecurrenceDelete,
      TemplateApply,
      ContainerCreate, ContainerPatch, ContainerDelete,
      LabelCreate, LabelPatch, LabelDelete,
      BucketCreate, BucketPatch, BucketDelete,
      EntityUpsert, EntityPatch, EntityDelete]"

definition OnEntity :: "MutationKind \<Rightarrow> bool" where
  "OnEntity k = (k = EntityUpsert \<or> k = EntityPatch \<or> k = EntityDelete)"

definition Kind_Valid :: "MutationKind \<Rightarrow> bool" where
  "Kind_Valid k = List.member MutationKinds k"

text \<open>The four answers; \<open>Unset\<close> is the empty string of a zero result.\<close>

datatype ResultKind = Applied | Merged | Rejected | Conflict | Unset

section \<open>Entities\<close>

abbreviation "EntityEntryType \<equiv> ''entry_type''"
abbreviation "EntityLinkType \<equiv> ''link_type''"
abbreviation "EntityEntryLink \<equiv> ''entry_link''"
abbreviation "EntityWorkflow \<equiv> ''workflow''"
abbreviation "EntityCustomRole \<equiv> ''custom_role''"
abbreviation "EntityTimer \<equiv> ''time_timer''"
abbreviation "EntityTimeRecord \<equiv> ''time_record''"

datatype MergeRule = MergeVersioned | MergePresence

definition Entities :: "string list" where
  "Entities = [EntityEntryType, EntityLinkType, EntityEntryLink, EntityWorkflow, EntityCustomRole,
     EntityTimer, EntityTimeRecord]"

definition Entity_Valid :: "string \<Rightarrow> bool" where
  "Entity_Valid e = List.member Entities e"

definition Rule :: "string \<Rightarrow> MergeRule" where
  "Rule e = (if e = EntityEntryLink then MergePresence else MergeVersioned)"

definition Admits :: "MergeRule \<Rightarrow> MutationKind \<Rightarrow> bool" where
  "Admits r kind = (r \<noteq> MergePresence \<or> kind \<noteq> EntityPatch)"

section \<open>Families of fields\<close>

datatype Shape = ShapeCreation | ShapeFields | ShapeDeletion | ShapeAct

record Family =
  FamilyEntity :: string
  Writable :: "string list"
  ServerOwned :: "string list"
  Later :: "string list"

definition stamps :: "string list" where
  "stamps = [''id'', ''version'', ''created_at'', ''updated_at'', ''created_by'', ''tenant_id'', ''deleted_at'']"

definition family :: "string \<Rightarrow> string list \<Rightarrow> string list \<Rightarrow> string list \<Rightarrow> Family" where
  "family entity writable owned later =
     \<lparr>FamilyEntity = entity, Writable = writable, ServerOwned = stamps @ owned, Later = later\<rparr>"

definition reminderFamily :: Family where
  "reminderFamily = family ''reminder''
     [''offset_spec'', ''channels'', ''recipients'']
     [''item_id'', ''fire_at'', ''state''] []"

definition recurrenceFamily :: Family where
  "recurrenceFamily = family ''recurrence_rule''
     [''rrule'', ''time_zone'', ''mode'', ''horizon_days'', ''ends_at'', ''max_count'']
     [''item_id'', ''last_materialized_at''] []"

definition containerFamily :: Family where
  "containerFamily = family ''container''
     [''name'', ''description'', ''icon'', ''color_token'']
     [''type'', ''path'', ''depth'', ''structure'', ''private'', ''archived_at'']
     [''parent_id'', ''order_key'', ''completion_policy'', ''auto_assign'']"

definition labelFamily :: Family where
  "labelFamily = family ''label'' [''name'', ''color_token'', ''description''] [''collection_id''] []"

definition bucketFamily :: Family where
  "bucketFamily = family ''bucket''
     [''name'', ''color_token'', ''wip_limit'', ''is_done_bucket'']
     [''collection_id'']
     [''order_key'']"

definition FamilyOf :: "MutationKind \<Rightarrow> (Family \<times> Shape) option" where
  "FamilyOf kind =
     (if kind = ReminderCreate then Some (reminderFamily, ShapeCreation)
      else if kind = ReminderPatch then Some (reminderFamily, ShapeFields)
      else if kind = ReminderDelete then Some (reminderFamily, ShapeDeletion)
      else if kind = RecurrenceCreate then Some (recurrenceFamily, ShapeCreation)
      else if kind = RecurrencePatch then Some (recurrenceFamily, ShapeFields)
      else if kind = RecurrenceDelete then Some (recurrenceFamily, ShapeDeletion)
      else if kind = ContainerCreate then Some (containerFamily, ShapeCreation)
      else if kind = ContainerPatch then Some (containerFamily, ShapeFields)
      else if kind = ContainerDelete then Some (containerFamily, ShapeDeletion)
      else if kind = LabelCreate then Some (labelFamily, ShapeCreation)
      else if kind = LabelPatch then Some (labelFamily, ShapeFields)
      else if kind = LabelDelete then Some (labelFamily, ShapeDeletion)
      else if kind = BucketCreate then Some (bucketFamily, ShapeCreation)
      else if kind = BucketPatch then Some (bucketFamily, ShapeFields)
      else if kind = BucketDelete then Some (bucketFamily, ShapeDeletion)
      else None)"

text \<open>The three refusals the rows share.\<close>

definition fieldUnavailable :: "string \<Rightarrow> failure" where
  "fieldUnavailable field =
     Failure (WithParams (WithDetail ErrUnavailable ''sync.field_unavailable'') [(''field'', field)])"

definition fieldNotMergeable :: "string \<Rightarrow> failure" where
  "fieldNotMergeable field =
     Failure (WithFields (WithParams (WithDetail ErrValidation ''sync.field_not_mergeable'') [(''field'', field)])
       [field_error (''/fields/'' @ field) ''sync.field_not_mergeable''])"

definition fieldUnknown :: "string \<Rightarrow> failure" where
  "fieldUnknown field =
     Failure (WithFields (WithParams (WithDetail ErrValidation ''sync.field_unknown'') [(''field'', field)])
       [field_error (''/fields/'' @ field) ''sync.field_unknown''])"

definition Judge :: "Family \<Rightarrow> string \<Rightarrow> failure option" where
  "Judge f field =
     (if List.member (Writable f) field then None
      else if List.member (Later f) field then Some (fieldUnavailable field)
      else if List.member (ServerOwned f) field then Some (fieldNotMergeable field)
      else Some (fieldUnknown field))"

section \<open>Last writer wins per field\<close>

definition loses :: "(string \<Rightarrow> HLC option) \<Rightarrow> string \<times> HLC \<Rightarrow> bool" where
  "loses server = (\<lambda>(field, reading).
     case server field of None \<Rightarrow> False | Some stored \<Rightarrow> \<not> After reading stored)"

definition Decide :: "(string \<times> HLC) list \<Rightarrow> (string \<Rightarrow> HLC option)
    \<Rightarrow> (string \<times> HLC) list \<times> (string \<times> HLC) list" where
  "Decide sent server = (filter (\<lambda>f. \<not> loses server f) sent, filter (loses server) sent)"

section \<open>The row of the item\<close>

definition updateFields :: "string list" where
  "updateFields = [''title'', ''amount'', ''notes'', ''bucket_id'', ''content_language'', ''start_at'',
     ''due_at'', ''due_date_only'', ''due_time_zone'']"

definition laterFields :: "string list" where
  "laterFields = [''parent_id'']"

definition ownedFields :: "string list" where
  "ownedFields = [''id'', ''type'', ''collection_id'', ''path'', ''depth'', ''completion_count'', ''version'',
     ''updated_at'', ''created_at'', ''created_by'', ''recurrence_rule_id'', ''recurrence_source_id'',
     ''origin_jumble_id'', ''calendar_uid'', ''retention'', ''archived_at'', ''deleted_at'', ''trash_batch_id'',
     ''search_document'', ''search_configuration'']"

definition patchable :: "string \<Rightarrow> failure option" where
  "patchable field =
     (if List.member updateFields field \<or> field = ''assignee_id'' \<or> field = ''cover'' \<or> field = ''order_key''
        \<or> field = ''completion'' \<or> field = ''status'' \<or> hasPrefix field ''custom_fields.''
      then None
      else if List.member laterFields field then Some (fieldUnavailable field)
      else if List.member ownedFields field then Some (fieldNotMergeable field)
      else Some (fieldUnknown field))"

end
