(* ===== verification/Set_Merge.thy ===== *)
theory Set_Merge
  imports Clock_Laws Ids Replicas "HOL-Library.AList"
begin

text \<open>
  The sets an item carries (labels, members, attachments) as observed-remove sets, from
  \<^verbatim>\<open>core/domain/model/work/SetElement.go\<close>, the rows that keep their tags (the upserts of
  \<^verbatim>\<open>infrastructure/postgres/sqlc/Structure.sql.go\<close>) and the part of a push that merges one tag into
  them (\<^verbatim>\<open>core/application/service/sync/Set.go\<close>).  The Go map that collects the merge is an
  association list; the result is sorted by its distinct keys, so the iteration order of the map
  cannot be seen.
\<close>

section \<open>Elements and their merge\<close>

record SetElement =
  ElementID :: ID
  AddedAt :: HLC
  RemovedAt :: HLC

definition IsPresent :: "SetElement \<Rightarrow> bool" where
  "IsPresent e =
     (if HLC_IsZero (AddedAt e) then False
      else HLC_IsZero (RemovedAt e) \<or> After (AddedAt e) (RemovedAt e))"

definition laterOf :: "HLC \<Rightarrow> HLC \<Rightarrow> HLC" where
  "laterOf a b =
     (if HLC_IsZero a then b else if HLC_IsZero b then a else if After b a then b else a)"

text \<open>The body of the merge loop: one element into what is known of it.\<close>

definition joinElement :: "SetElement \<Rightarrow> SetElement \<Rightarrow> SetElement" where
  "joinElement known element =
     \<lparr>ElementID = ElementID element,
      AddedAt = laterOf (AddedAt known) (AddedAt element),
      RemovedAt = laterOf (RemovedAt known) (RemovedAt element)\<rparr>"

definition mergeInto :: "(ID \<times> SetElement) list \<Rightarrow> SetElement \<Rightarrow> (ID \<times> SetElement) list" where
  "mergeInto merged element =
     (case map_of merged (ElementID element) of
        None \<Rightarrow> AList.update (ElementID element) element merged
      | Some known \<Rightarrow> AList.update (ElementID element) (joinElement known element) merged)"

definition MergeSetElements :: "SetElement list \<Rightarrow> SetElement list \<Rightarrow> SetElement list" where
  "MergeSetElements mine theirs =
     sort_key ElementID (map snd (foldl mergeInto (foldl mergeInto [] mine) theirs))"

definition PresentElements :: "SetElement list \<Rightarrow> ID list" where
  "PresentElements elements = map ElementID (filter IsPresent elements)"

section \<open>The stored tags and a pushed change\<close>

fun presentIn :: "SetElement list \<Rightarrow> ID \<Rightarrow> bool" where
  "presentIn [] i = False"
| "presentIn (element # elements) i =
     (if ElementID element = i then IsPresent element else presentIn elements i)"

text \<open>
  The upserts: an addition writes its tag and clears the removal tag, a removal writes its tag and
  keeps the addition tag.  A missing tag (NULL) is the zero reading.  The rows are read ordered by
  element.
\<close>

definition RecordSetElementAdded :: "SetElement list \<Rightarrow> ID \<Rightarrow> HLC \<Rightarrow> SetElement list" where
  "RecordSetElementAdded rows i tag =
     (let row = \<lparr>ElementID = i, AddedAt = tag, RemovedAt = zeroHLC\<rparr> in
      if \<exists>e \<in> set rows. ElementID e = i
      then map (\<lambda>e. if ElementID e = i then row else e) rows
      else insort_key ElementID row rows)"

definition RecordSetElementRemoved :: "SetElement list \<Rightarrow> ID \<Rightarrow> HLC \<Rightarrow> SetElement list" where
  "RecordSetElementRemoved rows i tag =
     (if \<exists>e \<in> set rows. ElementID e = i
      then map (\<lambda>e. if ElementID e = i then e\<lparr>RemovedAt := tag\<rparr> else e) rows
      else insort_key ElementID \<lparr>ElementID = i, AddedAt = zeroHLC, RemovedAt = tag\<rparr> rows)"

datatype setDirection = SetAddition | SetRemoval

text \<open>What the device's change says of the element, as a replica of its own.\<close>

fun deviceElement :: "setDirection \<Rightarrow> ID \<Rightarrow> HLC \<Rightarrow> SetElement" where
  "deviceElement SetAddition i tag = \<lparr>ElementID = i, AddedAt = tag, RemovedAt = zeroHLC\<rparr>"
| "deviceElement SetRemoval i tag = \<lparr>ElementID = i, AddedAt = zeroHLC, RemovedAt = tag\<rparr>"

text \<open>
  \<^verbatim>\<open>setChange\<close> from the stored tags on: nothing is written when the merge leaves the presence of the
  element as it was; otherwise the use case that owns the set writes the row under the device's tag.
\<close>

definition pushSet :: "SetElement list \<Rightarrow> setDirection \<Rightarrow> ID \<Rightarrow> HLC \<Rightarrow> SetElement list" where
  "pushSet stored direction i tag =
     (let mine = deviceElement direction i tag;
          wasPresent = presentIn stored i;
          merged = MergeSetElements stored [mine];
          nowPresent = presentIn merged i
      in if wasPresent = nowPresent then stored
         else if nowPresent then RecordSetElementAdded stored i tag
         else RecordSetElementRemoved stored i tag)"

section \<open>The later of two readings\<close>

text \<open>A tag is the zero reading or a reading taken at a real moment.\<close>

definition tag_ok :: "HLC \<Rightarrow> bool" where
  "tag_ok h \<longleftrightarrow> h = zeroHLC \<or> \<not> HLC_IsZero h"

lemma zeroHLC_IsZero [simp]: "HLC_IsZero zeroHLC"
  by (simp add: HLC_IsZero_def zeroHLC_def)

lemma laterOf_closed: "tag_ok a \<Longrightarrow> tag_ok b \<Longrightarrow> tag_ok (laterOf a b)"
  by (simp add: laterOf_def)

lemma laterOf_commute: "tag_ok a \<Longrightarrow> tag_ok b \<Longrightarrow> laterOf a b = laterOf b a"
  by (auto simp: laterOf_def tag_ok_def After_key dest: less_asym)

lemma laterOf_assoc: "laterOf (laterOf a b) c = laterOf a (laterOf b c)"
  by (auto simp: laterOf_def After_key)

lemma laterOf_idem: "laterOf a a = a"
  by (simp add: laterOf_def)

definition element_ok :: "SetElement \<Rightarrow> bool" where
  "element_ok e \<longleftrightarrow> tag_ok (AddedAt e) \<and> tag_ok (RemovedAt e)"

lemma ElementID_join [simp]: "ElementID (joinElement a b) = ElementID b"
  by (simp add: joinElement_def)

lemma joinElement_closed: "element_ok a \<Longrightarrow> element_ok b \<Longrightarrow> element_ok (joinElement a b)"
  by (simp add: element_ok_def joinElement_def laterOf_closed)

lemma joinElement_commute:
  "element_ok a \<Longrightarrow> element_ok b \<Longrightarrow> ElementID a = ElementID b \<Longrightarrow> joinElement a b = joinElement b a"
  by (simp add: element_ok_def joinElement_def laterOf_commute)

lemma joinElement_assoc: "joinElement (joinElement a b) c = joinElement a (joinElement b c)"
  by (simp add: joinElement_def laterOf_assoc)

lemma joinElement_idem: "joinElement a a = a"
  by (simp add: joinElement_def laterOf_idem)

section \<open>The merge as a join of lookups\<close>

definition tags_of :: "SetElement list \<Rightarrow> ID \<Rightarrow> SetElement option" where
  "tags_of xs = map_of (map (\<lambda>e. (ElementID e, e)) xs)"

text \<open>A replica as the merge and the table leave it: one element per identifier, in order.\<close>

definition replica_ok :: "SetElement list \<Rightarrow> bool" where
  "replica_ok xs \<longleftrightarrow> sorted_wrt (<) (map ElementID xs) \<and> list_all element_ok xs"

definition joinTags :: "SetElement option \<Rightarrow> SetElement option \<Rightarrow> SetElement option" where
  "joinTags x y =
     (case (x, y) of (None, _) \<Rightarrow> y | (_, None) \<Rightarrow> x | (Some a, Some b) \<Rightarrow> Some (joinElement a b))"

lemma joinTags_simps [simp]:
  "joinTags None y = y" "joinTags x None = x"
  "joinTags (Some a) (Some b) = Some (joinElement a b)"
  by (simp_all add: joinTags_def split: option.split)

lemma joinTags_assoc: "joinTags (joinTags x y) z = joinTags x (joinTags y z)"
  by (cases x; cases y; cases z) (simp_all add: joinElement_assoc)

lemma joinTags_idem: "joinTags x x = x"
  by (cases x) (simp_all add: joinElement_idem)

lemma tags_of_simps [simp]:
  "tags_of [] i = None"
  "tags_of (e # xs) i = (if ElementID e = i then Some e else tags_of xs i)"
  by (simp_all add: tags_of_def)

lemma tags_of_SomeD: "tags_of xs i = Some e \<Longrightarrow> e \<in> set xs \<and> ElementID e = i"
  by (induction xs) (auto split: if_splits)

lemma tags_of_None: "tags_of xs i = None \<longleftrightarrow> i \<notin> ElementID ` set xs"
  by (induction xs) auto

lemma tags_of_mem: "distinct (map ElementID xs) \<Longrightarrow> e \<in> set xs \<Longrightarrow> tags_of xs (ElementID e) = Some e"
  by (induction xs) (auto simp: rev_image_eqI)

lemma presentIn_tags: "presentIn xs i \<longleftrightarrow> (case tags_of xs i of None \<Rightarrow> False | Some e \<Rightarrow> IsPresent e)"
  by (induction xs) simp_all

text \<open>A replica is determined by what it knows of each identifier.\<close>

lemma replica_eqI:
  assumes "replica_ok xs" "replica_ok ys" "\<And>i. tags_of xs i = tags_of ys i"
  shows "xs = ys"
proof -
  have dist: "distinct (map ElementID xs)" "distinct (map ElementID ys)"
    using assms(1,2) by (simp_all add: replica_ok_def strict_sorted_iff)
  then have mem: "e \<in> set zs \<longleftrightarrow> tags_of zs (ElementID e) = Some e"
    if "zs = xs \<or> zs = ys" for zs e
    using that tags_of_mem tags_of_SomeD by blast
  then have set_eq: "set xs = set ys" using assms(3) by fastforce
  have ids: "map ElementID xs = map ElementID ys"
    using assms(1,2) set_eq by (intro strict_sorted_unique) (simp_all add: replica_ok_def)
  have "xs = map (\<lambda>i. the (tags_of xs i)) (map ElementID xs)"
    using dist(1) by (simp add: map_idI tags_of_mem)
  also have "\<dots> = map (\<lambda>i. the (tags_of ys i)) (map ElementID ys)" by (simp only: ids assms(3))
  also have "\<dots> = ys" using dist(2) by (simp add: map_idI tags_of_mem)
  finally show ?thesis .
qed

definition collected :: "(ID \<times> SetElement) list \<Rightarrow> bool" where
  "collected m \<longleftrightarrow> distinct (map fst m) \<and> list_all (\<lambda>(i, e). ElementID e = i \<and> element_ok e) m"

lemma map_of_mergeInto:
  "map_of (mergeInto m e) i = (if ElementID e = i then joinTags (map_of m i) (Some e) else map_of m i)"
  by (auto simp: mergeInto_def update_conv' split: option.split)

lemma collected_lookup: "collected m \<Longrightarrow> map_of m i = Some e \<Longrightarrow> ElementID e = i \<and> element_ok e"
  by (auto simp: collected_def list_all_iff dest: map_of_SomeD)

lemma collected_update:
  assumes "collected m" "ElementID e = i" "element_ok e"
  shows "collected (AList.update i e m)"
proof -
  have "distinct (map fst (AList.update i e m))"
    using assms(1) by (simp add: collected_def distinct_update)
  moreover have "(j, f) \<in> set (AList.update i e m) \<Longrightarrow> (j, f) = (i, e) \<or> (j, f) \<in> set m" for j f
    using assms(1) calculation
    by (metis (no_types, lifting) collected_def fun_upd_apply map_of_SomeD map_of_is_SomeI update_conv option.inject)
  ultimately show ?thesis using assms by (fastforce simp: collected_def list_all_iff)
qed

lemma collected_mergeInto:
  assumes "collected m" "element_ok e"
  shows "collected (mergeInto m e)"
  using assms collected_lookup [OF assms(1)]
  by (auto simp: mergeInto_def intro!: collected_update joinElement_closed split: option.split)

lemma collected_foldl: "collected m \<Longrightarrow> list_all element_ok xs \<Longrightarrow> collected (foldl mergeInto m xs)"
  by (induction xs arbitrary: m) (simp_all add: collected_mergeInto)

lemma collected_Nil [simp]: "collected []"
  by (simp add: collected_def)

lemma map_of_foldl_mergeInto:
  "distinct (map ElementID xs) \<Longrightarrow>
   map_of (foldl mergeInto m xs) i = joinTags (map_of m i) (tags_of xs i)"
  by (induction xs arbitrary: m) (auto simp: map_of_mergeInto tags_of_None [THEN iffD2])

text \<open>Sorting the values of a collected map by their distinct keys keeps every lookup.\<close>

lemma collected_distinct:
  assumes "collected m"
  shows "distinct (map ElementID (sort_key ElementID (map snd m)))"
proof -
  have "map ElementID (map snd m) = map fst m"
    using assms by (auto simp: collected_def list_all_iff)
  then have "distinct (map ElementID (map snd m))" using assms by (simp only: collected_def)
  then show ?thesis by (simp only: distinct_map distinct_sort set_sort)
qed

lemma tags_of_sorted:
  assumes "collected m"
  shows "tags_of (sort_key ElementID (map snd m)) i = map_of m i" (is "?l = ?r")
proof -
  have "?l = Some e \<longleftrightarrow> ElementID e = i \<and> e \<in> set (map snd m)" for e
    using tags_of_mem [OF collected_distinct [OF assms], of e] tags_of_SomeD [of "sort_key ElementID (map snd m)" i e] by auto
  also have "ElementID e = i \<and> e \<in> set (map snd m) \<longleftrightarrow> (i, e) \<in> set m" for e
    using assms by (force simp: collected_def list_all_iff)
  also have "(i, e) \<in> set m \<longleftrightarrow> ?r = Some e" for e
    using assms by (simp add: collected_def map_of_eq_Some_iff)
  finally show ?thesis by (metis option.exhaust)
qed

lemma Merge_replica_ok:
  assumes "list_all element_ok a" "list_all element_ok b"
  shows "replica_ok (MergeSetElements a b)"
proof -
  define m where "m = foldl mergeInto (foldl mergeInto [] a) b"
  have m: "collected m" unfolding m_def by (intro collected_foldl) (simp_all add: assms)
  with collected_distinct [OF m] show ?thesis
    by (auto simp: replica_ok_def MergeSetElements_def m_def [symmetric] strict_sorted_iff
        collected_def list_all_iff)
qed

lemma tags_of_Merge:
  assumes "replica_ok a" "replica_ok b"
  shows "tags_of (MergeSetElements a b) i = joinTags (tags_of a i) (tags_of b i)"
proof -
  have "collected (foldl mergeInto (foldl mergeInto [] a) b)"
    using assms by (intro collected_foldl) (simp_all add: replica_ok_def)
  moreover have "distinct (map ElementID a)" "distinct (map ElementID b)"
    using assms by (simp_all add: replica_ok_def strict_sorted_iff)
  ultimately show ?thesis
    by (simp add: MergeSetElements_def tags_of_sorted map_of_foldl_mergeInto)
qed

lemma joinTags_commute:
  assumes "replica_ok a" "replica_ok b"
  shows "joinTags (tags_of a i) (tags_of b i) = joinTags (tags_of b i) (tags_of a i)"
proof (cases "tags_of a i"; cases "tags_of b i")
  fix e f assume some: "tags_of a i = Some e" "tags_of b i = Some f"
  then have "element_ok e" "element_ok f" "ElementID e = ElementID f"
    using assms by (auto simp: replica_ok_def list_all_iff dest!: tags_of_SomeD)
  then show ?thesis using some by (simp add: joinElement_commute)
qed simp_all

lemma replica_elements: "replica_ok a \<Longrightarrow> list_all element_ok a"
  by (simp add: replica_ok_def)

interpretation set_replica: state_merge replica_ok MergeSetElements
proof
  fix a b c assume ok: "replica_ok a" "replica_ok b" "replica_ok c"
  show closed: "replica_ok (MergeSetElements a b)"
    by (intro Merge_replica_ok replica_elements ok)
  show "MergeSetElements a b = MergeSetElements b a"
    by (intro replica_eqI Merge_replica_ok replica_elements ok)
      (simp add: tags_of_Merge ok joinTags_commute)
  show "MergeSetElements (MergeSetElements a b) c = MergeSetElements a (MergeSetElements b c)"
    by (intro replica_eqI Merge_replica_ok replica_elements ok)
      (simp add: tags_of_Merge ok Merge_replica_ok replica_elements joinTags_assoc)
  show "MergeSetElements a a = a"
    by (intro replica_eqI Merge_replica_ok replica_elements ok)
      (simp add: tags_of_Merge ok joinTags_idem)
qed

section \<open>The rows after a push\<close>

lemma deviceElement_simps [simp]:
  "ElementID (deviceElement d i tag) = i"
  "element_ok (deviceElement d i tag) \<longleftrightarrow> tag_ok tag"
  by (cases d; simp add: element_ok_def tag_ok_def)+

lemma replica_single [simp]: "replica_ok [e] \<longleftrightarrow> element_ok e"
  by (simp add: replica_ok_def)

lemma tags_of_map:
  "(\<And>e. e \<in> set rows \<Longrightarrow> ElementID (f e) = ElementID e) \<Longrightarrow>
   tags_of (map f rows) i = map_option f (tags_of rows i)"
  by (induction rows) auto

lemma tags_of_insort:
  "ElementID row \<notin> ElementID ` set rows \<Longrightarrow>
   tags_of (insort_key ElementID row rows) i = (if ElementID row = i then Some row else tags_of rows i)"
  by (induction rows) auto

lemma replica_ok_map:
  assumes "replica_ok rows" "\<And>e. e \<in> set rows \<Longrightarrow> ElementID (f e) = ElementID e"
    "\<And>e. e \<in> set rows \<Longrightarrow> element_ok (f e)"
  shows "replica_ok (map f rows)"
proof -
  have "map ElementID (map f rows) = map ElementID rows" using assms(2) by simp
  then show ?thesis using assms by (simp add: replica_ok_def list_all_iff del: map_map)
qed

lemma replica_ok_insort:
  assumes "replica_ok rows" "element_ok row" "ElementID row \<notin> ElementID ` set rows"
  shows "replica_ok (insort_key ElementID row rows)"
proof -
  have "sorted (map ElementID rows)" "distinct (map ElementID rows)"
    using assms(1) by (simp_all add: replica_ok_def strict_sorted_iff)
  then have "sorted (map ElementID (insort_key ElementID row rows))"
    "distinct (map ElementID (insort_key ElementID row rows))"
    using assms(3) by (auto simp: sorted_insort_key distinct_map distinct_insort set_insort_key)
  then show ?thesis
    using assms by (auto simp: replica_ok_def strict_sorted_iff list_all_iff set_insort_key)
qed

lemma RecordSetElementAdded_tags:
  "tags_of (RecordSetElementAdded rows i tag) j =
     (if j = i then Some \<lparr>ElementID = i, AddedAt = tag, RemovedAt = zeroHLC\<rparr> else tags_of rows j)"
proof (cases "\<exists>e \<in> set rows. ElementID e = i")
  case True
  then obtain e where "tags_of rows i = Some e" by (metis image_eqI option.exhaust tags_of_None)
  moreover have "tags_of rows j = Some e' \<Longrightarrow> ElementID e' = j" for e' using tags_of_SomeD by blast
  ultimately show ?thesis
    using True by (cases "tags_of rows j") (auto simp: RecordSetElementAdded_def tags_of_map)
next
  case False
  then have "i \<notin> ElementID ` set rows" by auto
  with False show ?thesis by (subst RecordSetElementAdded_def) (simp add: tags_of_insort)
qed

lemma RecordSetElementRemoved_tags:
  "tags_of (RecordSetElementRemoved rows i tag) j =
     (if j = i then Some (case tags_of rows i of
          None \<Rightarrow> \<lparr>ElementID = i, AddedAt = zeroHLC, RemovedAt = tag\<rparr>
        | Some e \<Rightarrow> e\<lparr>RemovedAt := tag\<rparr>)
      else tags_of rows j)"
proof (cases "\<exists>e \<in> set rows. ElementID e = i")
  case True
  then obtain e where "tags_of rows i = Some e" by (metis image_eqI option.exhaust tags_of_None)
  moreover have "tags_of rows j = Some e' \<Longrightarrow> ElementID e' = j" for e' using tags_of_SomeD by blast
  ultimately show ?thesis
    using True by (cases "tags_of rows j") (auto simp: RecordSetElementRemoved_def tags_of_map)
next
  case False
  then have "i \<notin> ElementID ` set rows" by auto
  moreover from this have "tags_of rows i = None" by (simp add: tags_of_None)
  ultimately show ?thesis using False by (subst RecordSetElementRemoved_def) (simp add: tags_of_insort)
qed

lemma Record_replica_ok:
  assumes "replica_ok rows" "tag_ok tag"
  shows "replica_ok (RecordSetElementAdded rows i tag)" "replica_ok (RecordSetElementRemoved rows i tag)"
  using assms replica_elements [OF assms(1)]
  by (auto simp: RecordSetElementAdded_def RecordSetElementRemoved_def Let_def list_all_iff element_ok_def tag_ok_def
      intro!: replica_ok_map replica_ok_insort)

text \<open>A push in terms of what the rows know of the element.\<close>

lemma pushSet_tags:
  assumes "replica_ok rows" "tag_ok tag" "tags_of rows i = before"
    "joinTags before (Some (deviceElement d i tag)) = Some after"
  shows "pushSet rows d i tag =
    (if (case before of None \<Rightarrow> False | Some e \<Rightarrow> IsPresent e) = IsPresent after then rows
     else if IsPresent after then RecordSetElementAdded rows i tag else RecordSetElementRemoved rows i tag)"
  using assms by (simp add: pushSet_def presentIn_tags tags_of_Merge)

section \<open>Properties\<close>



text \<open>
  C13. A pushed set change leaves the item carrying exactly the elements the merge of the stored tags
  with the device's tag says it carries, and the rows stay a well-formed replica.
\<close>

theorem pushSet_presence:
  assumes "replica_ok stored" "\<not> HLC_IsZero tag"
  shows "presentIn (pushSet stored d i tag) j
      = presentIn (MergeSetElements stored [deviceElement d i tag]) j
    \<and> replica_ok (pushSet stored d i tag)"
proof -
  have tag: "tag_ok tag" using assms(2) by (simp add: tag_ok_def)
  have tags: "tags_of (MergeSetElements stored [deviceElement d i tag]) k
      = joinTags (tags_of stored k) (if k = i then Some (deviceElement d i tag) else None)" for k
    using assms(1) tag by (simp add: tags_of_Merge)
  consider (same) "presentIn stored i = presentIn (MergeSetElements stored [deviceElement d i tag]) i"
    | (appears) "\<not> presentIn stored i" "presentIn (MergeSetElements stored [deviceElement d i tag]) i"
    | (leaves) "presentIn stored i" "\<not> presentIn (MergeSetElements stored [deviceElement d i tag]) i"
    by blast
  then show ?thesis
  proof cases
    case same
    then show ?thesis using assms(1) by (cases "j = i") (simp_all add: pushSet_def presentIn_tags tags)
  next
    case appears
    then have "pushSet stored d i tag = RecordSetElementAdded stored i tag" by (simp add: pushSet_def)
    with appears assms tag show ?thesis
      by (cases "j = i") (simp_all add: presentIn_tags tags RecordSetElementAdded_tags IsPresent_def Record_replica_ok)
  next
    case leaves
    then obtain e where e: "tags_of stored i = Some e" "IsPresent e"
      by (auto simp: presentIn_tags split: option.splits)
    have gone: "\<not> IsPresent (joinElement e (deviceElement d i tag))"
      using leaves(2) e by (simp add: presentIn_tags tags)
    have "\<not> IsPresent (e\<lparr>RemovedAt := tag\<rparr>)"
      using gone e(2) assms(2)
      by (cases d) (auto simp: IsPresent_def joinElement_def laterOf_def After_key split: if_splits)
    moreover have "pushSet stored d i tag = RecordSetElementRemoved stored i tag"
      using leaves by (simp add: pushSet_def)
    ultimately show ?thesis
      using leaves e assms(1) tag
      by (cases "j = i") (simp_all add: presentIn_tags tags RecordSetElementRemoved_tags Record_replica_ok)
  qed
qed

theorem pushSet_presence_witness:
  "presentIn (pushSet [] SetAddition ''x'' \<lparr>Physical = 2, Counter = 0, Device = ''a''\<rparr>) ''x''
      = presentIn (MergeSetElements [] [deviceElement SetAddition ''x'' \<lparr>Physical = 2, Counter = 0, Device = ''a''\<rparr>]) ''x''
   \<and> replica_ok (pushSet [] SetAddition ''x'' \<lparr>Physical = 2, Counter = 0, Device = ''a''\<rparr>)"
  by (rule pushSet_presence) (simp_all add: replica_ok_def HLC_IsZero_def zeroTime_def)

text \<open>
  C14. The stored tags do not converge the way the merge does.  An element carried since the reading
  \<open>a\<close>, removed on one device at \<open>r\<close> and added again on another at the later \<open>b\<close>: when the addition
  arrives first its tag is dropped, because the element is present already, and the removal then takes
  the element away; in the other order, and by the merge in either order, the element stays.
\<close>

theorem pushSet_order_dependent:
  assumes "\<not> HLC_IsZero a" "\<not> HLC_IsZero r" "\<not> HLC_IsZero b" "After r a" "After b r"
    and rows_def: "rows = [\<lparr>ElementID = i, AddedAt = a, RemovedAt = zeroHLC\<rparr>]"
  shows "\<not> presentIn (pushSet (pushSet rows SetAddition i b) SetRemoval i r) i
    \<and> presentIn (pushSet (pushSet rows SetRemoval i r) SetAddition i b) i
    \<and> presentIn (MergeSetElements (MergeSetElements rows [deviceElement SetAddition i b])
         [deviceElement SetRemoval i r]) i"
proof -
  let ?e = "\<lparr>ElementID = i, AddedAt = a, RemovedAt = zeroHLC\<rparr>"
  have ok: "replica_ok rows" "tag_ok b" "tag_ok r" and row: "tags_of rows i = Some ?e"
    using assms(1-3) by (simp_all add: rows_def element_ok_def tag_ok_def)
  have "After b a" "\<not> After a r" "\<not> After a b" "\<not> After r b" using assms(4,5) by (auto simp: After_key)
  note eval = joinElement_def laterOf_def IsPresent_def assms(1-5) this
  let ?removed = "RecordSetElementRemoved rows i r"
  have removed: "tags_of ?removed i = Some (?e\<lparr>RemovedAt := r\<rparr>)" "replica_ok ?removed"
    using ok row by (simp_all add: RecordSetElementRemoved_tags Record_replica_ok)
  have "pushSet rows SetAddition i b = rows"
    using pushSet_tags [OF ok(1,2) row, of SetAddition] by (simp add: eval)
  moreover have "pushSet rows SetRemoval i r = ?removed"
    using pushSet_tags [OF ok(1,3) row, of SetRemoval] by (simp add: eval)
  moreover have "pushSet ?removed SetAddition i b = RecordSetElementAdded ?removed i b"
    using pushSet_tags [OF removed(2) ok(2) removed(1), of SetAddition] by (simp add: eval)
  moreover have "\<not> presentIn ?removed i" "presentIn (RecordSetElementAdded ?removed i b) i"
    using removed(1) by (simp_all add: presentIn_tags RecordSetElementAdded_tags eval)
  moreover have "presentIn (MergeSetElements (MergeSetElements rows [deviceElement SetAddition i b])
      [deviceElement SetRemoval i r]) i"
  proof -
    have "tags_of (MergeSetElements (MergeSetElements rows [deviceElement SetAddition i b])
        [deviceElement SetRemoval i r]) i = joinTags (joinTags (Some ?e)
        (Some (deviceElement SetAddition i b))) (Some (deviceElement SetRemoval i r))"
      using ok row by (simp add: tags_of_Merge set_replica.closed del: deviceElement.simps)
    then show ?thesis by (simp add: presentIn_tags eval)
  qed
  ultimately show ?thesis by simp
qed

theorem pushSet_order_dependent_witness:
  "\<not> presentIn (pushSet (pushSet [\<lparr>ElementID = ''x'', AddedAt = \<lparr>Physical = 1, Counter = 0, Device = ''s''\<rparr>, RemovedAt = zeroHLC\<rparr>]
        SetAddition ''x'' \<lparr>Physical = 3, Counter = 0, Device = ''a''\<rparr>)
        SetRemoval ''x'' \<lparr>Physical = 2, Counter = 0, Device = ''b''\<rparr>) ''x''
    \<and> presentIn (pushSet (pushSet [\<lparr>ElementID = ''x'', AddedAt = \<lparr>Physical = 1, Counter = 0, Device = ''s''\<rparr>, RemovedAt = zeroHLC\<rparr>]
        SetRemoval ''x'' \<lparr>Physical = 2, Counter = 0, Device = ''b''\<rparr>)
        SetAddition ''x'' \<lparr>Physical = 3, Counter = 0, Device = ''a''\<rparr>) ''x''"
  using pushSet_order_dependent [of "\<lparr>Physical = 1, Counter = 0, Device = ''s''\<rparr>"
      "\<lparr>Physical = 2, Counter = 0, Device = ''b''\<rparr>" "\<lparr>Physical = 3, Counter = 0, Device = ''a''\<rparr>" _ "''x''"]
  by (simp add: HLC_IsZero_def zeroTime_def After_key hlc_key_def)

end
