(* ===== verification/Json.thy ===== *)
theory Json
  imports Clock
begin

text \<open>
  Values of Go's type \<open>any\<close> as the transport and the stored documents hold them: what a JSON document
  decodes to, and an instant.  A Go map is an association list; a missing key reads as nil.
\<close>

datatype json = JNull | JBool bool | JInt int | JStr string | JTime time
  | JArr "json list" | JObj "(string \<times> json) list"

type_synonym object = "(string \<times> json) list"

definition jget :: "object \<Rightarrow> string \<Rightarrow> json" where
  "jget object k = (case map_of object k of None \<Rightarrow> JNull | Some v \<Rightarrow> v)"

lemma jget_simps [simp]:
  "jget [] k = JNull"
  "jget ((k', v) # o') k = (if k' = k then v else jget o' k)"
  by (simp_all add: jget_def)

lemma jget_append: "jget (a @ b) k = (if map_of a k = None then jget b k else jget a k)"
  by (auto simp: jget_def map_add_def split: option.split)

text \<open>
  The operator \<open>==\<close> on two values of type \<open>any\<close>: two maps or two slices cannot be compared, which
  is a run-time panic; values of different types differ.
\<close>

fun goEqual :: "json \<Rightarrow> json \<Rightarrow> bool result" where
  "goEqual (JObj _) (JObj _) = Inl Panic"
| "goEqual (JArr _) (JArr _) = Inl Panic"
| "goEqual a b = Inr (a = b)"

lemma goEqual_scalar: "goEqual a b = Inr True \<Longrightarrow> a = b"
  by (cases "(a, b)" rule: goEqual.cases) auto

end
