(* ===== verification/Push.thy ===== *)
theory Push
  imports Sync_Kinds Set_Merge Json
begin

text \<open>
  The push of a device's queue, from \<^verbatim>\<open>core/application/service/sync\<close>: \<^verbatim>\<open>PushChanges.go\<close> (the loop, the
  operation log, the bounding of readings, what is recorded), \<^verbatim>\<open>Patch.go\<close> (fields of an item),
  \<^verbatim>\<open>Move.go\<close>, \<^verbatim>\<open>Set.go\<close>, \<^verbatim>\<open>Entity.go\<close> and \<^verbatim>\<open>Entities.go\<close> (every other kind).

  The push applies a mutation through the ports it is constructed with: the use case catalogue, the
  stored readings and tags, the tombstones.  They are the fields of \<open>ports\<close>, functions on a stored
  world of any type \<open>'w\<close>; a call that fails leaves the world it was given.  The operation log is a table
  of its own (\<^verbatim>\<open>infrastructure/postgres/SyncOpLog.go\<close> and its queries), and whether the database
  answers is part of the ports too.  A unit of work either returns a new state or fails and keeps the
  old one.  A value of the transport (Go's \<open>any\<close>) is a \<open>json\<close>; a Go map is an association list, in
  the order in which it happens to be ranged over.
\<close>

section \<open>Values read from the transport\<close>

fun stringOf :: "json \<Rightarrow> string" where
  "stringOf (JStr text) = text"
| "stringOf _ = ''''"

fun completionWanted :: "json \<Rightarrow> bool" where
  "completionWanted (JBool v) = v"
| "completionWanted (JObj v) = (case jget v ''is_completed'' of JBool done \<Rightarrow> done | _ \<Rightarrow> False)"
| "completionWanted _ = False"

definition idOrNilOf :: "ID \<Rightarrow> json" where
  "idOrNilOf i = (if IsZero i then JNull else JStr i)"

definition versionOf :: "object \<Rightarrow> int" where
  "versionOf out = (case jget out ''version'' of JInt v \<Rightarrow> v | _ \<Rightarrow> -1)"

section \<open>Mutations and results\<close>

record FieldChange =
  ChangeValue :: json
  ChangeHLC :: string

record Mutation =
  OpID :: ID
  Kind :: MutationKind
  ItemID :: ID
  BaseVersion :: "int option"
  MFields :: "(string \<times> FieldChange) list"
  MSet :: string
  Element :: ID
  MHLC :: string
  Payload :: object
  Entity :: string
  EntityKey :: string
  EntityID :: ID
  ContainerID :: ID

record ConflictDetail =
  ConflictField :: string
  Mine :: json
  Theirs :: json
  PreservedCommentID :: ID

record ResultError =
  ErrorCode :: string
  MessageCode :: string
  ErrorParams :: params
  ErrorFields :: "FieldError list"

record Result =
  ResOpID :: ID
  Outcome :: ResultKind
  ResEntityID :: ID
  ServerState :: "object option"
  ResConflict :: "ConflictDetail option"
  ResError :: "ResultError option"

definition result :: "Mutation \<Rightarrow> ResultKind \<Rightarrow> ID \<Rightarrow> object option \<Rightarrow> Result" where
  "result m kind entity state =
     \<lparr>ResOpID = OpID m, Outcome = kind, ResEntityID = entity, ServerState = state, ResConflict = None, ResError = None\<rparr>"

record OpRecord =
  RecOpID :: ID
  RecDeviceID :: ID
  RecResult :: ResultKind
  RecEntityID :: ID
  Response :: object
  AppliedAt :: time

section \<open>Ports and state\<close>

text \<open>What the context of a call carries: the device, the push and the readings of its fields.\<close>

record callContext =
  CtxDevice :: ID
  CtxPush :: ID
  CtxOccurredAt :: time
  CtxReadings :: "(string \<times> HLC) list"

record 'w ports =
  Invoke :: "callContext \<Rightarrow> string \<Rightarrow> object \<Rightarrow> 'w \<Rightarrow> (object \<times> 'w) result"
  Clocks :: "(string \<Rightarrow> ID \<Rightarrow> 'w \<Rightarrow> (string \<Rightarrow> HLC option) result) option"
  Tombstones :: "(string \<Rightarrow> ID \<Rightarrow> 'w \<Rightarrow> bool result) option"
  Labels :: "(ID \<Rightarrow> 'w \<Rightarrow> SetElement list result) option"
  Members :: "(ID \<Rightarrow> 'w \<Rightarrow> SetElement list result) option"
  Attachments :: "(ID \<Rightarrow> 'w \<Rightarrow> SetElement list result) option"
  RecordStep :: "(ID \<Rightarrow> ID \<Rightarrow> string \<Rightarrow> object \<Rightarrow> time \<Rightarrow> 'w \<Rightarrow> 'w result) option"
  FileDisplaced :: "(ID \<Rightarrow> string \<Rightarrow> params \<Rightarrow> 'w \<Rightarrow> (ID \<times> 'w) result) option"
  Touch :: "(ID \<Rightarrow> string \<Rightarrow> string \<Rightarrow> 'w \<Rightarrow> 'w result) option"
  Latest :: "'w \<Rightarrow> (int \<times> time) result"
  FindFails :: "ID \<Rightarrow> failure option"
  RecordFails :: "ID \<Rightarrow> failure option"
  Now :: time
  Skew :: int
  RFC3339 :: "time \<Rightarrow> string"
  AccountID :: ID
  PushScope :: "failure option"

record 'w server =
  World :: 'w
  OpLog :: "OpRecord list"

text \<open>A step runs inside one unit of work: it fails, or gives a value and the new world.\<close>

type_synonym ('w, 'a) step = "'w \<Rightarrow> ('a \<times> 'w) result"

definition sbind :: "('w, 'a) step \<Rightarrow> ('a \<Rightarrow> ('w, 'b) step) \<Rightarrow> ('w, 'b) step" where
  "sbind m f w = rbind (m w) (\<lambda>(a, w'). f a w')"

definition sreturn :: "'a \<Rightarrow> ('w, 'a) step" where
  "sreturn a w = Inr (a, w)"

definition sfail :: "failure \<Rightarrow> ('w, 'a) step" where
  "sfail e w = Inl e"

definition sguard :: "failure option \<Rightarrow> ('w, 'a) step \<Rightarrow> ('w, 'a) step" where
  "sguard c m w = guarded c (m w)"

definition sread :: "('w \<Rightarrow> 'a result) \<Rightarrow> ('w, 'a) step" where
  "sread f w = rbind (f w) (\<lambda>a. Inr (a, w))"

definition swrite :: "('w \<Rightarrow> 'w result) \<Rightarrow> ('w, unit) step" where
  "swrite f w = rbind (f w) (\<lambda>w'. Inr ((), w'))"

section \<open>Refusals\<close>

definition required :: "string \<Rightarrow> string \<Rightarrow> failure" where
  "required code path = Failure (WithFields (WithDetail ErrValidation code) [field_error path code])"

definition itemRequired :: failure where
  "itemRequired = Failure (WithDetail ErrValidation ''sync.item_required'')"

definition setUnknown :: "string \<Rightarrow> failure" where
  "setUnknown s = Failure (WithFields (WithParams (WithDetail ErrValidation ''sync.set_unknown'') [(''set'', s)])
     [field_error ''/set'' ''sync.set_unknown''])"

text \<open>A panic is not an error value; it never reaches this question.\<close>

definition refusal :: "failure \<Rightarrow> bool" where
  "refusal err = (case category_of err of
       None \<Rightarrow> False
     | Some c \<Rightarrow> c \<in> {CategoryValidation, CategoryNotFound, CategoryConflict, CategoryForbidden, CategoryGone})"

text \<open>\<^verbatim>\<open>shared.AsError\<close> of an error the domain built is that error.\<close>

definition AsError :: "failure \<Rightarrow> DomainError" where
  "AsError err = (case err of Failure e \<Rightarrow> e | Panic \<Rightarrow> ErrInternal)"

definition rejected :: "Mutation \<Rightarrow> failure \<Rightarrow> Result" where
  "rejected m err =
     (let failure = AsError err;
          code = (if DetailCode failure = '''' then Code failure else DetailCode failure);
          entityID = (if \<not> IsZero (EntityID m) then EntityID m else ItemID m)
      in \<lparr>ResOpID = OpID m, Outcome = Rejected, ResEntityID = entityID, ServerState = None, ResConflict = None,
          ResError = Some \<lparr>ErrorCode = Code failure, MessageCode = code, ErrorParams = Params failure,
            ErrorFields = Fields failure\<rparr>\<rparr>)"

section \<open>Answers in the operation log\<close>

definition withoutHidden :: "object \<Rightarrow> object" where
  "withoutHidden state =
     (if map_of state ''hidden'' = None then state else filter (\<lambda>(key, _). key \<noteq> ''hidden'') state)"

definition paramsOutput :: "params \<Rightarrow> object" where
  "paramsOutput ps = map (\<lambda>(key, v). (key, JStr v)) ps"

fun paramsOf :: "json \<Rightarrow> params" where
  "paramsOf (JObj values) =
     List.map_filter (\<lambda>(key, v). case v of JStr text \<Rightarrow> Some (key, text) | _ \<Rightarrow> None) values"
| "paramsOf _ = []"

fun outcomeName :: "ResultKind \<Rightarrow> string" where
  "outcomeName Applied = ''APPLIED''"
| "outcomeName Merged = ''MERGED''"
| "outcomeName Rejected = ''REJECTED''"
| "outcomeName Conflict = ''CONFLICT''"
| "outcomeName Unset = ''''"

definition fieldEntry :: "FieldError \<Rightarrow> json" where
  "fieldEntry field = JObj ([(''path'', JStr (Path field)), (''code'', JStr (FieldCode field))]
     @ (if FieldParams field \<noteq> [] then [(''params'', JObj (paramsOutput (FieldParams field)))] else []))"

definition conflictOutput :: "ConflictDetail \<Rightarrow> json" where
  "conflictOutput c = JObj [(''field'', JStr (ConflictField c)), (''mine'', Mine c), (''theirs'', Theirs c),
     (''preserved_comment_id'', idOrNilOf (PreservedCommentID c))]"

definition errorOutput :: "ResultError \<Rightarrow> json" where
  "errorOutput e = JObj ([(''code'', JStr (ErrorCode e)), (''message_code'', JStr (MessageCode e))]
     @ (if ErrorParams e \<noteq> [] then [(''params'', JObj (paramsOutput (ErrorParams e)))] else [])
     @ (if ErrorFields e \<noteq> [] then [(''field_errors'', JArr (map fieldEntry (ErrorFields e)))] else []))"

definition resultOutput :: "Result \<Rightarrow> object" where
  "resultOutput r =
     [(''op_id'', JStr (ResOpID r)),
      (''result'', JStr (outcomeName (Outcome r))),
      (''entity_id'', idOrNilOf (ResEntityID r)),
      (''server_state'', case ServerState r of None \<Rightarrow> JNull | Some state \<Rightarrow> JObj (withoutHidden state)),
      (''conflict'', case ResConflict r of None \<Rightarrow> JNull | Some c \<Rightarrow> conflictOutput c),
      (''error'', case ResError r of None \<Rightarrow> JNull | Some e \<Rightarrow> errorOutput e)]"

definition recordOf :: "ID \<Rightarrow> Result \<Rightarrow> time \<Rightarrow> OpRecord" where
  "recordOf deviceID r at =
     \<lparr>RecOpID = ResOpID r, RecDeviceID = deviceID, RecResult = Outcome r, RecEntityID = ResEntityID r,
      Response = resultOutput r, AppliedAt = at\<rparr>"

definition conflictFrom :: "object \<Rightarrow> ConflictDetail" where
  "conflictFrom c =
     \<lparr>ConflictField = stringOf (jget c ''field''), Mine = jget c ''mine'', Theirs = jget c ''theirs'',
      PreservedCommentID = stringOf (jget c ''preserved_comment_id'')\<rparr>"

fun fieldFrom :: "json \<Rightarrow> FieldError option" where
  "fieldFrom (JObj field) = Some \<lparr>Path = stringOf (jget field ''path''),
     FieldCode = stringOf (jget field ''code''), FieldParams = paramsOf (jget field ''params'')\<rparr>"
| "fieldFrom _ = None"

definition errorFrom :: "object \<Rightarrow> ResultError" where
  "errorFrom failure =
     \<lparr>ErrorCode = stringOf (jget failure ''code''), MessageCode = stringOf (jget failure ''message_code''),
      ErrorParams = paramsOf (jget failure ''params''),
      ErrorFields = (case jget failure ''field_errors'' of JArr fs \<Rightarrow> List.map_filter fieldFrom fs | _ \<Rightarrow> [])\<rparr>"

definition resultFromRecord :: "OpRecord \<Rightarrow> Result" where
  "resultFromRecord record =
     \<lparr>ResOpID = RecOpID record, Outcome = RecResult record, ResEntityID = RecEntityID record,
      ServerState = (case jget (Response record) ''server_state'' of JObj state \<Rightarrow> Some state | _ \<Rightarrow> None),
      ResConflict = (case jget (Response record) ''conflict'' of JObj c \<Rightarrow> Some (conflictFrom c) | _ \<Rightarrow> None),
      ResError = (case jget (Response record) ''error'' of JObj e \<Rightarrow> Some (errorFrom e) | _ \<Rightarrow> None)\<rparr>"

text \<open>The table: the first row of an operation stays (\<^verbatim>\<open>ON CONFLICT DO NOTHING\<close>).\<close>

definition FindSyncOp :: "OpRecord list \<Rightarrow> ID \<Rightarrow> OpRecord option" where
  "FindSyncOp log i = find (\<lambda>r. RecOpID r = i) log"

definition RecordSyncOp :: "OpRecord list \<Rightarrow> OpRecord \<Rightarrow> OpRecord list" where
  "RecordSyncOp log r = (if FindSyncOp log (RecOpID r) = None then log @ [r] else log)"

definition opsFind :: "'w ports \<Rightarrow> ID \<Rightarrow> 'w server \<Rightarrow> OpRecord option result" where
  "opsFind p i s = guarded (FindFails p i) (Inr (FindSyncOp (OpLog s) i))"

definition opsRecord :: "'w ports \<Rightarrow> OpRecord \<Rightarrow> 'w server \<Rightarrow> 'w server result" where
  "opsRecord p r s = guarded (RecordFails p (RecOpID r)) (Inr (s\<lparr>OpLog := RecordSyncOp (OpLog s) r\<rparr>))"

section \<open>Readings of a mutation\<close>

definition DefaultSkew :: int where
  "DefaultSkew = 5 * 60 * 1000000000"

definition boundOne :: "'w ports \<Rightarrow> string \<Rightarrow> string result" where
  "boundOne p raw =
     (if raw = '''' then Inr ''''
      else rbind (ParseHLC raw) (\<lambda>reading.
        Inr (HLC_String (fst (Bound reading (Now p) (if Skew p = 0 then DefaultSkew else Skew p))))))"

fun boundFields :: "'w ports \<Rightarrow> (string \<times> FieldChange) list \<Rightarrow> (string \<times> FieldChange) list result" where
  "boundFields p [] = Inr []"
| "boundFields p ((name, field) # rest) =
     rbind (boundOne p (ChangeHLC field)) (\<lambda>hlc.
     rbind (boundFields p rest) (\<lambda>bounded. Inr ((name, field\<lparr>ChangeHLC := hlc\<rparr>) # bounded)))"

definition bound :: "'w ports \<Rightarrow> Mutation \<Rightarrow> Mutation result" where
  "bound p m =
     rbind (boundOne p (MHLC m)) (\<lambda>hlc.
     rbind (boundFields p (MFields m)) (\<lambda>fs. Inr (m\<lparr>MHLC := hlc, MFields := fs\<rparr>)))"

definition considerReading :: "time \<Rightarrow> string \<Rightarrow> time" where
  "considerReading moment raw =
     (if raw = '''' then moment
      else case ParseHLC raw of
             Inl _ \<Rightarrow> moment
           | Inr reading \<Rightarrow> if Physical reading > moment then Physical reading else moment)"

definition momentOf :: "Mutation \<Rightarrow> time" where
  "momentOf m = foldl considerReading zeroTime (MHLC m # map (ChangeHLC \<circ> snd) (MFields m))"

section \<open>Judging\<close>

definition judgeEntity :: "Mutation \<Rightarrow> failure option" where
  "judgeEntity m =
     (if \<not> Entity_Valid (Entity m)
      then Some (Failure (WithFields (WithParams (WithDetail ErrValidation ''sync.entity_unknown'')
        [(''entity'', Entity m)]) [field_error ''/entity'' ''sync.entity_unknown'']))
      else if EntityKey m = '''' then Some (required ''sync.entity_key_required'' ''/entity_key'')
      else if \<not> Admits (Rule (Entity m)) (Kind m)
      then Some (Failure (WithFields (WithParams (WithDetail ErrValidation ''sync.entity_not_patchable'')
        [(''entity'', Entity m)]) [field_error ''/kind'' ''sync.entity_not_patchable'']))
      else None)"

text \<open>The first refusal of a loop over fields.\<close>

fun firstRefusal :: "('a \<Rightarrow> failure option) \<Rightarrow> 'a list \<Rightarrow> failure option" where
  "firstRefusal check [] = None"
| "firstRefusal check (x # xs) = (case check x of None \<Rightarrow> firstRefusal check xs | Some e \<Rightarrow> Some e)"

text \<open>\<^verbatim>\<open>Sets.owner\<close>: the two use cases that own a set, the input that names an element, the stored tags.\<close>

record 'w setOwner =
  OwnerElements :: "ID \<Rightarrow> 'w \<Rightarrow> SetElement list result"
  OwnerAdd :: string
  OwnerRemove :: string
  OwnerElement :: string

definition setOwnerOf :: "'w ports \<Rightarrow> string \<Rightarrow> 'w setOwner option" where
  "setOwnerOf p s =
     (if s = ''labels'' then map_option (\<lambda>es. \<lparr>OwnerElements = es, OwnerAdd = ''AddLabel'',
         OwnerRemove = ''RemoveLabel'', OwnerElement = ''label_id''\<rparr>) (Labels p)
      else if s = ''members'' then map_option (\<lambda>es. \<lparr>OwnerElements = es, OwnerAdd = ''AddMember'',
         OwnerRemove = ''RemoveMember'', OwnerElement = ''account_id''\<rparr>) (Members p)
      else if s = ''attachments'' then map_option (\<lambda>es. \<lparr>OwnerElements = es, OwnerAdd = ''AttachMedia'',
         OwnerRemove = ''DetachMedia'', OwnerElement = ''media_id''\<rparr>) (Attachments p)
      else None)"

definition judge :: "'w ports \<Rightarrow> Mutation \<Rightarrow> failure option" where
  "judge p m =
     (if OnEntity (Kind m) then judgeEntity m
      else if Kind m = ItemPatch then firstRefusal patchable (map fst (MFields m))
      else if Kind m \<in> {ReminderPatch, RecurrencePatch, ContainerPatch, LabelPatch, BucketPatch}
      then (case FamilyOf (Kind m) of
              Some (fam, _) \<Rightarrow> firstRefusal (Judge fam) (map fst (MFields m))
            | None \<Rightarrow> None)
      else if Kind m = SetAdd \<or> Kind m = SetRemove
      then (if MSet m = ''watchers''
            then Some (Failure (WithParams (WithDetail ErrUnavailable ''sync.set_unavailable'') [(''set'', MSet m)]))
            else if setOwnerOf p (MSet m) = None then Some (setUnknown (MSet m))
            else None)
      else None)"

definition purged :: "'w ports \<Rightarrow> Mutation \<Rightarrow> 'w \<Rightarrow> bool result" where
  "purged p m w =
     (case Tombstones p of
        None \<Rightarrow> Inr False
      | Some holds \<Rightarrow> if IsZero (ItemID m) then Inr False else holds ''work_item'' (ItemID m) w)"

section \<open>Fields of an item\<close>

definition withReadings :: "callContext \<Rightarrow> (string \<times> HLC) list \<Rightarrow> callContext" where
  "withReadings ctx readings = ctx\<lparr>CtxReadings := readings\<rparr>"

definition getWorkItem :: "'w ports \<Rightarrow> callContext \<Rightarrow> Mutation \<Rightarrow> ('w, object) step" where
  "getWorkItem p ctx m = Invoke p ctx ''GetWorkItem'' [(''item_id'', JStr (ItemID m))]"

definition clocksOf :: "'w ports \<Rightarrow> string \<Rightarrow> ID \<Rightarrow> ('w, string \<Rightarrow> HLC option) step" where
  "clocksOf p entity i = sread (\<lambda>w. case Clocks p of None \<Rightarrow> Inr (\<lambda>_. None) | Some read \<Rightarrow> read entity i w)"

fun readFields :: "(string \<times> FieldChange) list \<Rightarrow> (string \<times> HLC) list result" where
  "readFields [] = Inr []"
| "readFields ((field, change) # rest) =
     rbind (ParseHLC (ChangeHLC change)) (\<lambda>reading.
     rbind (readFields rest) (\<lambda>readings. Inr ((field, reading) # readings)))"

definition changeOf :: "Mutation \<Rightarrow> string \<Rightarrow> json" where
  "changeOf m field = (case map_of (MFields m) field of None \<Rightarrow> JNull | Some c \<Rightarrow> ChangeValue c)"

definition applyAssignee :: "'w ports \<Rightarrow> callContext \<Rightarrow> ID \<Rightarrow> json \<Rightarrow> ('w, object) step" where
  "applyAssignee p ctx itemID v =
     (if stringOf v = '''' then Invoke p ctx ''UnassignWorkItem'' [(''item_id'', JStr itemID)]
      else Invoke p ctx ''AssignWorkItem'' [(''item_id'', JStr itemID), (''account_id'', JStr (stringOf v))])"

definition coverInput :: "ID \<Rightarrow> object \<Rightarrow> object" where
  "coverInput itemID cover = (''item_id'', JStr itemID) #
     List.map_filter (\<lambda>key. case map_of cover key of
         None \<Rightarrow> None | Some v \<Rightarrow> if v = JNull then None else Some (key, v))
       [''kind'', ''color_token'', ''media_id'']"

definition applyCover :: "'w ports \<Rightarrow> callContext \<Rightarrow> ID \<Rightarrow> json \<Rightarrow> ('w, object) step" where
  "applyCover p ctx itemID v =
     (if v = JNull \<or> v = JObj [] then Invoke p ctx ''ClearCover'' [(''item_id'', JStr itemID)]
      else case v of
             JObj cover \<Rightarrow> Invoke p ctx ''SetCover'' (coverInput itemID cover)
           | _ \<Rightarrow> sfail (Failure (WithFields (WithParams (WithDetail ErrValidation ''sync.field_malformed'')
               [(''field'', ''cover'')]) [field_error ''/fields/cover'' ''sync.field_malformed''])))"

abbreviation "dueFields \<equiv> [''due_at'', ''due_date_only'', ''due_time_zone'']"

text \<open>
  One winning field: a field of \<^verbatim>\<open>UpdateWorkItem\<close> is collected, every other field has a use case of its
  own, called at once.  The collected input is the value of the step.
\<close>

definition applyField :: "'w ports \<Rightarrow> callContext \<Rightarrow> Mutation \<Rightarrow> object \<Rightarrow> string \<Rightarrow> ('w, object) step" where
  "applyField p ctx m update field =
     (let v = changeOf m field; itemID = ItemID m;
          called = (\<lambda>step. sbind step (\<lambda>_. sreturn update))
      in if List.member updateFields field then sreturn (AList.update field v update)
         else if field = ''assignee_id'' then called (applyAssignee p ctx itemID v)
         else if field = ''cover'' then called (applyCover p ctx itemID v)
         else if field = ''completion''
         then called (Invoke p ctx (if completionWanted v then ''CompleteWorkItem'' else ''ReopenWorkItem'')
           [(''item_id'', JStr itemID)])
         else if field = ''status''
         then called (Invoke p ctx ''TakeStep'' [(''item_id'', JStr itemID), (''to_status'', JStr (stringOf v))])
         else if field = ''order_key''
         then called (Invoke p ctx ''ReorderWorkItem'' [(''item_id'', JStr itemID), (''order_key'', JStr (stringOf v))])
         else if hasPrefix field ''custom_fields.''
         then called (Invoke p ctx ''SetCustomField'' [(''item_id'', JStr itemID),
           (''key'', JStr (drop (length ''custom_fields.'') field)), (''value'', v)])
         else sreturn update)"

fun applyFields :: "'w ports \<Rightarrow> callContext \<Rightarrow> Mutation \<Rightarrow> object \<Rightarrow> string list \<Rightarrow> ('w, object) step" where
  "applyFields p ctx m update [] = sreturn update"
| "applyFields p ctx m update (field # rest) =
     sbind (applyField p ctx m update field) (\<lambda>update'. applyFields p ctx m update' rest)"

text \<open>The three due fields travel together: what was not sent is filled from the item as it was.\<close>

definition completeDue :: "object \<Rightarrow> object \<Rightarrow> object" where
  "completeDue before update =
     (let filled = foldl (\<lambda>u field. if map_of u field = None then AList.update field (jget before field) u else u)
            update dueFields
      in if jget filled ''due_at'' = JNull
         then AList.update ''due_at'' (JStr '''')
           (AList.delete ''due_time_zone'' (AList.delete ''due_date_only'' filled))
         else filled)"

definition applyWinners :: "'w ports \<Rightarrow> callContext \<Rightarrow> Mutation \<Rightarrow> string list \<Rightarrow> object \<Rightarrow> ('w, unit) step" where
  "applyWinners p ctx m winners before =
     sbind (applyFields p ctx m [] (sort winners)) (\<lambda>update.
       if update = [] then sreturn ()
       else let due = (if \<exists>field \<in> set (sort winners). List.member dueFields field
                       then completeDue before update else update);
                cleared = map (\<lambda>(field, v). (field, if v = JNull then JStr '''' else v)) due
            in sbind (Invoke p ctx ''UpdateWorkItem'' (AList.update ''item_id'' (JStr (ItemID m)) cleared))
                 (\<lambda>_. sreturn ()))"

definition lostCompletion :: "'w ports \<Rightarrow> callContext \<Rightarrow> Mutation \<Rightarrow> (string \<times> HLC) list \<Rightarrow> object \<Rightarrow> ('w, unit) step" where
  "lostCompletion p ctx m losers before =
     (case (map_of losers ''completion'', RecordStep p) of
        (Some reading, Some step) \<Rightarrow>
          swrite (step (ItemID m) (stringOf (jget before ''collection_id'')) ''item.change_lost''
            [(''field'', JStr ''completion''), (''device_id'', JStr (CtxDevice ctx)),
             (''hlc'', JStr (HLC_String reading)),
             (''is_completed'', JBool (completionWanted (changeOf m ''completion'')))] (Now p))
      | _ \<Rightarrow> sreturn ())"

text \<open>A refused comment keeps the conflict without it; any other failure ends the mutation.\<close>

definition fileDisplaced :: "'w ports \<Rightarrow> callContext \<Rightarrow> Mutation \<Rightarrow> string \<Rightarrow> HLC \<Rightarrow> ('w, ID) step" where
  "fileDisplaced p ctx m mine reading w =
     (case FileDisplaced p of
        None \<Rightarrow> Inr ('''', w)
      | Some file \<Rightarrow>
          if mine = '''' then Inr ('''', w)
          else case file (ItemID m) mine [(''field'', ''notes''), (''device'', CtxDevice ctx),
                    (''at'', RFC3339 p (Physical reading))] w of
                 Inr (comment, w') \<Rightarrow> Inr (comment, w')
               | Inl e \<Rightarrow> if refusal e then Inr ('''', w) else Inl e)"

definition answerLosers :: "'w ports \<Rightarrow> callContext \<Rightarrow> Mutation \<Rightarrow> (string \<times> HLC) list \<Rightarrow> object
    \<Rightarrow> ('w, ConflictDetail option) step" where
  "answerLosers p ctx m losers before =
     sbind (lostCompletion p ctx m losers before) (\<lambda>_.
       case map_of losers ''notes'' of
         None \<Rightarrow> sreturn None
       | Some reading \<Rightarrow>
           sbind (fileDisplaced p ctx m (stringOf (changeOf m ''notes'')) reading) (\<lambda>comment.
             let conflict = \<lparr>ConflictField = ''notes'', Mine = JStr (stringOf (changeOf m ''notes'')),
                   Theirs = jget before ''notes'', PreservedCommentID = comment\<rparr>
             in case RecordStep p of
                  None \<Rightarrow> sreturn (Some conflict)
                | Some step \<Rightarrow>
                    sbind (swrite (step (ItemID m) (stringOf (jget before ''collection_id'')) ''item.merged''
                        [(''field'', JStr ''notes''), (''device_id'', JStr (CtxDevice ctx)),
                         (''hlc'', JStr (HLC_String reading)), (''preserved_comment_id'', idOrNilOf comment)] (Now p)))
                      (\<lambda>_. sreturn (Some conflict))))"

definition versionMatches :: "Mutation \<Rightarrow> object \<Rightarrow> bool" where
  "versionMatches m before = (case BaseVersion m of None \<Rightarrow> True | Some v \<Rightarrow> versionOf before = v)"

definition patch :: "'w ports \<Rightarrow> callContext \<Rightarrow> Mutation \<Rightarrow> ('w, Result) step" where
  "patch p ctx m =
     (if IsZero (ItemID m) then sfail itemRequired
      else if MFields m = [] then sfail (required ''sync.fields_required'' ''/fields'')
      else sguard (firstRefusal patchable (map fst (MFields m))) (
        sbind (getWorkItem p ctx m) (\<lambda>before.
        sbind (clocksOf p ''item'' (ItemID m)) (\<lambda>clocks.
        sbind (sread (\<lambda>_. readFields (MFields m))) (\<lambda>sent.
        let winners = fst (Decide sent clocks); losers = snd (Decide sent clocks)
        in sbind (if winners = [] then sreturn ()
                  else applyWinners p (withReadings ctx winners) m (map fst winners) before) (\<lambda>_.
           sbind (answerLosers p ctx m losers before) (\<lambda>conflict.
           sbind (getWorkItem p ctx m) (\<lambda>after.
           let kind = (if conflict \<noteq> None then Conflict
                       else if length winners = length (MFields m) \<and> versionMatches m before then Applied
                       else Merged)
           in sreturn ((result m kind (ItemID m) (Some after))\<lparr>ResConflict := conflict\<rparr>)))))))))"

section \<open>Moves\<close>

definition moveFields :: "string list" where
  "moveFields = [''parent_id'', ''collection_id'', ''bucket_id'', ''order_key'']"

definition isMoveField :: "string \<Rightarrow> bool" where
  "isMoveField field = List.member moveFields field"

definition cycleCodes :: "string list" where
  "cycleCodes = [''items.parent_is_self'', ''items.parent_in_own_subtree'']"

definition moveInputName :: "string \<Rightarrow> string" where
  "moveInputName field =
     (if field = ''parent_id'' then ''target_parent_id''
      else if field = ''collection_id'' then ''target_collection_id''
      else if field = ''bucket_id'' then ''target_bucket_id''
      else ''order_key'')"

definition moveInput :: "Mutation \<Rightarrow> object" where
  "moveInput m = (''item_id'', JStr (ItemID m)) #
     List.map_filter (\<lambda>field. map_option (\<lambda>v. (moveInputName field, JStr (stringOf v))) (map_of (Payload m) field))
       moveFields"

definition moveReadings :: "Mutation \<Rightarrow> HLC \<Rightarrow> (string \<times> HLC) list" where
  "moveReadings m reading =
     map (\<lambda>field. (field, reading)) (filter (\<lambda>field. map_of (Payload m) field \<noteq> None) moveFields)"

definition payloadUnknown :: "string \<Rightarrow> failure option" where
  "payloadUnknown field =
     (if isMoveField field then None
      else Some (Failure (WithFields (WithParams (WithDetail ErrValidation ''sync.field_unknown'')
        [(''field'', field)]) [field_error (''/payload/'' @ field) ''sync.field_unknown''])))"

definition cycleDetected :: failure where
  "cycleDetected = Failure (WithFields (WithDetail ErrConflict ''sync.cycle_detected'')
     [field_error ''/payload/parent_id'' ''sync.cycle_detected''])"

definition move :: "'w ports \<Rightarrow> callContext \<Rightarrow> Mutation \<Rightarrow> ('w, Result) step" where
  "move p ctx m =
     (if IsZero (ItemID m) then sfail itemRequired
      else if map_of (Payload m) ''parent_id'' = None
      then sfail (required ''sync.fields_required'' ''/payload/parent_id'')
      else sbind (sread (\<lambda>_. ParseHLC (MHLC m))) (\<lambda>reading.
        sguard (firstRefusal payloadUnknown (map fst (Payload m))) (
        sbind (getWorkItem p ctx m) (\<lambda>before.
        sbind (clocksOf p ''item'' (ItemID m)) (\<lambda>clocks.
        if loses clocks (''parent_id'', reading)
        then sreturn (result m Merged (ItemID m) (Some before))
        else sbind (\<lambda>w. case Invoke p (withReadings ctx (moveReadings m reading)) ''MoveWorkItem'' (moveInput m) w of
                           Inl e \<Rightarrow> if DetailCode (AsError e) \<in> set cycleCodes then Inl cycleDetected else Inl e
                         | Inr moved \<Rightarrow> Inr moved) (\<lambda>_.
             sbind (getWorkItem p ctx m) (\<lambda>after.
             sreturn (result m (if versionMatches m before then Applied else Merged) (ItemID m) (Some after)))))))))"

section \<open>Sets\<close>

definition setChange :: "'w ports \<Rightarrow> callContext \<Rightarrow> Mutation \<Rightarrow> ('w, Result) step" where
  "setChange p ctx m =
     (if IsZero (ItemID m) then sfail itemRequired
      else if IsZero (Element m) then sfail (required ''sync.element_required'' ''/element'')
      else case setOwnerOf p (MSet m) of
             None \<Rightarrow> sfail (setUnknown (MSet m))
           | Some own \<Rightarrow>
               sbind (sread (\<lambda>_. ParseHLC (MHLC m))) (\<lambda>tag.
               sbind (getWorkItem p ctx m) (\<lambda>before.
               sbind (sread (OwnerElements own (ItemID m))) (\<lambda>stored.
               let mine = deviceElement (if Kind m = SetAdd then SetAddition else SetRemoval) (Element m) tag;
                   wasPresent = presentIn stored (Element m);
                   nowPresent = presentIn (MergeSetElements stored [mine]) (Element m)
               in if wasPresent = nowPresent then sreturn (result m Merged (ItemID m) (Some before))
                  else sbind (Invoke p (withReadings ctx [(MSet m, tag)])
                              (if nowPresent then OwnerAdd own else OwnerRemove own)
                              [(''item_id'', JStr (ItemID m)), (OwnerElement own, JStr (Element m))]) (\<lambda>_.
                       sbind (getWorkItem p ctx m) (\<lambda>after.
                       sreturn (result m Applied (ItemID m) (Some after))))))))"

section \<open>Acts on items and templates\<close>

definition create :: "'w ports \<Rightarrow> callContext \<Rightarrow> Mutation \<Rightarrow> ('w, Result) step" where
  "create p ctx m =
     sbind (Invoke p ctx ''CreateWorkItem'' (AList.update ''id'' (JStr (ItemID m)) (Payload m))) (\<lambda>out.
     sreturn (result m Applied (ItemID m) (Some out)))"

definition trash :: "'w ports \<Rightarrow> callContext \<Rightarrow> Mutation \<Rightarrow> ('w, Result) step" where
  "trash p ctx m =
     (if IsZero (ItemID m) then sfail itemRequired
      else sbind (Invoke p ctx ''TrashWorkItem'' [(''item_id'', JStr (ItemID m))]) (\<lambda>out.
        sreturn (result m Applied (ItemID m) (Some out))))"

definition comment :: "'w ports \<Rightarrow> callContext \<Rightarrow> Mutation \<Rightarrow> ('w, Result) step" where
  "comment p ctx m =
     (if IsZero (ItemID m) then sfail itemRequired
      else sbind (Invoke p ctx ''AddComment'' (AList.update ''item_id'' (JStr (ItemID m)) (Payload m))) (\<lambda>out.
        sreturn (result m Applied (stringOf (jget out ''id'')) (Some out))))"

definition template :: "'w ports \<Rightarrow> callContext \<Rightarrow> Mutation \<Rightarrow> ('w, Result) step" where
  "template p ctx m =
     sbind (Invoke p ctx ''InstantiateTemplate'' (Payload m)) (\<lambda>out.
     sreturn (result m Applied (stringOf (jget out ''root_item_id'')) (Some out)))"

section \<open>Entities\<close>

record entityWriters =
  WCreate :: string
  WChange :: string
  WRemove :: string
  WKey :: string
  WRemoveKey :: string
  WPatch :: string
  WKeyOnChange :: bool
  WRemoveVersioned :: bool
  WCorrect :: string
  WCreateOnly :: "string list"

definition keyed :: "string \<Rightarrow> string \<Rightarrow> string \<Rightarrow> string list \<Rightarrow> entityWriters" where
  "keyed c ch r only = \<lparr>WCreate = c, WChange = ch, WRemove = r, WKey = ''key'', WRemoveKey = ''key'',
     WPatch = '''', WKeyOnChange = False, WRemoveVersioned = False, WCorrect = '''', WCreateOnly = only\<rparr>"

definition writersOf :: "string \<Rightarrow> entityWriters option" where
  "writersOf entity =
     (if entity = EntityEntryType
      then Some (keyed ''CreateEntryType'' ''ChangeEntryType'' ''DeleteEntryType'' [''level''])
      else if entity = EntityLinkType
      then Some (keyed ''CreateLinkType'' ''ChangeLinkType'' ''DeleteLinkType''
        [''direction'', ''cardinality'', ''cycles'', ''waits''])
      else if entity = EntityWorkflow
      then Some (keyed ''CreateWorkflow'' ''SaveWorkflowDraft'' ''DeleteWorkflow'' [])
      else if entity = EntityCustomRole
      then Some (keyed ''CreateRole'' ''ChangeRole'' ''DeleteRole'' [])
      else if entity = EntityEntryLink
      then Some ((keyed ''LinkEntries'' '''' ''UnlinkEntries'' [])\<lparr>WKey := ''id'', WRemoveKey := ''link_id''\<rparr>)
      else if entity = EntityTimer
      then Some ((keyed ''StartTimer'' '''' ''DiscardTimer'' [])\<lparr>WKey := '''', WRemoveKey := '''', WPatch := ''StopTimer''\<rparr>)
      else if entity = EntityTimeRecord
      then Some ((keyed ''LogTime'' '''' ''DeleteTimeRecord'' [])\<lparr>WKey := ''record_id'', WRemoveKey := ''record_id'',
        WPatch := ''UpdateTimeRecord'', WKeyOnChange := True, WRemoveVersioned := True,
        WCorrect := ''CorrectTimeRecord''\<rparr>)
      else None)"

definition entityInput :: "Mutation \<Rightarrow> entityWriters \<Rightarrow> bool \<Rightarrow> object" where
  "entityInput m writers change =
     (let base = AList.delete ''expected_version'' (Payload m);
          changed = (if change then
            (let kept = foldl (\<lambda>o' field. AList.delete field o') base (WCreateOnly writers)
             in case BaseVersion m of
                  Some v \<Rightarrow> if v > 0 then AList.update ''expected_version'' (JInt v) kept else kept
                | None \<Rightarrow> kept) else base)
      in if WKey writers \<noteq> '''' \<and> (change \<or> \<not> WKeyOnChange writers)
         then AList.update (WKey writers) (JStr (EntityKey m)) changed else changed)"

definition entityApplied :: "Mutation \<Rightarrow> object \<Rightarrow> Result" where
  "entityApplied m out =
     result m Applied (case jget out ''id'' of JStr i \<Rightarrow> i
       | _ \<Rightarrow> if Entity m = EntityEntryLink then EntityKey m else '''') (Some out)"

definition removeEntity :: "'w ports \<Rightarrow> callContext \<Rightarrow> Mutation \<Rightarrow> entityWriters \<Rightarrow> ('w, Result) step" where
  "removeEntity p ctx m writers w =
     (let keyPart = (if WRemoveKey writers \<noteq> '''' then [(WRemoveKey writers, JStr (EntityKey m))] else []);
          input = (case BaseVersion m of
            Some v \<Rightarrow> if WRemoveVersioned writers then AList.update ''expected_version'' (JInt v) keyPart else keyPart
          | None \<Rightarrow> keyPart);
          answer = result m Applied (if Entity m = EntityEntryLink then EntityKey m else '''') None
      in case Invoke p ctx (WRemove writers) input w of
           Inr (_, w') \<Rightarrow> Inr (answer, w')
         | Inl e \<Rightarrow> if category_of e = Some CategoryNotFound then Inr (answer, w) else Inl e)"

definition upsertEntity :: "'w ports \<Rightarrow> callContext \<Rightarrow> Mutation \<Rightarrow> entityWriters \<Rightarrow> ('w, Result) step" where
  "upsertEntity p ctx m writers w =
     (let created = sbind (Invoke p ctx (WCreate writers) (entityInput m writers False)) (\<lambda>out.
            sreturn (entityApplied m out))
      in case (jget (Payload m) ''corrects'', WCorrect writers = '''') of
           (JStr corrects, False) \<Rightarrow>
             sbind (Invoke p ctx (WCorrect writers)
                 (AList.update ''record_id'' (JStr corrects)
                   (AList.delete ''corrects'' (entityInput m writers False)))) (\<lambda>out.
             sreturn (entityApplied m out)) w
         | _ \<Rightarrow>
             if WChange writers \<noteq> ''''
             then (case Invoke p ctx (WChange writers) (entityInput m writers True) w of
                     Inr (out, w') \<Rightarrow> Inr (entityApplied m out, w')
                   | Inl e \<Rightarrow> if category_of e \<noteq> Some CategoryNotFound then Inl e else created w)
             else created w)"

definition applyEntity :: "'w ports \<Rightarrow> callContext \<Rightarrow> Mutation \<Rightarrow> ('w, Result) step" where
  "applyEntity p ctx m =
     (case writersOf (Entity m) of
        None \<Rightarrow> (case judgeEntity m of Some e \<Rightarrow> sfail e | None \<Rightarrow> sreturn
          \<lparr>ResOpID = '''', Outcome = Unset, ResEntityID = '''', ServerState = None, ResConflict = None, ResError = None\<rparr>)
      | Some writers \<Rightarrow>
          if Kind m = EntityDelete then removeEntity p ctx m writers
          else if Kind m = EntityPatch
          then sbind (Invoke p ctx (if WPatch writers \<noteq> '''' then WPatch writers else WChange writers)
                 (entityInput m writers True)) (\<lambda>out. sreturn (entityApplied m out))
          else upsertEntity p ctx m writers)"

definition entityChange :: "'w ports \<Rightarrow> callContext \<Rightarrow> Mutation \<Rightarrow> ('w, Result) step" where
  "entityChange p ctx m =
     sbind (applyEntity p ctx m) (\<lambda>r.
       if Entity m \<noteq> EntityTimer then sreturn r
       else sreturn (r\<lparr>ResEntityID := AccountID p,
              ServerState := (if Kind m \<noteq> EntityUpsert then None else ServerState r)\<rparr>))"

section \<open>Records of a family\<close>

record owner =
  OCreate :: string
  OUpdate :: string
  ORemove :: string
  OIdKey :: string

definition ownerOf :: "string \<Rightarrow> owner" where
  "ownerOf entity =
     (if entity = ''reminder'' then \<lparr>OCreate = ''CreateReminder'', OUpdate = ''UpdateReminder'',
         ORemove = ''DeleteReminder'', OIdKey = ''reminder_id''\<rparr>
      else if entity = ''container'' then \<lparr>OCreate = ''CreateContainer'', OUpdate = ''RenameContainer'',
         ORemove = ''TrashContainer'', OIdKey = ''container_id''\<rparr>
      else if entity = ''label'' then \<lparr>OCreate = ''CreateLabel'', OUpdate = ''UpdateLabel'',
         ORemove = ''DeleteLabel'', OIdKey = ''label_id''\<rparr>
      else if entity = ''bucket'' then \<lparr>OCreate = ''CreateBucket'', OUpdate = ''UpdateBucket'',
         ORemove = ''DeleteBucket'', OIdKey = ''bucket_id''\<rparr>
      else \<lparr>OCreate = '''', OUpdate = '''', ORemove = '''', OIdKey = ''''\<rparr>)"

definition clearedValue :: "string \<Rightarrow> json \<Rightarrow> json" where
  "clearedValue field v =
     (if v \<noteq> JNull then v
      else if field = ''wip_limit'' \<or> field = ''max_count'' then JInt 0
      else if field = ''is_done_bucket'' then JBool False
      else if field = ''channels'' \<or> field = ''recipients'' then JArr []
      else JStr '''')"

fun rowsOf :: "json \<Rightarrow> object list" where
  "rowsOf (JArr data) = List.map_filter (\<lambda>row. case row of JObj object \<Rightarrow> Some object | _ \<Rightarrow> None) data"
| "rowsOf _ = []"

definition listed :: "'w ports \<Rightarrow> callContext \<Rightarrow> string \<Rightarrow> object \<Rightarrow> ID \<Rightarrow> ('w, object) step" where
  "listed p ctx name input i =
     sbind (Invoke p ctx name input) (\<lambda>out.
       case find (\<lambda>row. stringOf (jget row ''id'') = i) (rowsOf (jget out ''data'')) of
         Some row \<Rightarrow> sreturn row
       | None \<Rightarrow> sfail (Failure (WithDetail ErrNotFound ''sync.entity_not_found'')))"

text \<open>The \<open>read\<close> of an owner; the recurrence has none and a push never asks for it.\<close>

definition ownerRead :: "'w ports \<Rightarrow> callContext \<Rightarrow> string \<Rightarrow> Mutation \<Rightarrow> ('w, object) step" where
  "ownerRead p ctx entity m =
     (if entity = ''reminder'' then listed p ctx ''ListReminders'' [(''item_id'', JStr (ItemID m))] (EntityID m)
      else if entity = ''container'' then Invoke p ctx ''GetContainer'' [(''container_id'', JStr (EntityID m))]
      else if entity = ''label''
      then listed p ctx ''ListLabels'' [(''collection_id'', JStr (ContainerID m)), (''include_deleted'', JBool True)] (EntityID m)
      else if entity = ''bucket'' then listed p ctx ''ListBuckets'' [(''collection_id'', JStr (ContainerID m))] (EntityID m)
      else sfail Panic)"

fun judgedReadings :: "Family \<Rightarrow> (string \<times> FieldChange) list \<Rightarrow> (string \<times> HLC) list result" where
  "judgedReadings fam [] = Inr []"
| "judgedReadings fam ((field, change) # rest) =
     guarded (Judge fam field) (rbind (ParseHLC (ChangeHLC change)) (\<lambda>reading.
     rbind (judgedReadings fam rest) (\<lambda>sent. Inr ((field, reading) # sent))))"

definition decide :: "'w ports \<Rightarrow> Family \<Rightarrow> ID \<Rightarrow> Mutation \<Rightarrow> ('w, (string \<times> HLC) list) step" where
  "decide p fam i m =
     (if MFields m = [] then sfail (required ''sync.fields_required'' ''/fields'')
      else sbind (sread (\<lambda>_. judgedReadings fam (MFields m))) (\<lambda>sent.
        sbind (clocksOf p (FamilyEntity fam) i) (\<lambda>clocks.
        sreturn (fst (Decide sent clocks)))))"

definition reminderItem :: "Family \<Rightarrow> Mutation \<Rightarrow> object \<Rightarrow> object" where
  "reminderItem fam m input =
     (if FamilyEntity fam = ''reminder'' then AList.update ''item_id'' (JStr (ItemID m)) input else input)"

definition recurrenceFields :: "string list" where
  "recurrenceFields = [''rrule'', ''time_zone'', ''mode'', ''horizon_days'', ''ends_at'', ''max_count'']"

definition recurrenceInput :: "'w ports \<Rightarrow> Mutation \<Rightarrow> object \<Rightarrow> (string \<times> HLC) list \<Rightarrow> object" where
  "recurrenceInput p m before winners = (''item_id'', JStr (ItemID m)) #
     map (\<lambda>field. let v = (if map_of winners field \<noteq> None then changeOf m field else jget before field);
                      t = (case v of JTime at \<Rightarrow> JStr (RFC3339 p at) | _ \<Rightarrow> v)
                  in (field, clearedValue field t)) recurrenceFields"

definition recurrenceCreated :: "'w ports \<Rightarrow> callContext \<Rightarrow> Mutation \<Rightarrow> ('w, Result) step" where
  "recurrenceCreated p ctx m =
     (let input = foldl (\<lambda>o' (field, change). AList.update field (clearedValue field (ChangeValue change)) o')
            (Payload m) (MFields m);
          input' = AList.update ''item_id'' (JStr (ItemID m)) input;
          input'' = (if \<not> IsZero (EntityID m) then AList.update ''id'' (JStr (EntityID m)) input' else input')
      in sbind (Invoke p ctx ''SetRecurrence'' input'') (\<lambda>out.
           sreturn (result m Applied (stringOf (jget out ''id'')) (Some out))))"

definition recurrenceMerged :: "'w ports \<Rightarrow> callContext \<Rightarrow> Mutation \<Rightarrow> object \<Rightarrow> ('w, Result) step" where
  "recurrenceMerged p ctx m before =
     (let ruleID = stringOf (jget before ''id'')
      in sbind (decide p recurrenceFamily ruleID m) (\<lambda>winners.
         sbind (if winners = [] then sreturn before
                else Invoke p (withReadings ctx winners) ''SetRecurrence'' (recurrenceInput p m before winners)) (\<lambda>after.
         sreturn (result m (if length winners = length (MFields m) then Applied else Merged) ruleID (Some after)))))"

definition recurrence :: "'w ports \<Rightarrow> callContext \<Rightarrow> Mutation \<Rightarrow> Shape \<Rightarrow> ('w, Result) step" where
  "recurrence p ctx m shape w =
     (if IsZero (ItemID m) then Inl itemRequired
      else if shape = ShapeDeletion
      then sbind (Invoke p ctx ''RemoveRecurrence'' [(''item_id'', JStr (ItemID m))]) (\<lambda>_.
        sreturn (result m Applied (EntityID m) None)) w
      else case Invoke p ctx ''GetRecurrence'' [(''item_id'', JStr (ItemID m))] w of
             Inl e \<Rightarrow> if category_of e \<noteq> Some CategoryNotFound then Inl e else recurrenceCreated p ctx m w
           | Inr (before, w') \<Rightarrow>
               if shape = ShapeCreation
               then guarded (firstRefusal (Judge recurrenceFamily) (map fst (Payload m)))
                 (recurrenceMerged p ctx (m\<lparr>MFields := map (\<lambda>(field, v). (field,
                    \<lparr>ChangeValue = v, ChangeHLC = MHLC m\<rparr>)) (Payload m)\<rparr>) before w')
               else recurrenceMerged p ctx m before w')"

definition familyCreated :: "'w ports \<Rightarrow> callContext \<Rightarrow> Family \<Rightarrow> Mutation \<Rightarrow> ('w, Result) step" where
  "familyCreated p ctx fam m =
     sbind (Invoke p ctx (OCreate (ownerOf (FamilyEntity fam)))
       (reminderItem fam m (AList.update ''id'' (JStr (EntityID m)) (Payload m)))) (\<lambda>out.
     sreturn (result m Applied (EntityID m) (Some out)))"

definition familyDeleted :: "'w ports \<Rightarrow> callContext \<Rightarrow> Family \<Rightarrow> Mutation \<Rightarrow> ('w, Result) step" where
  "familyDeleted p ctx fam m =
     sbind (Invoke p ctx (ORemove (ownerOf (FamilyEntity fam)))
       (reminderItem fam m [(OIdKey (ownerOf (FamilyEntity fam)), JStr (EntityID m))])) (\<lambda>_.
     sreturn (result m Applied (EntityID m) None))"

definition familyFields :: "'w ports \<Rightarrow> callContext \<Rightarrow> Family \<Rightarrow> Mutation \<Rightarrow> ('w, Result) step" where
  "familyFields p ctx fam m =
     (if (FamilyEntity fam = ''label'' \<or> FamilyEntity fam = ''bucket'') \<and> IsZero (ContainerID m)
      then sfail (required ''sync.container_required'' ''/container_id'')
      else sbind (ownerRead p ctx (FamilyEntity fam) m) (\<lambda>_.
        sbind (decide p fam (EntityID m) m) (\<lambda>winners.
        sbind (if winners = [] then ownerRead p ctx (FamilyEntity fam) m
               else Invoke p (withReadings ctx winners) (OUpdate (ownerOf (FamilyEntity fam)))
                 (foldl (\<lambda>o' field. AList.update field (clearedValue field (changeOf m field)) o')
                   (reminderItem fam m [(OIdKey (ownerOf (FamilyEntity fam)), JStr (EntityID m))])
                   (sort (map fst winners)))) (\<lambda>after.
        sreturn (result m (if length winners = length (MFields m) then Applied else Merged)
          (EntityID m) (Some after))))))"

definition familyRecord :: "'w ports \<Rightarrow> callContext \<Rightarrow> Mutation \<Rightarrow> ('w, Result) step" where
  "familyRecord p ctx m =
     (case FamilyOf (Kind m) of
        None \<Rightarrow> if IsZero (EntityID m) then sfail (required ''sync.entity_required'' ''/entity_id'') else sfail Panic
      | Some (fam, shape) \<Rightarrow>
          if FamilyEntity fam = ''recurrence_rule'' then recurrence p ctx m shape
          else if IsZero (EntityID m) then sfail (required ''sync.entity_required'' ''/entity_id'')
          else if FamilyEntity fam = ''reminder'' \<and> IsZero (ItemID m) then sfail itemRequired
          else case shape of
                 ShapeCreation \<Rightarrow> familyCreated p ctx fam m
               | ShapeDeletion \<Rightarrow> familyDeleted p ctx fam m
               | _ \<Rightarrow> familyFields p ctx fam m)"

section \<open>The device\<close>

record Contact =
  ContactDeviceID :: ID
  Platform :: string
  DisplayName :: string

definition PlatformMaxLength :: nat where
  "PlatformMaxLength = 40"

definition DisplayNameMaxLength :: nat where
  "DisplayNameMaxLength = 120"

definition Contact_Validate :: "Contact \<Rightarrow> Contact result" where
  "Contact_Validate c =
     (if IsZero (ContactDeviceID c) then Inl (required ''sync.device_required'' ''/device_id'')
      else if \<not> IsUUIDv7 (ContactDeviceID c) then Inl (required ''sync.id_not_uuidv7'' ''/device_id'')
      else let platform = TrimSpace (Platform c); name = TrimSpace (DisplayName c)
           in if RuneCountInString platform > PlatformMaxLength
              then Inl (required ''sync.device_platform_too_long'' ''/platform'')
              else if RuneCountInString name > DisplayNameMaxLength
              then Inl (required ''sync.device_name_too_long'' ''/display_name'')
              else Inr (c\<lparr>Platform := platform, DisplayName := name\<rparr>))"

section \<open>One mutation, and the queue\<close>

definition appliers :: "'w ports \<Rightarrow> MutationKind \<Rightarrow> (callContext \<Rightarrow> Mutation \<Rightarrow> ('w, Result) step) option" where
  "appliers p kind =
     (if FamilyOf kind \<noteq> None \<and> List.member MutationKinds kind then Some (familyRecord p)
      else if kind = ItemCreate then Some (create p)
      else if kind = ItemPatch then Some (patch p)
      else if kind = ItemDelete then Some (trash p)
      else if kind = Move then Some (move p)
      else if kind = SetAdd \<or> kind = SetRemove then Some (setChange p)
      else if kind = CommentAdd then Some (comment p)
      else if kind = TemplateApply then Some (template p)
      else if kind = EntityUpsert \<or> kind = EntityPatch \<or> kind = EntityDelete then Some (entityChange p)
      else None)"

text \<open>\<^verbatim>\<open>PushChanges.record\<close>: the answer is kept in a unit of work of its own.\<close>

definition recordAnswer :: "'w ports \<Rightarrow> ID \<Rightarrow> Result \<Rightarrow> 'w server \<Rightarrow> Result result \<times> 'w server" where
  "recordAnswer p deviceID r s =
     (case opsRecord p (recordOf deviceID r (Now p)) s of
        Inl e \<Rightarrow> (Inl e, s)
      | Inr s' \<Rightarrow> (Inr r, s'))"

text \<open>The effect and its record, in one unit of work.\<close>

definition effect :: "'w ports \<Rightarrow> ID \<Rightarrow> ('w, Result) step \<Rightarrow> 'w server \<Rightarrow> (Result \<times> 'w server) result" where
  "effect p deviceID step s =
     rbind (step (World s)) (\<lambda>(r, w').
     rbind (opsRecord p (recordOf deviceID r (Now p)) (s\<lparr>World := w'\<rparr>)) (\<lambda>s'. Inr (r, s')))"

definition apply_mutation :: "'w ports \<Rightarrow> ID \<Rightarrow> ID \<Rightarrow> Mutation \<Rightarrow> 'w server \<Rightarrow> Result result \<times> 'w server" where
  "apply_mutation p deviceID pushID m s =
     (if IsZero (OpID m) \<or> \<not> IsUUIDv7 (OpID m)
      then (Inr (rejected m (Failure (WithDetail ErrValidation ''sync.op_id_required''))), s)
      else if \<not> Kind_Valid (Kind m)
      then (Inr (rejected m (Failure (WithParams (WithDetail ErrValidation ''sync.kind_unknown'')
              [(''kind'', Kind m)]))), s)
      else case opsFind p (OpID m) s of
        Inl e \<Rightarrow> (Inl e, s)
      | Inr (Some stored) \<Rightarrow> (Inr (resultFromRecord stored), s)
      | Inr None \<Rightarrow>
        (case bound p m of
          Inl e \<Rightarrow> (Inr (rejected m e), s)
        | Inr bounded \<Rightarrow>
          (case appliers p (Kind bounded) of
            None \<Rightarrow> (Inr (rejected m (Failure (WithParams (WithDetail ErrUnavailable ''sync.kind_unavailable'')
                      [(''kind'', Kind m)]))), s)
          | Some apply' \<Rightarrow>
            (case judge p bounded of
              Some e \<Rightarrow> if \<not> refusal e then (Inr (rejected m e), s) else recordAnswer p deviceID (rejected m e) s
            | None \<Rightarrow>
              (case purged p bounded (World s) of
                Inl e \<Rightarrow> (Inl e, s)
              | Inr True \<Rightarrow> recordAnswer p deviceID (rejected m (Failure (WithDetail ErrGone ''sync.gone''))) s
              | Inr False \<Rightarrow>
                (case effect p deviceID (apply' \<lparr>CtxDevice = deviceID, CtxPush = pushID,
                        CtxOccurredAt = momentOf bounded, CtxReadings = []\<rparr> bounded) s of
                  Inr (r, s') \<Rightarrow> (Inr r, s')
                | Inl e \<Rightarrow> if \<not> refusal e then (Inl e, s)
                           else recordAnswer p deviceID (rejected m e) s))))))"

definition visible :: "Result \<Rightarrow> Result" where
  "visible r = r\<lparr>ServerState := map_option withoutHidden (ServerState r)\<rparr>"

text \<open>A failure ends the queue; the mutations before it stand.\<close>

fun applyQueue :: "'w ports \<Rightarrow> ID \<Rightarrow> ID \<Rightarrow> Mutation list \<Rightarrow> 'w server \<Rightarrow> Result list result \<times> 'w server" where
  "applyQueue p deviceID pushID [] s = (Inr [], s)"
| "applyQueue p deviceID pushID (m # ms) s =
     (case apply_mutation p deviceID pushID m s of
        (Inl e, s') \<Rightarrow> (Inl e, s')
      | (Inr r, s') \<Rightarrow>
          (case applyQueue p deviceID pushID ms s' of
             (Inl e, s'') \<Rightarrow> (Inl e, s'')
           | (Inr rs, s'') \<Rightarrow> (Inr (visible r # rs), s'')))"

definition PushLimit :: nat where
  "PushLimit = 500"

record PushRequest =
  ReqContact :: Contact
  Mutations :: "Mutation list"

record PushResponse =
  Results :: "Result list"
  Cursor :: "int \<times> time"

definition touch :: "'w ports \<Rightarrow> PushRequest \<Rightarrow> 'w server \<Rightarrow> 'w server result" where
  "touch p request s =
     (case Touch p of
        None \<Rightarrow> Inr s
      | Some touchDevice \<Rightarrow>
          rbind (Contact_Validate (ReqContact request)) (\<lambda>c.
          rbind (touchDevice (ContactDeviceID c) (Platform c) (DisplayName c) (World s)) (\<lambda>w.
          Inr (s\<lparr>World := w\<rparr>))))"

definition push :: "'w ports \<Rightarrow> ID \<Rightarrow> PushRequest \<Rightarrow> 'w server \<Rightarrow> PushResponse result \<times> 'w server" where
  "push p pushID request s =
     (case PushScope p of
        Some e \<Rightarrow> (Inl e, s)
      | None \<Rightarrow>
        if length (Mutations request) > PushLimit
        then (Inl (Failure (WithFields (WithParams (WithDetail ErrValidation ''sync.push_too_large'')
               [(''max'', ''500'')]) [field_error ''/mutations'' ''sync.push_too_large''])), s)
        else case touch p request s of
          Inl e \<Rightarrow> (Inl e, s)
        | Inr s1 \<Rightarrow>
          (case applyQueue p (ContactDeviceID (ReqContact request)) pushID (Mutations request) s1 of
            (Inl e, s2) \<Rightarrow> (Inl e, s2)
          | (Inr rs, s2) \<Rightarrow>
            (case Latest p (World s2) of
              Inl e \<Rightarrow> (Inl e, s2)
            | Inr latest \<Rightarrow> (Inr \<lparr>Results = rs, Cursor = latest\<rparr>, s2))))"

end
