(* ===== verification/Push_Laws.thy ===== *)
theory Push_Laws
  imports Push
begin

text \<open>
  The laws of the push: an answer survives the operation log, a mutation takes effect at most once and
  a repeated queue gets the same answers, a failed or rejected mutation leaves no trace in the world,
  every kind of the contract is served, and the readings of fields converge.
\<close>

section \<open>Answers in the operation log\<close>

lemma paramsOf_output [simp]: "paramsOf (JObj (paramsOutput ps)) = ps"
  by (induction ps) (auto simp: paramsOutput_def List.map_filter_simps)

declare paramsOf.simps(1) [simp del]

lemma stringOf_idOrNil [simp]: "stringOf (idOrNilOf i) = i"
  by (simp add: idOrNilOf_def)

lemma fieldFrom_entry [simp]: "fieldFrom (fieldEntry f) = Some f"
  by (cases f) (auto simp: fieldEntry_def)

lemma map_filter_all: "(\<And>x. f (g x) = Some x) \<Longrightarrow> List.map_filter f (map g xs) = xs"
  by (induction xs) (simp_all add: List.map_filter_simps)

lemma errorFrom_output [simp]:
  "(case errorOutput e of JObj out \<Rightarrow> Some (errorFrom out) | _ \<Rightarrow> None) = Some e"
  by (cases e) (auto simp: errorOutput_def errorFrom_def map_filter_all)

lemma conflictFrom_output [simp]:
  "(case conflictOutput c of JObj out \<Rightarrow> Some (conflictFrom out) | _ \<Rightarrow> None) = Some c"
  by (cases c) (simp add: conflictOutput_def conflictFrom_def)

lemma withoutHidden_idem [simp]: "withoutHidden (withoutHidden state) = withoutHidden state"
proof -
  have "map_of (filter (\<lambda>(key, _). key \<noteq> ''hidden'') state) ''hidden'' = None"
    by (auto simp: map_of_eq_None_iff)
  then show ?thesis by (simp add: withoutHidden_def)
qed

lemma visible_idem [simp]: "visible (visible r) = visible r"
  by (cases r) (simp add: visible_def option.map_comp comp_def)

lemma visible_simps [simp]:
  "ResOpID (visible r) = ResOpID r" "Outcome (visible r) = Outcome r"
  by (simp_all add: visible_def)

lemma recorded_answer: "resultFromRecord (recordOf deviceID r at) = visible r"
  by (cases r) (simp add: resultFromRecord_def recordOf_def resultOutput_def visible_def split: option.split)

section \<open>Steps\<close>

lemma sbind_eq_Inr [go_result]:
  "sbind m f w = Inr y \<longleftrightarrow> (\<exists>a w'. m w = Inr (a, w') \<and> f a w' = Inr y)"
  by (auto simp: sbind_def go_result)

lemma sreturn_eq_Inr [go_result]: "sreturn a w = Inr y \<longleftrightarrow> y = (a, w)"
  by (auto simp: sreturn_def)

lemma sfail_eq_Inr [go_result]: "sfail e w = Inr y \<longleftrightarrow> False"
  by (simp add: sfail_def)

lemma sguard_eq_Inr [go_result]: "sguard c m w = Inr y \<longleftrightarrow> c = None \<and> m w = Inr y"
  by (simp add: sguard_def go_result)

lemma sread_eq_Inr [go_result]: "sread f w = Inr y \<longleftrightarrow> (\<exists>a. f w = Inr a \<and> y = (a, w))"
  by (auto simp: sread_def go_result)

text \<open>What an applier answers names the operation and is never a rejection.\<close>

definition answers :: "Mutation \<Rightarrow> Result \<Rightarrow> bool" where
  "answers m r \<longleftrightarrow> ResOpID r = OpID m \<and> Outcome r \<in> {Applied, Merged, Conflict}"

lemma answers_result [simp]: "answers m (result m kind i state) \<longleftrightarrow> kind \<in> {Applied, Merged, Conflict}"
  by (simp add: answers_def result_def)

lemma answers_update [simp]:
  "answers m (r\<lparr>ResConflict := c\<rparr>) = answers m r"
  "answers m (r\<lparr>ResEntityID := i\<rparr>) = answers m r"
  "answers m (r\<lparr>ResEntityID := i, ServerState := state\<rparr>) = answers m r"
  by (simp_all add: answers_def)

lemma answers_entityApplied [simp]: "answers m (entityApplied m out)"
  by (simp add: entityApplied_def)

lemma writersOf_None: "writersOf e = None \<longleftrightarrow> \<not> Entity_Valid e"
  by (simp add: writersOf_def Entity_Valid_def Entities_def)

lemma patch_answers: "patch p ctx m w = Inr (r, w') \<Longrightarrow> answers m r"
  by (auto simp: patch_def Let_def go_result split: if_splits)

lemma move_answers: "move p ctx m w = Inr (r, w') \<Longrightarrow> answers m r"
  by (auto simp: move_def Let_def go_result split: if_splits)

lemma setChange_answers: "setChange p ctx m w = Inr (r, w') \<Longrightarrow> answers m r"
  by (auto simp: setChange_def Let_def go_result split: if_splits option.splits)

lemma acts_answer:
  "create p ctx m w = Inr (r, w') \<Longrightarrow> answers m r"
  "trash p ctx m w = Inr (r, w') \<Longrightarrow> answers m r"
  "comment p ctx m w = Inr (r, w') \<Longrightarrow> answers m r"
  "template p ctx m w = Inr (r, w') \<Longrightarrow> answers m r"
  by (auto simp: create_def trash_def comment_def template_def go_result split: if_splits)

lemma removeEntity_answers: "removeEntity p ctx m writers w = Inr (r, w') \<Longrightarrow> answers m r"
  by (auto simp: removeEntity_def Let_def split: sum.splits if_splits)

lemma upsertEntity_answers: "upsertEntity p ctx m writers w = Inr (r, w') \<Longrightarrow> answers m r"
  by (auto simp: upsertEntity_def Let_def go_result split: sum.splits if_splits json.splits bool.splits)

lemma applyEntity_answers: "applyEntity p ctx m w = Inr (r, w') \<Longrightarrow> answers m r"
  by (auto simp: applyEntity_def writersOf_None judgeEntity_def go_result
      split: option.splits if_splits dest: removeEntity_answers upsertEntity_answers)

lemma entityChange_answers: "entityChange p ctx m w = Inr (r, w') \<Longrightarrow> answers m r"
  by (auto simp: entityChange_def go_result split: if_splits dest: applyEntity_answers)

lemma recurrence_answers: "recurrence p ctx m shape w = Inr (r, w') \<Longrightarrow> answers m r"
  by (auto simp: recurrence_def recurrenceCreated_def recurrenceMerged_def Let_def go_result answers_def result_def
      split: sum.splits if_splits)

lemma familyRecord_answers: "familyRecord p ctx m w = Inr (r, w') \<Longrightarrow> answers m r"
  by (auto simp: familyRecord_def familyCreated_def familyDeleted_def familyFields_def go_result
      split: option.splits if_splits Shape.splits dest: recurrence_answers)

lemmas applier_answers = patch_answers move_answers setChange_answers acts_answer
  entityChange_answers familyRecord_answers

lemma appliers_cases:
  "appliers p kind = Some a \<Longrightarrow>
   a \<in> {familyRecord p, create p, patch p, trash p, move p, setChange p, comment p, template p, entityChange p}"
  by (simp add: appliers_def split: if_split_asm)

lemma appliers_answer: "appliers p kind = Some a \<Longrightarrow> a ctx m w = Inr (r, w') \<Longrightarrow> answers m r"
  using appliers_cases [of p kind a] by (auto dest: applier_answers)

section \<open>The four ways of a mutation\<close>

text \<open>Refused before the log is asked.\<close>

definition early :: "Mutation \<Rightarrow> Result option" where
  "early m =
     (if IsZero (OpID m) \<or> \<not> IsUUIDv7 (OpID m)
      then Some (rejected m (Failure (WithDetail ErrValidation ''sync.op_id_required'')))
      else if \<not> Kind_Valid (Kind m)
      then Some (rejected m (Failure (WithParams (WithDetail ErrValidation ''sync.kind_unknown'') [(''kind'', Kind m)])))
      else None)"

text \<open>Refused after it, without a record: an unreadable reading or a field for a later build.\<close>

definition late :: "'w ports \<Rightarrow> Mutation \<Rightarrow> Result option" where
  "late p m =
     (case bound p m of
        Inl e \<Rightarrow> Some (rejected m e)
      | Inr bounded \<Rightarrow>
          (case appliers p (Kind bounded) of
             None \<Rightarrow> Some (rejected m (Failure (WithParams (WithDetail ErrUnavailable ''sync.kind_unavailable'')
                      [(''kind'', Kind m)])))
           | Some _ \<Rightarrow> (case judge p bounded of
               Some e \<Rightarrow> if \<not> refusal e then Some (rejected m e) else None
             | None \<Rightarrow> None)))"

lemma apply_early: "early m = Some r \<Longrightarrow> apply_mutation p d i m s = (Inr r, s)"
  by (auto simp: early_def apply_mutation_def split: if_split_asm)

lemma early_None: "early m = None \<longleftrightarrow> \<not> IsZero (OpID m) \<and> IsUUIDv7 (OpID m) \<and> Kind_Valid (Kind m)"
  by (simp add: early_def)

lemma apply_unreadable: "early m = None \<Longrightarrow> FindFails p (OpID m) = Some e \<Longrightarrow> apply_mutation p d i m s = (Inl e, s)"
  by (simp add: early_None apply_mutation_def opsFind_def)

lemma apply_found:
  "early m = None \<Longrightarrow> FindFails p (OpID m) = None \<Longrightarrow> FindSyncOp (OpLog s) (OpID m) = Some rec \<Longrightarrow>
   apply_mutation p d i m s = (Inr (resultFromRecord rec), s)"
  by (simp add: early_None apply_mutation_def opsFind_def)

lemma apply_late:
  "early m = None \<Longrightarrow> FindFails p (OpID m) = None \<Longrightarrow> FindSyncOp (OpLog s) (OpID m) = None \<Longrightarrow>
   late p m = Some r \<Longrightarrow> apply_mutation p d i m s = (Inr r, s)"
  by (auto simp: early_None apply_mutation_def opsFind_def late_def
      split: sum.split_asm option.split_asm if_split_asm)

lemma rejected_simps [simp]: "ResOpID (rejected m e) = OpID m" "Outcome (rejected m e) = Rejected"
  by (simp_all add: rejected_def Let_def)

lemma bound_keeps:
  assumes "bound p m = Inr b"
  shows "OpID b = OpID m" "Kind b = Kind m" "ItemID b = ItemID m" "MSet b = MSet m" "Entity b = Entity m"
    "EntityKey b = EntityKey m"
  using assms by (auto simp: bound_def go_result)

text \<open>
  Otherwise the mutation is settled one way: nothing happened and the push fails, a refusal is
  recorded in an unchanged world, or an effect and its record are written together.
\<close>

definition settles :: "'w ports \<Rightarrow> ID \<Rightarrow> Mutation \<Rightarrow> 'w server \<Rightarrow> Result result \<times> 'w server \<Rightarrow> bool" where
  "settles p d m s out \<longleftrightarrow>
     (\<exists>e. out = (Inl e, s))
   \<or> (\<exists>e w'. let r = rejected m e in w' = World s
        \<and> out = (Inr r, s\<lparr>World := w', OpLog := RecordSyncOp (OpLog s) (recordOf d r (Now p))\<rparr>))
   \<or> (\<exists>r w'. answers m r
        \<and> out = (Inr r, s\<lparr>World := w', OpLog := RecordSyncOp (OpLog s) (recordOf d r (Now p))\<rparr>))"

lemma recordAnswer_settles: "settles p d m s (recordAnswer p d (rejected m e) s)"
  unfolding settles_def Let_def
  by (cases "RecordFails p (OpID m)") (auto simp: recordAnswer_def opsRecord_def recordOf_def intro!: exI [of _ e])

lemma effect_settles:
  assumes "appliers p kind = Some a" "OpID b = OpID m"
  shows "settles p d m s (case effect p d (a ctx b) s of
      Inr (r, s') \<Rightarrow> (Inr r, s')
    | Inl e \<Rightarrow> if \<not> refusal e then (Inl e, s) else recordAnswer p d (rejected m e) s)"
proof (cases "effect p d (a ctx b) s")
  case (Inl e)
  then show ?thesis
  proof (cases "refusal e")
    case True
    with Inl show ?thesis by (simp add: recordAnswer_settles)
  next
    case False
    with Inl show ?thesis by (simp add: settles_def)
  qed
next
  case (Inr out)
  then obtain r w' s' where out: "out = (r, s')" and step: "a ctx b (World s) = Inr (r, w')"
    and rec: "opsRecord p (recordOf d r (Now p)) (s\<lparr>World := w'\<rparr>) = Inr s'"
    by (auto simp: effect_def go_result)
  have "answers m r" using appliers_answer [OF assms(1) step] assms(2) by (simp add: answers_def)
  moreover have "s' = s\<lparr>World := w', OpLog := RecordSyncOp (OpLog s) (recordOf d r (Now p))\<rparr>"
    using rec by (auto simp: opsRecord_def go_result)
  ultimately show ?thesis using Inr out unfolding settles_def by auto
qed

lemma apply_settles:
  assumes "early m = None" "FindFails p (OpID m) = None" "FindSyncOp (OpLog s) (OpID m) = None" "late p m = None"
  shows "settles p d m s (apply_mutation p d i m s)"
proof -
  obtain b a where b: "bound p m = Inr b" and a: "appliers p (Kind b) = Some a"
    and judged: "\<forall>e. judge p b = Some e \<longrightarrow> refusal e"
    using assms(4) by (auto simp: late_def split: sum.split_asm option.split_asm if_split_asm)
  note keeps = bound_keeps [OF b]
  show ?thesis
  proof (cases "judge p b")
    case (Some e)
    then show ?thesis
      using assms b a judged recordAnswer_settles by (auto simp: early_None apply_mutation_def opsFind_def)
  next
    case None
    note here = assms(1-3) b a None
    consider (fails) e where "purged p b (World s) = Inl e" | (gone) "purged p b (World s) = Inr True"
      | (held) "purged p b (World s) = Inr False"
      by (cases "purged p b (World s)") auto
    then show ?thesis
    proof cases
      case fails
      then show ?thesis using here by (auto simp: early_None apply_mutation_def opsFind_def settles_def)
    next
      case gone
      then show ?thesis
        using here recordAnswer_settles by (auto simp: early_None apply_mutation_def opsFind_def)
    next
      case held
      show ?thesis
        using here held effect_settles [OF a bound_keeps(1) [OF b]]
        by (simp add: early_None apply_mutation_def opsFind_def)
    qed
  qed
qed

section \<open>The log\<close>

lemma FindSyncOp_append: "FindSyncOp (log @ [r]) i =
    (case FindSyncOp log i of None \<Rightarrow> if RecOpID r = i then Some r else None | Some r' \<Rightarrow> Some r')"
  by (induction log) (simp_all add: FindSyncOp_def)

lemma FindSyncOp_record: "FindSyncOp (RecordSyncOp log r) i =
    (case FindSyncOp log i of None \<Rightarrow> if RecOpID r = i then Some r else None | Some r' \<Rightarrow> Some r')"
  by (auto simp: RecordSyncOp_def FindSyncOp_append split: option.split)

lemma RecOpID_recordOf [simp]: "RecOpID (recordOf d r at) = ResOpID r"
  by (simp add: recordOf_def)

text \<open>What a repeat of the mutation will be answered with, read off the log.\<close>

definition answered :: "'w ports \<Rightarrow> Mutation \<Rightarrow> Result \<Rightarrow> OpRecord list \<Rightarrow> bool" where
  "answered p m r log \<longleftrightarrow> early m = Some r \<or>
     (early m = None \<and> FindFails p (OpID m) = None \<and>
       (case FindSyncOp log (OpID m) of
          Some rec \<Rightarrow> visible (resultFromRecord rec) = visible r
        | None \<Rightarrow> late p m = Some r))"

lemma answered_repeat:
  assumes "answered p m r (OpLog s)"
  shows "\<exists>r'. apply_mutation p d i m s = (Inr r', s) \<and> visible r' = visible r"
  using assms by (auto simp: answered_def apply_early apply_found apply_late split: option.split_asm)

lemma resultFromRecord_visible [simp]: "visible (resultFromRecord (recordOf d r at)) = visible r"
  by (simp add: recorded_answer)

text \<open>The way of any mutation: refused or found without a change, or settled.\<close>

lemma apply_ways:
  assumes "apply_mutation p d i m s = (out, s')"
  shows "(s' = s \<and> (case out of Inl _ \<Rightarrow> True | Inr r \<Rightarrow> answered p m r (OpLog s)))
    \<or> (early m = None \<and> FindFails p (OpID m) = None \<and> FindSyncOp (OpLog s) (OpID m) = None \<and> settles p d m s (out, s'))"
proof -
  consider (early) r where "early m = Some r"
    | (unreadable) e where "early m = None" "FindFails p (OpID m) = Some e"
    | (found) rec where "early m = None" "FindFails p (OpID m) = None" "FindSyncOp (OpLog s) (OpID m) = Some rec"
    | (late) r where "early m = None" "FindFails p (OpID m) = None" "FindSyncOp (OpLog s) (OpID m) = None" "late p m = Some r"
    | (settles) "early m = None" "FindFails p (OpID m) = None" "FindSyncOp (OpLog s) (OpID m) = None" "late p m = None"
    by (metis option.exhaust)
  then show ?thesis
  proof cases
    case settles
    then show ?thesis using apply_settles [OF settles] assms by metis
  qed (use assms in \<open>auto simp: apply_early apply_unreadable apply_found apply_late answered_def\<close>)
qed

lemma apply_answered:
  assumes "apply_mutation p d i m s = (Inr r, s')"
  shows "answered p m r (OpLog s')"
  using apply_ways [OF assms]
  by (auto simp: settles_def Let_def answered_def FindSyncOp_record answers_def)

lemma apply_other_ops:
  assumes "apply_mutation p d i m s = (out, s')" "j \<noteq> OpID m"
  shows "FindSyncOp (OpLog s') j = FindSyncOp (OpLog s) j"
  using apply_ways [OF assms(1)] assms(2)
  by (auto simp: settles_def Let_def FindSyncOp_record answers_def split: option.split)

lemma answered_other:
  assumes "apply_mutation p d i m s = (out, s')" "OpID m' \<noteq> OpID m" "answered q m' r (OpLog s)"
  shows "answered q m' r (OpLog s')"
  using assms(3) by (simp add: answered_def apply_other_ops [OF assms(1,2)])

lemma queue_other_ops:
  "applyQueue p d i ms s = (out, s') \<Longrightarrow> j \<notin> OpID ` set ms \<Longrightarrow>
   FindSyncOp (OpLog s') j = FindSyncOp (OpLog s) j"
proof (induction ms arbitrary: s out s')
  case (Cons m ms)
  obtain x s1 where first: "apply_mutation p d i m s = (x, s1)" by fastforce
  have head: "FindSyncOp (OpLog s1) j = FindSyncOp (OpLog s) j"
    using apply_other_ops [OF first] Cons.prems(2) by simp
  obtain y s2 where rest: "applyQueue p d i ms s1 = (y, s2)" by fastforce
  have "FindSyncOp (OpLog s2) j = FindSyncOp (OpLog s1) j"
    using Cons.IH [OF rest] Cons.prems(2) by simp
  then show ?case using Cons.prems(1) first rest head by (cases x; cases y) auto
qed simp

lemma queue_answered:
  assumes "applyQueue p d i ms s = (Inr rs, s')" "distinct (map OpID ms)"
  shows "list_all2 (\<lambda>m r. \<exists>r0. visible r0 = r \<and> answered p m r0 (OpLog s')) ms rs"
  using assms
proof (induction ms arbitrary: s rs)
  case (Cons m ms)
  obtain r s1 rs1 where first: "apply_mutation p d i m s = (Inr r, s1)"
    and rest: "applyQueue p d i ms s1 = (Inr rs1, s')" and rs: "rs = visible r # rs1"
    using Cons.prems(1) by (auto split: prod.splits sum.splits)
  have "FindSyncOp (OpLog s') (OpID m) = FindSyncOp (OpLog s1) (OpID m)"
    using queue_other_ops [OF rest] Cons.prems(2) by simp
  then have "answered p m r (OpLog s')"
    using apply_answered [OF first] by (simp add: answered_def)
  then show ?case using Cons.IH [OF rest] Cons.prems(2) rs by auto
qed simp

lemma queue_repeat:
  "list_all2 (\<lambda>m r. \<exists>r0. visible r0 = r \<and> answered p m r0 (OpLog s)) ms rs \<Longrightarrow>
   applyQueue p d i ms s = (Inr rs, s)"
proof (induction ms rs rule: list_all2_induct)
  case (Cons m ms r rs)
  then obtain r0 where "visible r0 = r" "answered p m r0 (OpLog s)" by blast
  with answered_repeat [of p m r0 s d i] Cons show ?case by auto
qed simp

text \<open>Nothing of this depends on the moment of the repeat.\<close>

lemma boundOne_fails: "boundOne (p\<lparr>Now := t\<rparr>) raw = Inl e \<longleftrightarrow> boundOne p raw = Inl e"
  by (simp add: boundOne_def go_result)

lemma boundFields_fails: "boundFields (p\<lparr>Now := t\<rparr>) fs = Inl e \<longleftrightarrow> boundFields p fs = Inl e"
proof (induction fs)
  case (Cons f fs)
  obtain name field where f: "f = (name, field)" by fastforce
  show ?case
    using Cons boundOne_fails [of t p "ChangeHLC field"]
    by (cases "boundOne p (ChangeHLC field)"; cases "boundOne (p\<lparr>Now := t\<rparr>) (ChangeHLC field)")
      (auto simp: f go_result)
qed simp

lemma bound_fails: "bound (p\<lparr>Now := t\<rparr>) m = Inl e \<longleftrightarrow> bound p m = Inl e"
  using boundOne_fails [of t p "MHLC m"] boundFields_fails [of t p "MFields m"]
  by (cases "boundOne p (MHLC m)"; cases "boundOne (p\<lparr>Now := t\<rparr>) (MHLC m)") (auto simp: bound_def go_result)

lemma boundFields_names: "boundFields p fs = Inr bs \<Longrightarrow> map fst bs = map fst fs"
  by (induction fs arbitrary: bs) (auto simp: go_result)

lemma judge_bound:
  assumes "bound p m = Inr b"
  shows "judge q b = judge q m"
proof -
  obtain fs where "boundFields p (MFields m) = Inr fs" "MFields b = fs"
    using assms by (auto simp: bound_def rbind_eq_Inr)
  then have names: "map fst (MFields b) = map fst (MFields m)" using boundFields_names by blast
  show ?thesis unfolding judge_def judgeEntity_def bound_keeps [OF assms] names ..
qed

lemma late_Now: "late (p\<lparr>Now := t\<rparr>) m = late p m"
proof -
  have port: "judge (p\<lparr>Now := t\<rparr>) b = judge p b" for b
    by (simp add: judge_def setOwnerOf_def)
  have served: "(appliers (p\<lparr>Now := t\<rparr>) k = None) = (appliers p k = None)" for k
    by (simp add: appliers_def)
  show ?thesis
  proof (cases "bound p m")
    case (Inl e)
    then have "bound (p\<lparr>Now := t\<rparr>) m = Inl e" by (simp add: bound_fails)
    with Inl show ?thesis by (simp add: late_def)
  next
    case (Inr b)
    then obtain b' where b': "bound (p\<lparr>Now := t\<rparr>) m = Inr b'"
      using bound_fails [of t p m] by (cases "bound (p\<lparr>Now := t\<rparr>) m") auto
    have "judge (p\<lparr>Now := t\<rparr>) b' = judge p b"
      by (simp only: port judge_bound [OF Inr] judge_bound [OF b'])
    with Inr b' show ?thesis
      using served [of "Kind m"]
      by (cases "appliers p (Kind m)"; cases "appliers (p\<lparr>Now := t\<rparr>) (Kind m)")
        (simp_all add: late_def bound_keeps(2) [OF Inr] bound_keeps(2) [OF b'])
  qed
qed

lemma answered_Now: "answered (p\<lparr>Now := t\<rparr>) m r log = answered p m r log"
  by (simp add: answered_def late_Now split: option.split)

section \<open>Fields converge\<close>

text \<open>What the stored readings are after a batch: the winners are written under the device's reading.\<close>

definition stamped :: "(string \<Rightarrow> HLC option) \<Rightarrow> (string \<times> HLC) list \<Rightarrow> string \<Rightarrow> HLC option" where
  "stamped server sent = server ++ map_of (fst (Decide sent server))"

definition laterReading :: "HLC option \<Rightarrow> HLC option \<Rightarrow> HLC option" where
  "laterReading x y = (case (x, y) of (None, _) \<Rightarrow> y | (_, None) \<Rightarrow> x
     | (Some a, Some b) \<Rightarrow> Some (if After b a then b else a))"

definition mergeClocks :: "(string \<Rightarrow> HLC option) \<Rightarrow> (string \<Rightarrow> HLC option) \<Rightarrow> string \<Rightarrow> HLC option" where
  "mergeClocks a b f = laterReading (a f) (b f)"

interpretation field_clocks: state_merge "\<lambda>_. True" mergeClocks
proof
  fix a b c :: "string \<Rightarrow> HLC option"
  show "mergeClocks a b = mergeClocks b a"
    by (rule ext) (auto simp: mergeClocks_def laterReading_def After_key split: option.split dest: less_asym)
  show "mergeClocks (mergeClocks a b) c = mergeClocks a (mergeClocks b c)"
    by (rule ext) (auto simp: mergeClocks_def laterReading_def After_key split: option.split)
  show "mergeClocks a a = a"
    by (rule ext) (simp add: mergeClocks_def laterReading_def split: option.split)
qed simp

lemma map_of_filter_fst:
  "distinct (map fst readings) \<Longrightarrow>
   map_of (filter keeps readings) field =
     (case map_of readings field of Some v \<Rightarrow> if keeps (field, v) then Some v else None | None \<Rightarrow> None)"
proof (induction readings)
  case (Cons x xs)
  moreover have "fst x \<notin> fst ` set xs \<Longrightarrow> map_of xs (fst x) = None" by (simp add: map_of_eq_None_iff)
  ultimately show ?case by (cases x) auto
qed simp

lemma stamped_merge: "distinct (map fst sent) \<Longrightarrow> stamped server sent = mergeClocks server (map_of sent)"
  by (rule ext) (auto simp: stamped_def Decide_def loses_def mergeClocks_def laterReading_def map_add_def
      map_of_filter_fst split: option.split)

section \<open>An example server\<close>

text \<open>A world that counts the calls it served, and the creation of one item.\<close>

definition exampleServer :: "int ports" where
  "exampleServer = \<lparr>Invoke = (\<lambda>_ _ _ n. Inr ([(''seen'', JInt (n + 1))], n + 1)), Clocks = None, Tombstones = None,
     Labels = None, Members = None, Attachments = None, RecordStep = None, FileDisplaced = None, Touch = None,
     Latest = (\<lambda>n. Inr (n, 0)), FindFails = (\<lambda>_. None), RecordFails = (\<lambda>_. None), Now = 5, Skew = 0,
     RFC3339 = (\<lambda>_. ''''), AccountID = ''acc'', PushScope = None\<rparr>"

definition exampleCreate :: Mutation where
  "exampleCreate = \<lparr>OpID = ''0192f000-0000-7000-8000-0000000000d1'', Kind = ItemCreate, ItemID = ''x'',
     BaseVersion = None, MFields = [], MSet = '''', Element = '''', MHLC = '''', Payload = [], Entity = '''',
     EntityKey = '''', EntityID = '''', ContainerID = ''''\<rparr>"

definition exampleBroken :: "int ports" where
  "exampleBroken = exampleServer\<lparr>RecordFails := (\<lambda>_. Some (Failure ErrUnavailable))\<rparr>"

definition exampleAfter :: "int server" where
  "exampleAfter = \<lparr>World = 1, OpLog = [recordOf ''d'' (result exampleCreate Applied ''x'' (Some [(''seen'', JInt 1)])) 5]\<rparr>"

lemma example_run:
  "applyQueue exampleServer ''d'' ''p'' [exampleCreate] \<lparr>World = 0, OpLog = []\<rparr>
     = (Inr [(result exampleCreate Applied ''x'' (Some [(''seen'', JInt 1)]))], exampleAfter)"
  by code_simp

section \<open>Properties\<close>




text \<open>
  C17. All or nothing: a mutation whose push fails leaves the server as it was, and a rejected one
  leaves the world as it was.
\<close>

theorem apply_atomic:
  assumes "apply_mutation p d i m s = (out, s')"
  shows "case out of Inl e \<Rightarrow> s' = s | Inr r \<Rightarrow> World s' = World s \<or> Outcome r \<in> {Applied, Merged, Conflict}"
  using apply_ways [OF assms] by (auto simp: settles_def Let_def answers_def split: sum.split)

theorem apply_atomic_witness:
  "snd (apply_mutation exampleBroken ''d'' ''p'' exampleCreate \<lparr>World = 0, OpLog = []\<rparr>) = \<lparr>World = 0, OpLog = []\<rparr>"
proof -
  have "fst (apply_mutation exampleBroken ''d'' ''p'' exampleCreate \<lparr>World = 0, OpLog = []\<rparr>)
      = Inl (Failure ErrUnavailable)" by code_simp
  then have run: "apply_mutation exampleBroken ''d'' ''p'' exampleCreate \<lparr>World = 0, OpLog = []\<rparr>
      = (Inl (Failure ErrUnavailable), snd (apply_mutation exampleBroken ''d'' ''p'' exampleCreate \<lparr>World = 0, OpLog = []\<rparr>))"
    by (metis prod.collapse)
  show ?thesis using apply_atomic [OF run] by simp
qed

text \<open>Every kind of the contract is applied by this build, and no other.\<close>

theorem appliers_total: "appliers p kind \<noteq> None \<longleftrightarrow> Kind_Valid kind"
  by (simp add: appliers_def Kind_Valid_def MutationKinds_def FamilyOf_def)



end
