(* ===== verification/Access.thy ===== *)
theory Access
  imports Ids Go_Strings
begin

text \<open>
  Roles, scopes and the permission matrix, from \<^verbatim>\<open>core/domain/model/identity/Membership.go\<close> and
  \<^verbatim>\<open>CustomRole.go\<close>, and the decisions over them, from \<^verbatim>\<open>core/domain/service\<close>: \<^verbatim>\<open>Authorization.go\<close>,
  \<^verbatim>\<open>ItemAccess.go\<close> and \<^verbatim>\<open>PermissionCatalogue.go\<close>.  A role is a string in Go; the seven shipped ones are
  constructors and any other text is \<open>OtherRole\<close>.  A permission stays a string, because a whole family
  of permissions is told by a prefix.
\<close>

section \<open>Roles and scopes\<close>

datatype Role = RoleOwner | RoleAdmin | RoleMember | RoleContributor | RoleViewer | RoleGuest | RoleAuditor
  | OtherRole string

definition Roles :: "Role list" where
  "Roles = [RoleOwner, RoleAdmin, RoleMember, RoleContributor, RoleViewer, RoleGuest, RoleAuditor]"

definition Role_Valid :: "Role \<Rightarrow> bool" where
  "Role_Valid r = List.member Roles r"

text \<open>\<^verbatim>\<open>slices.Index\<close>: the first position, or none.\<close>

fun indexOf :: "'a list \<Rightarrow> 'a \<Rightarrow> nat option" where
  "indexOf [] x = None"
| "indexOf (y # ys) x = (if y = x then Some 0 else map_option Suc (indexOf ys x))"

definition AtLeast :: "Role \<Rightarrow> Role \<Rightarrow> bool" where
  "AtLeast r other =
     (case (indexOf Roles r, indexOf Roles other) of
        (Some mine, Some theirs) \<Rightarrow> mine \<le> theirs
      | _ \<Rightarrow> False)"

definition strongestStep :: "Role option \<Rightarrow> Role \<Rightarrow> Role option" where
  "strongestStep best role =
     (case best of None \<Rightarrow> Some role | Some b \<Rightarrow> if AtLeast role b then Some role else best)"

definition Strongest :: "Role list \<Rightarrow> Role option" where
  "Strongest held = foldl strongestStep None (filter Role_Valid held)"

datatype ScopeType = ScopeTenant | ScopeHub | ScopeCollection | ScopeItem | OtherScope string

record Scope =
  ScopeKind :: ScopeType
  ScopeID :: ID

definition TenantScope :: Scope where
  "TenantScope = \<lparr>ScopeKind = ScopeTenant, ScopeID = ''''\<rparr>"

definition HubScope :: "ID \<Rightarrow> Scope" where
  "HubScope i = \<lparr>ScopeKind = ScopeHub, ScopeID = i\<rparr>"

definition CollectionScope :: "ID \<Rightarrow> Scope" where
  "CollectionScope i = \<lparr>ScopeKind = ScopeCollection, ScopeID = i\<rparr>"

definition ItemScope :: "ID \<Rightarrow> Scope" where
  "ItemScope i = \<lparr>ScopeKind = ScopeItem, ScopeID = i\<rparr>"

definition Scope_Valid :: "Scope \<Rightarrow> bool" where
  "Scope_Valid s =
     (case ScopeKind s of
        ScopeTenant \<Rightarrow> IsZero (ScopeID s)
      | ScopeHub \<Rightarrow> \<not> IsZero (ScopeID s)
      | ScopeCollection \<Rightarrow> \<not> IsZero (ScopeID s)
      | ScopeItem \<Rightarrow> \<not> IsZero (ScopeID s)
      | OtherScope _ \<Rightarrow> False)"

record Membership =
  AccountID :: ID
  MScope :: Scope
  MRole :: Role
  Custom :: string
  Permissions :: "string list"

definition IsCustom :: "Membership \<Rightarrow> bool" where
  "IsCustom m = (Custom m \<noteq> '''')"

section \<open>The matrix\<close>

type_synonym Permission = string

abbreviation "PermissionRead \<equiv> ''READ''"
abbreviation "PermissionWriteItems \<equiv> ''WRITE_ITEMS''"
abbreviation "PermissionStructure \<equiv> ''STRUCTURE''"
abbreviation "PermissionManageMembers \<equiv> ''MANAGE_MEMBERS''"
abbreviation "PermissionAutomation \<equiv> ''AUTOMATION''"
abbreviation "PermissionDeleteContainer \<equiv> ''DELETE_CONTAINER''"
abbreviation "PermissionReadConfiguration \<equiv> ''READ_CONFIGURATION''"
abbreviation "PermissionAuditRead \<equiv> ''AUDIT_READ''"
abbreviation "PermissionComment \<equiv> ''COMMENT''"
abbreviation "PermissionWriteAssigned \<equiv> ''WRITE_ASSIGNED''"
abbreviation "PermissionRequest \<equiv> ''REQUEST''"
abbreviation "PermissionApproveTime \<equiv> ''APPROVE_TIME''"
abbreviation "PermissionManageCosts \<equiv> ''MANAGE_COSTS''"

datatype PermissionKind = KindBase | KindField | KindStep

definition Permission_Kind :: "Permission \<Rightarrow> PermissionKind" where
  "Permission_Kind p =
     (if hasPrefix p ''FIELD_WRITE:'' \<or> hasPrefix p ''FIELD_READ:'' then KindField
      else if hasPrefix p ''TAKE_STEP:'' then KindStep
      else KindBase)"

definition FieldWrite :: "string \<Rightarrow> Permission" where
  "FieldWrite fieldKey = ''FIELD_WRITE:'' @ fieldKey"

definition FieldRead :: "string \<Rightarrow> Permission" where
  "FieldRead fieldKey = ''FIELD_READ:'' @ fieldKey"

definition TakeStep :: "string \<Rightarrow> string \<Rightarrow> Permission" where
  "TakeStep workflowKey stepKey = ''TAKE_STEP:'' @ workflowKey @ ''/'' @ stepKey"

definition SeesField :: "(Permission \<Rightarrow> bool) \<Rightarrow> string \<Rightarrow> bool" where
  "SeesField carries fieldKey = (carries (FieldRead fieldKey) \<or> carries (FieldWrite fieldKey))"

fun rolePermissions :: "Role \<Rightarrow> Permission list" where
  "rolePermissions RoleOwner =
     [PermissionRead, PermissionWriteItems, PermissionStructure,
      PermissionManageMembers, PermissionAutomation, PermissionDeleteContainer,
      PermissionReadConfiguration, PermissionAuditRead]"
| "rolePermissions RoleAdmin =
     [PermissionRead, PermissionWriteItems, PermissionStructure,
      PermissionManageMembers, PermissionAutomation, PermissionReadConfiguration,
      PermissionAuditRead]"
| "rolePermissions RoleMember = [PermissionRead, PermissionWriteItems, PermissionAutomation]"
| "rolePermissions RoleContributor = [PermissionRead, PermissionWriteItems]"
| "rolePermissions RoleViewer = [PermissionRead]"
| "rolePermissions RoleGuest = [PermissionRead]"
| "rolePermissions RoleAuditor = [PermissionReadConfiguration, PermissionAuditRead]"
| "rolePermissions (OtherRole _) = []"

definition PermissionsOf :: "Role \<Rightarrow> Permission list" where
  "PermissionsOf role = rolePermissions role"

definition familyHolders :: "Role list" where
  "familyHolders = [RoleOwner, RoleAdmin]"

definition RoleAllows :: "Role \<Rightarrow> Permission \<Rightarrow> bool" where
  "RoleAllows role permission =
     (if Permission_Kind permission \<noteq> KindBase then List.member familyHolders role
      else List.member (rolePermissions role) permission)"

datatype Privacy = SharedPath | PrivatePath

definition onPath :: "Scope \<Rightarrow> Scope list \<Rightarrow> bool" where
  "onPath scope path = list_ex (\<lambda>step. ScopeKind step = ScopeKind scope \<and> ScopeID step = ScopeID scope) path"

definition counts :: "Membership \<Rightarrow> Scope list \<Rightarrow> Privacy \<Rightarrow> bool" where
  "counts membership path privacy =
     (if \<not> Role_Valid (MRole membership) \<and> \<not> IsCustom membership \<or> \<not> onPath (MScope membership) path
      then False
      else privacy = SharedPath \<or> ScopeKind (MScope membership) \<noteq> ScopeTenant)"

fun effectiveLoop :: "Role option \<Rightarrow> Membership list \<Rightarrow> Scope list \<Rightarrow> Privacy \<Rightarrow> Role option" where
  "effectiveLoop best [] path privacy = best"
| "effectiveLoop best (membership # rest) path privacy =
     (if \<not> counts membership path privacy \<or> IsCustom membership then effectiveLoop best rest path privacy
      else effectiveLoop (strongestStep best (MRole membership)) rest path privacy)"

definition EffectiveRole :: "Membership list \<Rightarrow> Scope list \<Rightarrow> Privacy \<Rightarrow> Role option" where
  "EffectiveRole memberships path privacy = effectiveLoop None memberships path privacy"

definition customAllows :: "string list \<Rightarrow> Permission \<Rightarrow> bool" where
  "customAllows permissions permission = List.member permissions permission"

fun Allows :: "Membership list \<Rightarrow> Scope list \<Rightarrow> Privacy \<Rightarrow> Permission \<Rightarrow> bool" where
  "Allows [] path privacy permission = False"
| "Allows (membership # rest) path privacy permission =
     (if \<not> counts membership path privacy then Allows rest path privacy permission
      else if IsCustom membership
      then (if customAllows (Permissions membership) permission then True
            else Allows rest path privacy permission)
      else if RoleAllows (MRole membership) permission then True
      else Allows rest path privacy permission)"

definition columns :: "Permission list" where
  "columns = [PermissionRead, PermissionWriteItems, PermissionStructure, PermissionManageMembers,
     PermissionAutomation, PermissionDeleteContainer, PermissionReadConfiguration, PermissionAuditRead,
     PermissionWriteAssigned, PermissionComment, PermissionRequest]"

definition heldName :: "Permission list \<Rightarrow> string \<Rightarrow> Permission list" where
  "heldName held name =
     (if Permission_Kind name \<noteq> KindBase \<and> \<not> List.member held name then held @ [name] else held)"

definition heldMembership :: "Scope list \<Rightarrow> Privacy \<Rightarrow> Permission list \<Rightarrow> Membership \<Rightarrow> Permission list" where
  "heldMembership path privacy held membership =
     (if \<not> IsCustom membership \<or> \<not> counts membership path privacy then held
      else foldl heldName held (Permissions membership))"

definition Held :: "Membership list \<Rightarrow> Scope list \<Rightarrow> Privacy \<Rightarrow> Permission list" where
  "Held memberships path privacy =
     foldl (heldMembership path privacy) (filter (Allows memberships path privacy) columns) memberships"

definition MayGrant :: "Membership list \<Rightarrow> Scope list \<Rightarrow> Privacy \<Rightarrow> Role \<Rightarrow> bool" where
  "MayGrant memberships path privacy role =
     (if \<not> Role_Valid role \<or> \<not> Allows memberships path privacy PermissionManageMembers then False
      else case EffectiveRole memberships path privacy of None \<Rightarrow> False | Some held \<Rightarrow> AtLeast held role)"

definition GrantableRoles :: "Membership list \<Rightarrow> Scope list \<Rightarrow> Privacy \<Rightarrow> Role list" where
  "GrantableRoles memberships path privacy = filter (MayGrant memberships path privacy) Roles"

section \<open>Reach over entries\<close>

datatype ItemAction = ItemRead | ItemCreate | ItemChange | ItemComment

datatype ItemAccess = AccessAll | AccessAssigned | AccessNone

fun roleItemAccess :: "Role \<Rightarrow> ItemAction \<Rightarrow> ItemAccess option" where
  "roleItemAccess RoleOwner _ = Some AccessAll"
| "roleItemAccess RoleAdmin _ = Some AccessAll"
| "roleItemAccess RoleMember _ = Some AccessAll"
| "roleItemAccess RoleContributor ItemRead = Some AccessAll"
| "roleItemAccess RoleContributor ItemCreate = Some AccessAll"
| "roleItemAccess RoleContributor ItemChange = Some AccessAssigned"
| "roleItemAccess RoleContributor ItemComment = Some AccessAssigned"
| "roleItemAccess RoleViewer ItemRead = Some AccessAll"
| "roleItemAccess RoleViewer ItemCreate = Some AccessNone"
| "roleItemAccess RoleViewer ItemChange = Some AccessNone"
| "roleItemAccess RoleViewer ItemComment = Some AccessNone"
| "roleItemAccess RoleGuest ItemRead = Some AccessAll"
| "roleItemAccess RoleGuest ItemCreate = Some AccessNone"
| "roleItemAccess RoleGuest ItemChange = Some AccessNone"
| "roleItemAccess RoleGuest ItemComment = Some AccessAll"
| "roleItemAccess RoleAuditor _ = Some AccessNone"
| "roleItemAccess (OtherRole _) _ = None"

definition ItemAccessOf :: "Role \<Rightarrow> ItemAction \<Rightarrow> ItemAccess" where
  "ItemAccessOf role action = (case roleItemAccess role action of None \<Rightarrow> AccessNone | Some access \<Rightarrow> access)"

datatype ItemVerdict = ItemPermitted | ItemRefusedByRole | ItemRefusedByAssignment

definition AllowsItemAction :: "Role \<Rightarrow> ItemAction \<Rightarrow> ID \<Rightarrow> ID \<Rightarrow> ItemVerdict" where
  "AllowsItemAction role action actorID assigneeID =
     (case ItemAccessOf role action of
        AccessAll \<Rightarrow> ItemPermitted
      | AccessAssigned \<Rightarrow>
          if \<not> IsZero assigneeID \<and> assigneeID = actorID then ItemPermitted else ItemRefusedByAssignment
      | AccessNone \<Rightarrow> ItemRefusedByRole)"

definition CustomItemAccess :: "string list \<Rightarrow> ItemAction \<Rightarrow> ItemAccess" where
  "CustomItemAccess permissions action =
     (let holds = customAllows permissions in
      case action of
        ItemRead \<Rightarrow> if holds PermissionRead then AccessAll else AccessNone
      | ItemCreate \<Rightarrow> if holds PermissionWriteItems \<or> holds PermissionWriteAssigned then AccessAll else AccessNone
      | ItemChange \<Rightarrow> if holds PermissionWriteItems then AccessAll
          else if holds PermissionWriteAssigned then AccessAssigned else AccessNone
      | ItemComment \<Rightarrow> if holds PermissionWriteItems \<or> holds PermissionComment then AccessAll
          else if holds PermissionWriteAssigned then AccessAssigned else AccessNone)"

definition membershipItemAccess :: "Membership \<Rightarrow> ItemAction \<Rightarrow> ItemAccess" where
  "membershipItemAccess membership action =
     (if IsCustom membership then CustomItemAccess (Permissions membership) action
      else ItemAccessOf (MRole membership) action)"

text \<open>The loop of \<^verbatim>\<open>ItemReach\<close> with its two running values.\<close>

fun reachLoop :: "ItemAccess \<Rightarrow> bool \<Rightarrow> Membership list \<Rightarrow> Scope list \<Rightarrow> Privacy \<Rightarrow> ItemAction
    \<Rightarrow> ItemAccess \<times> bool" where
  "reachLoop reach found [] path privacy action = (reach, found)"
| "reachLoop reach found (membership # rest) path privacy action =
     (if \<not> counts membership path privacy then reachLoop reach found rest path privacy action
      else case membershipItemAccess membership action of
             AccessAll \<Rightarrow> (AccessAll, True)
           | AccessAssigned \<Rightarrow> reachLoop AccessAssigned True rest path privacy action
           | AccessNone \<Rightarrow> reachLoop reach True rest path privacy action)"

definition ItemReach :: "Membership list \<Rightarrow> Scope list \<Rightarrow> Privacy \<Rightarrow> ItemAction \<Rightarrow> ItemAccess \<times> bool" where
  "ItemReach memberships path privacy action = reachLoop AccessNone False memberships path privacy action"

definition AllowsItemActionAlong :: "Membership list \<Rightarrow> Scope list \<Rightarrow> Privacy \<Rightarrow> ItemAction \<Rightarrow> ID \<Rightarrow> ID
    \<Rightarrow> ItemVerdict \<times> bool" where
  "AllowsItemActionAlong memberships path privacy action actorID assigneeID =
     (case ItemReach memberships path privacy action of
        (_, False) \<Rightarrow> (ItemRefusedByRole, False)
      | (AccessAll, True) \<Rightarrow> (ItemPermitted, True)
      | (AccessAssigned, True) \<Rightarrow>
          if \<not> IsZero assigneeID \<and> assigneeID = actorID then (ItemPermitted, True)
          else (ItemRefusedByAssignment, True)
      | (AccessNone, True) \<Rightarrow> (ItemRefusedByRole, True))"

definition HoldsAnything :: "Membership list \<Rightarrow> Scope list \<Rightarrow> Privacy \<Rightarrow> bool" where
  "HoldsAnything memberships path privacy = list_ex (\<lambda>m. counts m path privacy) memberships"

definition Counting :: "Membership list \<Rightarrow> Scope list \<Rightarrow> Privacy \<Rightarrow> Membership list" where
  "Counting memberships path privacy = filter (\<lambda>m. counts m path privacy) memberships"

definition IsRequester :: "Membership list \<Rightarrow> Scope list \<Rightarrow> Privacy \<Rightarrow> bool" where
  "IsRequester memberships path privacy =
     (Allows memberships path privacy PermissionRequest \<and> \<not> Allows memberships path privacy PermissionRead)"

section \<open>The catalogue and custom roles\<close>

definition basePermissions :: "(Permission \<times> string) list" where
  "basePermissions =
     [(PermissionRead, ''content''),
      (PermissionWriteItems, ''content''),
      (PermissionWriteAssigned, ''content''),
      (PermissionComment, ''content''),
      (PermissionStructure, ''how_we_work''),
      (PermissionAutomation, ''how_we_work''),
      (PermissionDeleteContainer, ''how_we_work''),
      (PermissionManageMembers, ''people''),
      (PermissionApproveTime, ''people''),
      (PermissionManageCosts, ''people''),
      (PermissionReadConfiguration, ''evidence''),
      (PermissionAuditRead, ''evidence''),
      (PermissionRequest, ''portal'')]"

record CatalogueEntry =
  EntryPermission :: Permission
  EntryKind :: PermissionKind
  Group :: string
  Shipped :: "Role list"

definition shippedHolding :: "Permission \<Rightarrow> Role list" where
  "shippedHolding permission = filter (\<lambda>role. RoleAllows role permission) Roles"

definition PermissionCatalogue :: "CatalogueEntry list" where
  "PermissionCatalogue =
     map (\<lambda>(p, g). \<lparr>EntryPermission = p, EntryKind = KindBase, Group = g, Shipped = shippedHolding p\<rparr>) basePermissions
     @ [\<lparr>EntryPermission = ''FIELD_WRITE:*'', EntryKind = KindField, Group = ''fields'', Shipped = familyHolders\<rparr>,
        \<lparr>EntryPermission = ''FIELD_READ:*'', EntryKind = KindField, Group = ''fields'', Shipped = familyHolders\<rparr>,
        \<lparr>EntryPermission = ''TAKE_STEP:*'', EntryKind = KindStep, Group = ''workflows'', Shipped = familyHolders\<rparr>]"

fun objectKeyFrom :: "nat \<Rightarrow> string \<Rightarrow> bool" where
  "objectKeyFrom i [] = True"
| "objectKeyFrom i (r # rest) =
     ((if CHR ''a'' \<le> r \<and> r \<le> CHR ''z'' then True
       else i > 0 \<and> ((CHR ''0'' \<le> r \<and> r \<le> CHR ''9'') \<or> r = CHR ''_''))
      \<and> objectKeyFrom (Suc i) rest)"

definition objectKey :: "string \<Rightarrow> bool" where
  "objectKey key = (if key = '''' \<or> length key > 50 then False else objectKeyFrom 0 key)"

definition permissionUnknown :: "string \<Rightarrow> failure" where
  "permissionUnknown name =
     Failure (WithParams (WithDetail ErrValidation ''roles.permission_unknown'') [(''permission'', name)])"

fun cutSlash :: "string \<Rightarrow> (string \<times> string) option" where
  "cutSlash [] = None"
| "cutSlash (c # s) = (if c = CHR ''/'' then Some ([], s) else map_option (\<lambda>(a, b). (c # a, b)) (cutSlash s))"

definition ParsePermission :: "string \<Rightarrow> Permission result" where
  "ParsePermission name =
     (case Permission_Kind name of
        KindField \<Rightarrow>
          if \<not> objectKey (trimPrefix (trimPrefix name ''FIELD_WRITE:'') ''FIELD_READ:'')
          then Inl (permissionUnknown name) else Inr name
      | KindStep \<Rightarrow>
          (case cutSlash (trimPrefix name ''TAKE_STEP:'') of
             None \<Rightarrow> Inl (permissionUnknown name)
           | Some (workflow, step) \<Rightarrow>
               if \<not> objectKey workflow \<or> \<not> objectKey step then Inl (permissionUnknown name) else Inr name)
      | KindBase \<Rightarrow>
          if \<not> List.member (map fst basePermissions) name then Inl (permissionUnknown name) else Inr name)"

definition handOutAction :: "Permission \<Rightarrow> ItemAction option" where
  "handOutAction permission =
     (if permission = PermissionComment then Some ItemComment
      else if permission = PermissionWriteAssigned then Some ItemCreate
      else if permission = PermissionRequest then Some ItemCreate
      else None)"

definition holdsToHandOut :: "Membership list \<Rightarrow> Scope list \<Rightarrow> Privacy \<Rightarrow> Permission \<Rightarrow> bool" where
  "holdsToHandOut memberships path privacy permission =
     (if Allows memberships path privacy permission then True
      else case handOutAction permission of
             None \<Rightarrow> False
           | Some action \<Rightarrow> list_ex (\<lambda>m. \<not> IsCustom m \<and> counts m path privacy \<and> ItemAccessOf (MRole m) action = AccessAll)
               memberships)"

definition MayHandOut :: "Membership list \<Rightarrow> Scope list \<Rightarrow> Privacy \<Rightarrow> string list \<Rightarrow> bool" where
  "MayHandOut memberships path privacy permissions =
     (Allows memberships path privacy PermissionManageMembers
      \<and> list_all (holdsToHandOut memberships path privacy) permissions)"

definition Lacking :: "Membership list \<Rightarrow> Scope list \<Rightarrow> Privacy \<Rightarrow> string list \<Rightarrow> string list" where
  "Lacking memberships path privacy permissions =
     filter (\<lambda>name. \<not> holdsToHandOut memberships path privacy name) permissions"

record CustomRole =
  RoleID :: ID
  RoleTenantID :: ID
  Key :: string
  Name :: string
  RolePermissions :: "string list"

definition MaxCustomRoleNameLength :: nat where
  "MaxCustomRoleNameLength = 120"

text \<open>The regular expression \<^verbatim>\<open>^[a-z][a-z0-9_]{1,62}$\<close>.\<close>

definition ValidCustomRoleKey :: "string \<Rightarrow> bool" where
  "ValidCustomRoleKey key = (2 \<le> length key \<and> length key \<le> 63 \<and> objectKeyFrom 0 key)"

definition NewCustomRole :: "ID \<Rightarrow> ID \<Rightarrow> string \<Rightarrow> string \<Rightarrow> string list \<Rightarrow> CustomRole result" where
  "NewCustomRole i tenantID key rawName permissions =
     (let name = TrimSpace rawName in
      if IsZero i \<or> IsZero tenantID then Inl (Failure (WithDetail ErrInternal ''roles.identity_incomplete''))
      else if \<not> ValidCustomRoleKey key
      then Inl (Failure (WithParams (WithDetail ErrValidation ''roles.key_invalid'') [(''key'', key)]))
      else if name = '''' \<or> RuneCountInString name > MaxCustomRoleNameLength \<or> containsControl name
      then Inl (Failure (WithDetail ErrValidation ''roles.name_invalid''))
      else Inr \<lparr>RoleID = i, RoleTenantID = tenantID, Key = key, Name = name,
                RolePermissions = remdups_adj (sort permissions)\<rparr>)"

fun parseAll :: "string list \<Rightarrow> failure option" where
  "parseAll [] = None"
| "parseAll (p # ps) = (case ParsePermission p of Inl e \<Rightarrow> Some e | Inr _ \<Rightarrow> parseAll ps)"

definition DefineRole :: "ID \<Rightarrow> ID \<Rightarrow> string \<Rightarrow> string \<Rightarrow> string list \<Rightarrow> CustomRole result" where
  "DefineRole i tenantID key name permissions =
     (if permissions = [] then Inl (Failure (WithDetail ErrValidation ''roles.permissions_empty''))
      else guarded (parseAll permissions) (NewCustomRole i tenantID key name permissions))"

record Grant =
  GrantID :: ID
  GrantTenantID :: ID
  GrantAccountID :: ID
  GrantGroupID :: ID
  GrantScope :: Scope
  GrantRole :: Role

fun roleName :: "Role \<Rightarrow> string" where
  "roleName RoleOwner = ''OWNER''"
| "roleName RoleAdmin = ''ADMIN''"
| "roleName RoleMember = ''MEMBER''"
| "roleName RoleContributor = ''CONTRIBUTOR''"
| "roleName RoleViewer = ''VIEWER''"
| "roleName RoleGuest = ''GUEST''"
| "roleName RoleAuditor = ''AUDITOR''"
| "roleName (OtherRole text) = text"

fun scopeName :: "ScopeType \<Rightarrow> string" where
  "scopeName ScopeTenant = ''TENANT''"
| "scopeName ScopeHub = ''HUB''"
| "scopeName ScopeCollection = ''COLLECTION''"
| "scopeName ScopeItem = ''ITEM''"
| "scopeName (OtherScope text) = text"

definition NewGrant :: "ID \<Rightarrow> ID \<Rightarrow> ID \<Rightarrow> ID \<Rightarrow> Scope \<Rightarrow> Role \<Rightarrow> Grant result" where
  "NewGrant i tenantID accountID groupID scope role =
     (if IsZero i \<or> IsZero tenantID then Inl (Failure (WithDetail ErrInternal ''memberships.identity_incomplete''))
      else if IsZero accountID = IsZero groupID
      then Inl (Failure (WithDetail ErrValidation ''memberships.subject_ambiguous''))
      else if \<not> Role_Valid role
      then Inl (Failure (WithParams (WithDetail ErrValidation ''memberships.role_unknown'') [(''value'', roleName role)]))
      else if \<not> Scope_Valid scope
      then Inl (Failure (WithParams (WithDetail ErrValidation ''memberships.scope_invalid'')
        [(''value'', scopeName (ScopeKind scope))]))
      else Inr \<lparr>GrantID = i, GrantTenantID = tenantID, GrantAccountID = accountID, GrantGroupID = groupID,
                GrantScope = scope, GrantRole = role\<rparr>)"

end
