(* ===== verification/Access_Laws.thy ===== *)
theory Access_Laws
  imports Access "HOL-Library.Product_Lexorder"
begin

text \<open>
  The laws of the permission matrix: which memberships decide, what a private hub takes out of the
  question, that the effective role is the strongest one, what may be handed out, and where the two
  readings of the ladder (by the strongest role, by the union of reaches) agree.
\<close>

section \<open>The ladder as a linear order\<close>

fun roleRank :: "Role \<Rightarrow> nat \<times> string" where
  "roleRank RoleOwner = (0, [])"
| "roleRank RoleAdmin = (1, [])"
| "roleRank RoleMember = (2, [])"
| "roleRank RoleContributor = (3, [])"
| "roleRank RoleViewer = (4, [])"
| "roleRank RoleGuest = (5, [])"
| "roleRank RoleAuditor = (6, [])"
| "roleRank (OtherRole s) = (7, s)"

lemma roleRank_inj: "roleRank r = roleRank r' \<Longrightarrow> r = r'"
  by (cases r; cases r') simp_all

instantiation Role :: linorder
begin

definition less_eq_Role :: "Role \<Rightarrow> Role \<Rightarrow> bool" where
  "less_eq_Role r r' \<longleftrightarrow> roleRank r \<le> roleRank r'"

definition less_Role :: "Role \<Rightarrow> Role \<Rightarrow> bool" where
  "less_Role r r' \<longleftrightarrow> roleRank r < roleRank r'"

instance
  by standard (auto simp: less_eq_Role_def less_Role_def dest: roleRank_inj)

end

lemma Role_Valid_iff [access_simps]: "Role_Valid r \<longleftrightarrow> (\<forall>s. r \<noteq> OtherRole s)"
  by (cases r) (simp_all add: Role_Valid_def Roles_def)

lemma AtLeast_iff: "AtLeast r other \<longleftrightarrow> Role_Valid r \<and> Role_Valid other \<and> r \<le> other"
  by (cases r; cases other) (simp_all add: AtLeast_def Roles_def access_simps less_eq_Role_def)

lemma strongestStep_min:
  "Role_Valid b \<Longrightarrow> Role_Valid r \<Longrightarrow> strongestStep (Some b) r = Some (min b r)"
  by (auto simp: strongestStep_def AtLeast_iff min_def)

lemma strongest_Min:
  "list_all Role_Valid (b # rs) \<Longrightarrow> foldl strongestStep (Some b) rs = Some (Min (set (b # rs)))"
proof (induction rs arbitrary: b)
  case (Cons r rs)
  then have "Role_Valid (min b r)" by (simp add: min_def)
  with Cons show ?case by (simp add: strongestStep_min) (cases "rs = []"; simp add: min.assoc)
qed simp

lemma Strongest_Min:
  assumes "list_all Role_Valid rs"
  shows "foldl strongestStep None rs = (if rs = [] then None else Some (Min (set rs)))"
proof (cases rs)
  case (Cons r rest)
  then show ?thesis using assms strongest_Min [of r rest] by (simp add: strongestStep_def)
qed simp

section \<open>Which memberships decide\<close>

definition shippedRoles :: "Membership list \<Rightarrow> Scope list \<Rightarrow> Privacy \<Rightarrow> Role list" where
  "shippedRoles ms path privacy = map MRole (filter (\<lambda>m. counts m path privacy \<and> \<not> IsCustom m) ms)"

lemma effectiveLoop_shipped:
  "effectiveLoop best ms path privacy = foldl strongestStep best (shippedRoles ms path privacy)"
  by (induction ms arbitrary: best) (simp_all add: shippedRoles_def)

lemma shippedRoles_valid: "list_all Role_Valid (shippedRoles ms path privacy)"
  by (auto simp: shippedRoles_def list_all_iff counts_def split: if_splits)

lemma EffectiveRole_Min:
  "EffectiveRole ms path privacy =
     (let rs = shippedRoles ms path privacy in if rs = [] then None else Some (Min (set rs)))"
  by (simp add: EffectiveRole_def effectiveLoop_shipped Strongest_Min shippedRoles_valid Let_def)

definition grants :: "Membership \<Rightarrow> Permission \<Rightarrow> bool" where
  "grants m permission =
     (if IsCustom m then permission \<in> set (Permissions m) else RoleAllows (MRole m) permission)"

lemma Allows_iff: "Allows ms path privacy permission \<longleftrightarrow> (\<exists>m \<in> set ms. counts m path privacy \<and> grants m permission)"
  by (induction ms) (auto simp: grants_def customAllows_def)

lemma reachLoop_eq:
  "reachLoop reach found ms path privacy action =
     (let accesses = map (\<lambda>m. membershipItemAccess m action) (filter (\<lambda>m. counts m path privacy) ms)
      in (if AccessAll \<in> set accesses then (AccessAll, True)
          else (if AccessAssigned \<in> set accesses then AccessAssigned else reach, found \<or> accesses \<noteq> [])))"
  by (induction ms arbitrary: reach found) (auto simp: Let_def split: ItemAccess.split)

lemma counts_private:
  "counts m path PrivatePath \<longleftrightarrow> counts m path privacy \<and> ScopeKind (MScope m) \<noteq> ScopeTenant"
  by (cases privacy) (auto simp: counts_def)

lemma counts_below:
  "filter (\<lambda>m. counts m path PrivatePath) ms =
     filter (\<lambda>m. counts m path privacy) (filter (\<lambda>m. ScopeKind (MScope m) \<noteq> ScopeTenant) ms)"
  by (auto simp: counts_private [of _ path privacy] conj_commute intro: filter_cong)

section \<open>The ladder of permissions\<close>

lemma RoleAllows_ladder:
  assumes "Role_Valid r" "Role_Valid r'" "r \<le> r'" "r' \<noteq> RoleAuditor" "RoleAllows r' permission"
  shows "RoleAllows r permission"
  using assms
  by (cases r; cases r') (auto simp: RoleAllows_def less_eq_Role_def familyHolders_def split: if_split_asm)

lemma ItemAccess_ladder:
  assumes "Role_Valid r" "Role_Valid r'" "r \<le> r'" "\<not> (action = ItemComment \<and> r' = RoleGuest \<and> (r = RoleContributor \<or> r = RoleViewer))"
  shows "ItemAccessOf r' action = AccessAll \<Longrightarrow> ItemAccessOf r action = AccessAll"
    and "ItemAccessOf r' action = AccessAssigned \<Longrightarrow> ItemAccessOf r action \<noteq> AccessNone"
  using assms
  by (cases r; cases r'; cases action; simp add: ItemAccessOf_def less_eq_Role_def access_simps)+

section \<open>Properties\<close>

text \<open>
  C20. A private hub: on a path through one, a membership on the workspace changes no answer.  The
  permission, the effective role and the reach are those of the memberships below the workspace alone.
\<close>

theorem private_hub_isolated:
  "let below = filter (\<lambda>m. ScopeKind (MScope m) \<noteq> ScopeTenant) ms in
     Allows ms path PrivatePath permission = Allows below path privacy permission
   \<and> EffectiveRole ms path PrivatePath = EffectiveRole below path privacy
   \<and> ItemReach ms path PrivatePath action = ItemReach below path privacy action"
proof -
  have "shippedRoles ms path PrivatePath =
      shippedRoles (filter (\<lambda>m. ScopeKind (MScope m) \<noteq> ScopeTenant) ms) path privacy"
    by (auto simp: shippedRoles_def counts_private [of _ path privacy] intro!: arg_cong [where f = "map MRole"] filter_cong)
  then have "EffectiveRole ms path PrivatePath =
      EffectiveRole (filter (\<lambda>m. ScopeKind (MScope m) \<noteq> ScopeTenant) ms) path privacy"
    by (simp only: EffectiveRole_Min)
  moreover have "ItemReach ms path PrivatePath action =
      ItemReach (filter (\<lambda>m. ScopeKind (MScope m) \<noteq> ScopeTenant) ms) path privacy action"
    by (simp only: ItemReach_def reachLoop_eq counts_below [of path ms privacy])
  ultimately show ?thesis
    by (auto simp: Let_def Allows_iff counts_private [of _ path privacy])
qed

text \<open>
  C21. The effective role is the strongest shipped role among the memberships that count, and there is
  none exactly when no such membership counts; as strong as is a linear order on the shipped roles.
\<close>

theorem EffectiveRole_strongest:
  "EffectiveRole ms path privacy =
     (let held = MRole ` {m \<in> set ms. counts m path privacy \<and> \<not> IsCustom m}
      in if held = {} then None else Some (Min held))
   \<and> AtLeast r r' = (Role_Valid r \<and> Role_Valid r' \<and> r \<le> r')"
proof -
  define held where "held = MRole ` {m \<in> set ms. counts m path privacy \<and> \<not> IsCustom m}"
  have "set (shippedRoles ms path privacy) = held"
    by (simp add: shippedRoles_def held_def)
  moreover from this have "shippedRoles ms path privacy = [] \<longleftrightarrow> held = {}" by (metis set_empty)
  ultimately have "EffectiveRole ms path privacy = (if held = {} then None else Some (Min held))"
    by (simp add: EffectiveRole_Min Let_def)
  then show ?thesis by (simp only: held_def Let_def AtLeast_iff)
qed



text \<open>
  The role \<^const>\<open>RoleAuditor\<close> is the exception: a guest whose custom role carries only
  \<^verbatim>\<open>MANAGE_MEMBERS\<close> may grant it, and with it the audit trail and the configuration, neither of which
  the guest may read.
\<close>

theorem MayGrant_auditor_escalates:
  "let custom = \<lparr>AccountID = a, MScope = TenantScope, MRole = OtherRole '''', Custom = ''people'',
         Permissions = [PermissionManageMembers]\<rparr>;
       guest = \<lparr>AccountID = a, MScope = TenantScope, MRole = RoleGuest, Custom = '''', Permissions = []\<rparr>
   in MayGrant [custom, guest] [TenantScope] SharedPath RoleAuditor
    \<and> RoleAllows RoleAuditor PermissionAuditRead \<and> RoleAllows RoleAuditor PermissionReadConfiguration
    \<and> \<not> Allows [custom, guest] [TenantScope] SharedPath PermissionAuditRead
    \<and> \<not> Allows [custom, guest] [TenantScope] SharedPath PermissionReadConfiguration"
  by (simp add: Let_def MayGrant_def EffectiveRole_def strongestStep_def AtLeast_def Roles_def counts_def
      IsCustom_def onPath_def TenantScope_def RoleAllows_def Permission_Kind_def hasPrefix_def customAllows_def
      Role_Valid_def familyHolders_def)

lemma heldNames:
  "set (foldl heldName held names) = set held \<union> {n \<in> set names. Permission_Kind n \<noteq> KindBase}"
  "distinct held \<Longrightarrow> distinct (foldl heldName held names)"
  by (induction names arbitrary: held) (auto simp: heldName_def)

lemma heldMemberships:
  "set (foldl (heldMembership path privacy) held ms) = set held \<union>
     {n. Permission_Kind n \<noteq> KindBase \<and> (\<exists>m \<in> set ms. IsCustom m \<and> counts m path privacy \<and> n \<in> set (Permissions m))}"
  "distinct held \<Longrightarrow> distinct (foldl (heldMembership path privacy) held ms)"
  by (induction ms arbitrary: held) (auto simp: heldMembership_def heldNames)


text \<open>
  C25. Without custom roles, the union of the reaches is the row of the strongest role, unless the
  action is a comment and a guest's membership counts beside a contributor's or a viewer's.
\<close>

theorem ItemReach_ladder:
  assumes "\<forall>m \<in> set ms. \<not> (counts m path privacy \<and> IsCustom m)"
    and "\<not> (action = ItemComment \<and> RoleGuest \<in> set (shippedRoles ms path privacy)
          \<and> EffectiveRole ms path privacy \<in> {Some RoleContributor, Some RoleViewer})"
  shows "ItemReach ms path privacy action =
    (case EffectiveRole ms path privacy of
       None \<Rightarrow> (AccessNone, False)
     | Some r \<Rightarrow> (ItemAccessOf r action, True))"
proof -
  define rs where "rs = shippedRoles ms path privacy"
  have accesses: "map (\<lambda>m. membershipItemAccess m action) (filter (\<lambda>m. counts m path privacy) ms)
      = map (\<lambda>r. ItemAccessOf r action) rs"
    using assms(1) unfolding rs_def shippedRoles_def
    by (induction ms) (auto simp: membershipItemAccess_def)
  note reach = ItemReach_def reachLoop_eq accesses Let_def
  show ?thesis
  proof (cases "rs = []")
    case True
    then have "EffectiveRole ms path privacy = None" by (simp add: EffectiveRole_Min rs_def Let_def)
    with True show ?thesis by (simp add: reach)
  next
    case False
    define r where "r = Min (set rs)"
    have eff: "EffectiveRole ms path privacy = Some r"
      using False by (simp add: EffectiveRole_Min rs_def r_def Let_def)
    have r: "r \<in> set rs" "\<And>r'. r' \<in> set rs \<Longrightarrow> r \<le> r'" using False by (simp_all add: r_def)
    have valid: "\<And>r'. r' \<in> set rs \<Longrightarrow> Role_Valid r'"
      using shippedRoles_valid by (auto simp: rs_def list_all_iff)
    have guest: "ItemAccessOf r' action = AccessAll \<Longrightarrow> ItemAccessOf r action = AccessAll"
      "ItemAccessOf r' action = AccessAssigned \<Longrightarrow> ItemAccessOf r action \<noteq> AccessNone" if "r' \<in> set rs" for r'
    proof -
      have "\<not> (action = ItemComment \<and> r' = RoleGuest \<and> (r = RoleContributor \<or> r = RoleViewer))"
        using assms(2) eff that by (auto simp: rs_def)
      note ladder = ItemAccess_ladder [OF valid [OF r(1)] valid [OF that] r(2) [OF that] this]
      show "ItemAccessOf r' action = AccessAll \<Longrightarrow> ItemAccessOf r action = AccessAll" by (rule ladder(1))
      show "ItemAccessOf r' action = AccessAssigned \<Longrightarrow> ItemAccessOf r action \<noteq> AccessNone" by (rule ladder(2))
    qed
    have self: "ItemAccessOf r action \<in> (\<lambda>r. ItemAccessOf r action) ` set rs" using r(1) by simp
    have all: "AccessAll \<in> (\<lambda>r. ItemAccessOf r action) ` set rs \<longleftrightarrow> ItemAccessOf r action = AccessAll"
      using guest(1) self by fastforce
    have assigned: "ItemAccessOf r action = AccessNone \<Longrightarrow> AccessAssigned \<notin> (\<lambda>r. ItemAccessOf r action) ` set rs"
      using guest(2) by fastforce
    show ?thesis
      using False all assigned self by (cases "ItemAccessOf r action") (simp_all add: reach eff)
  qed
qed

theorem ItemReach_ladder_witness:
  "ItemReach [\<lparr>AccountID = ''a'', MScope = TenantScope, MRole = RoleContributor, Custom = '''', Permissions = []\<rparr>,
       \<lparr>AccountID = ''a'', MScope = TenantScope, MRole = RoleViewer, Custom = '''', Permissions = []\<rparr>]
     [TenantScope] SharedPath ItemComment = (AccessAssigned, True)"
proof -
  let ?ms = "[\<lparr>AccountID = ''a'', MScope = TenantScope, MRole = RoleContributor, Custom = '''', Permissions = []\<rparr>,
       \<lparr>AccountID = ''a'', MScope = TenantScope, MRole = RoleViewer, Custom = '''', Permissions = []\<rparr>]"
  have eff: "EffectiveRole ?ms [TenantScope] SharedPath = Some RoleContributor" by code_simp
  show ?thesis
    using ItemReach_ladder [of ?ms "[TenantScope]" SharedPath ItemComment]
    by (simp add: eff shippedRoles_def IsCustom_def ItemAccessOf_def)
qed

text \<open>
  In that remaining case the two readings differ: the strongest role of a viewer who is also a
  guest refuses a comment, and the union of the reaches permits it.
\<close>

theorem guest_beside_viewer_comments:
  "let viewer = \<lparr>AccountID = a, MScope = TenantScope, MRole = RoleViewer, Custom = '''', Permissions = []\<rparr>;
       guest = \<lparr>AccountID = a, MScope = ItemScope i, MRole = RoleGuest, Custom = '''', Permissions = []\<rparr>;
       path = [TenantScope, ItemScope i]
   in EffectiveRole [viewer, guest] path SharedPath = Some RoleViewer
    \<and> AllowsItemAction RoleViewer ItemComment a assignee = ItemRefusedByRole
    \<and> AllowsItemActionAlong [viewer, guest] path SharedPath ItemComment a assignee = (ItemPermitted, True)"
  by (simp add: Let_def EffectiveRole_def strongestStep_def AtLeast_def Roles_def counts_def
      IsCustom_def onPath_def TenantScope_def ItemScope_def Role_Valid_def AllowsItemAction_def ItemAccessOf_def
      AllowsItemActionAlong_def ItemReach_def membershipItemAccess_def)

lemma Permission_Kind_families [simp]:
  "Permission_Kind (FieldWrite k) = KindField" "Permission_Kind (FieldRead k) = KindField"
  "Permission_Kind (TakeStep w s) = KindStep"
  by (simp_all add: Permission_Kind_def FieldWrite_def FieldRead_def TakeStep_def hasPrefix_def)

text \<open>
  A permission on a field is accepted exactly when its key is the key of an object, with one
  gap: a write permission whose field is spelled as a read permission is accepted too.
\<close>

theorem ParsePermission_families:
  "(ParsePermission (FieldRead k) = Inr (FieldRead k)) = objectKey k
   \<and> (ParsePermission (FieldWrite k) = Inr (FieldWrite k)) = objectKey (trimPrefix k ''FIELD_READ:'')
   \<and> ParsePermission (FieldWrite ''FIELD_READ:price'') = Inr (FieldWrite ''FIELD_READ:price'')
   \<and> \<not> objectKey ''FIELD_READ:price''"
proof -
  have "trimPrefix (trimPrefix (FieldWrite k) ''FIELD_WRITE:'') ''FIELD_READ:'' = trimPrefix k ''FIELD_READ:''" for k
    by (simp add: FieldWrite_def trimPrefix_def hasPrefix_def)
  moreover have "trimPrefix (trimPrefix (FieldRead k) ''FIELD_WRITE:'') ''FIELD_READ:'' = k" for k
    by (simp add: FieldRead_def trimPrefix_def hasPrefix_def)
  moreover have "objectKey (trimPrefix ''FIELD_READ:price'' ''FIELD_READ:'')" "\<not> objectKey ''FIELD_READ:price''"
    by code_simp+
  ultimately show ?thesis by (simp add: ParsePermission_def)
qed

end
