(* ===== verification/Items.thy ===== *)
theory Items
  imports Json Ids Go_Strings "HOL-Library.AList"
begin

text \<open>
  The work item and what may be done to it, from \<^verbatim>\<open>core/domain/model/work\<close>: \<^verbatim>\<open>CapabilityProfile.go\<close>,
  \<^verbatim>\<open>Item.go\<close>, \<^verbatim>\<open>DueDate.go\<close>, \<^verbatim>\<open>Lifecycle.go\<close>, \<^verbatim>\<open>CompletionPolicy.go\<close>, with
  \<^verbatim>\<open>shared/Language.go\<close> and \<^verbatim>\<open>shared/Text.go\<close>.

  Three things come from outside the repository's logic and are arguments: the Unicode normaliser
  (\<open>form\<close>, \<open>None\<close> for Go's nil), the time zones the platform's database holds (\<open>zones\<close>) and the
  RFC 3339 text of an instant (\<open>instant\<close>).  An optional field (a Go pointer) is an \<open>option\<close>; the state a
  retention run leaves on an item is not modelled.
\<close>

section \<open>Types, capabilities and profiles\<close>

datatype ItemType = ItemTask | ItemWorkPackage | ItemActivity | OtherItem string

fun itemTypeName :: "ItemType \<Rightarrow> string" where
  "itemTypeName ItemTask = ''TASK''"
| "itemTypeName ItemWorkPackage = ''WORK_PACKAGE''"
| "itemTypeName ItemActivity = ''ACTIVITY''"
| "itemTypeName (OtherItem text) = text"

definition itemTypes :: "ItemType list" where
  "itemTypes = [ItemTask, ItemWorkPackage, ItemActivity]"

definition ItemType_Valid :: "ItemType \<Rightarrow> bool" where
  "ItemType_Valid t = List.member itemTypes t"

datatype Capability = CapabilityCompletion | CapabilityDueDate | CapabilityReminder | CapabilityAssignment
  | CapabilityMembers | CapabilityBucket | CapabilityNotes | CapabilityLabels | CapabilityComments
  | CapabilityCover | CapabilityAttachments | CapabilityHistory | CapabilityRecurrence
  | CapabilityCustomFields | CapabilityAmount

fun capabilityName :: "Capability \<Rightarrow> string" where
  "capabilityName CapabilityCompletion = ''COMPLETION''"
| "capabilityName CapabilityDueDate = ''DUE_DATE''"
| "capabilityName CapabilityReminder = ''REMINDER''"
| "capabilityName CapabilityAssignment = ''ASSIGNMENT''"
| "capabilityName CapabilityMembers = ''MEMBERS''"
| "capabilityName CapabilityBucket = ''BUCKET''"
| "capabilityName CapabilityNotes = ''NOTES''"
| "capabilityName CapabilityLabels = ''LABELS''"
| "capabilityName CapabilityComments = ''COMMENTS''"
| "capabilityName CapabilityCover = ''COVER''"
| "capabilityName CapabilityAttachments = ''ATTACHMENTS''"
| "capabilityName CapabilityHistory = ''HISTORY''"
| "capabilityName CapabilityRecurrence = ''RECURRENCE''"
| "capabilityName CapabilityCustomFields = ''CUSTOM_FIELDS''"
| "capabilityName CapabilityAmount = ''AMOUNT''"

record CapabilityProfile =
  ProfileType :: ItemType
  Capabilities :: "Capability list"
  AllowedChildTypes :: "ItemType list"
  MaxDepth :: int
  Hidden :: "Capability list"

definition Profile_Allows :: "CapabilityProfile \<Rightarrow> Capability \<Rightarrow> bool" where
  "Profile_Allows p capability = List.member (Capabilities p) capability"

definition AllowsChild :: "CapabilityProfile \<Rightarrow> ItemType \<Rightarrow> bool" where
  "AllowsChild p child = List.member (AllowedChildTypes p) child"

definition capabilityRefused :: "string \<Rightarrow> CapabilityProfile \<Rightarrow> Capability \<Rightarrow> string \<Rightarrow> failure" where
  "capabilityRefused code p capability field =
     Failure (WithFields (WithParams (WithDetail ErrCapabilityNotSupported code)
       [(''item_type'', itemTypeName (ProfileType p)), (''capability'', capabilityName capability)])
       [field_error field code])"

definition Require :: "CapabilityProfile \<Rightarrow> Capability \<Rightarrow> string \<Rightarrow> failure option" where
  "Require p capability field =
     (if Profile_Allows p capability then None
      else if List.member (Hidden p) capability
      then Some (capabilityRefused ''items.capability_hidden'' p capability field)
      else Some (capabilityRefused ''items.capability_not_supported'' p capability field))"

definition HistoryIsCompact :: "CapabilityProfile \<Rightarrow> bool" where
  "HistoryIsCompact p =
     list_all (\<lambda>c. \<not> (Profile_Allows p c \<or> List.member (Hidden p) c))
       [CapabilityNotes, CapabilityLabels, CapabilityComments, CapabilityCustomFields]"

section \<open>The item\<close>

record Completion =
  IsCompleted :: bool
  CompletedAt :: "time option"
  CompletedBy :: ID

definition noCompletion :: Completion where
  "noCompletion = \<lparr>IsCompleted = False, CompletedAt = None, CompletedBy = ''''\<rparr>"

record DueDate =
  DueAt :: time
  DateOnly :: bool
  TimeZone :: string

record Cover =
  CoverKind :: string
  ColorToken :: string
  MediaID :: ID

record DeletedByActor =
  ActorKind :: string
  ActorID :: ID

definition nobody :: DeletedByActor where
  "nobody = \<lparr>ActorKind = '''', ActorID = ''''\<rparr>"

record WorkItem =
  ItemID :: ID
  TenantID :: ID
  CollectionID :: ID
  Type :: ItemType
  ParentID :: ID
  ItemPath :: string
  Depth :: int
  Title :: string
  Amount :: string
  Notes :: string
  ItemCompletion :: Completion
  CompletionCount :: int
  StartAt :: "time option"
  Due :: "DueDate option"
  BucketID :: ID
  OrderKey :: string
  AssigneeID :: ID
  ItemCover :: "Cover option"
  CustomFields :: object
  ContentLanguage :: string
  CalendarUID :: string
  ArchivedAt :: "time option"
  DeletedAt :: "time option"
  DeletedBy :: DeletedByActor
  TrashBatchID :: ID
  CreatedBy :: ID
  CreatedAt :: time
  UpdatedAt :: time
  Version :: int

definition IsArchived :: "WorkItem \<Rightarrow> bool" where
  "IsArchived i = (ArchivedAt i \<noteq> None)"

definition IsTrashed :: "WorkItem \<Rightarrow> bool" where
  "IsTrashed i = (DeletedAt i \<noteq> None)"

section \<open>Text\<close>

type_synonym normalizer = "(string \<Rightarrow> string) option"

definition isASCII :: "string \<Rightarrow> bool" where
  "isASCII s = list_all (\<lambda>c. byte c < 128) s"

definition NFC :: "string \<Rightarrow> normalizer \<Rightarrow> string result" where
  "NFC raw form =
     (case form of
        None \<Rightarrow> if \<not> isASCII raw then Inl (Failure (WithDetail ErrInternal ''text.normalizer_missing'')) else Inr raw
      | Some f \<Rightarrow> Inr (f raw))"

definition MaxItemTitleLength :: nat where
  "MaxItemTitleLength = 500"

definition itemTitle :: "string \<Rightarrow> normalizer \<Rightarrow> string result" where
  "itemTitle raw form =
     rbind (NFC (TrimSpace raw) form) (\<lambda>title.
       if title = ''''
       then Inl (Failure (WithFields (WithDetail ErrValidation ''items.title_empty'')
         [field_error ''/title'' ''items.title_empty'']))
       else if RuneCountInString title > MaxItemTitleLength
       then Inl (Failure (WithFields (WithParams (WithDetail ErrValidation ''items.title_too_long'')
         [(''maximum'', ''500'')]) [field_error ''/title'' ''items.title_too_long'']))
       else if containsControl title
       then Inl (Failure (WithFields (WithDetail ErrValidation ''items.title_malformed'')
         [field_error ''/title'' ''items.title_malformed'']))
       else Inr title)"

definition MaxItemAmountLength :: nat where
  "MaxItemAmountLength = 40"

definition itemAmount :: "string \<Rightarrow> normalizer \<Rightarrow> string result" where
  "itemAmount raw form =
     rbind (NFC (TrimSpace raw) form) (\<lambda>amount.
       if RuneCountInString amount > MaxItemAmountLength \<or> containsControl amount
       then Inl (Failure (WithFields (WithParams (WithDetail ErrValidation ''items.amount_invalid'')
         [(''maximum'', ''40'')]) [field_error ''/amount'' ''items.amount_invalid'']))
       else Inr amount)"

definition MaxLanguageTagLength :: nat where
  "MaxLanguageTagLength = 35"

definition languagePart :: "nat \<Rightarrow> string \<Rightarrow> bool" where
  "languagePart index part =
     (part \<noteq> '''' \<and> length part \<le> 8
      \<and> list_all (\<lambda>r. (CHR ''a'' \<le> r \<and> r \<le> CHR ''z'') \<or> (CHR ''A'' \<le> r \<and> r \<le> CHR ''Z'')
            \<or> (CHR ''0'' \<le> r \<and> r \<le> CHR ''9'' \<and> index > 0)) part)"

definition LanguageTag :: "string \<Rightarrow> string option" where
  "LanguageTag raw =
     (let tag = TrimSpace raw in
      if tag = '''' then Some ''''
      else if RuneCountInString tag > MaxLanguageTagLength then None
      else if list_all (\<lambda>(index, part). languagePart index part) (enumerate 0 (splitOn (CHR ''-'') tag))
      then Some tag else None)"

definition contentLanguage :: "string \<Rightarrow> string result" where
  "contentLanguage raw =
     (case LanguageTag raw of
        None \<Rightarrow> Inl (Failure (WithFields (WithParams (WithDetail ErrValidation ''items.content_language_invalid'')
          [(''value'', TrimSpace raw)]) [field_error ''/content_language'' ''items.content_language_invalid'']))
      | Some tag \<Rightarrow> Inr tag)"

definition MaxCalendarUIDLength :: nat where
  "MaxCalendarUIDLength = 255"

definition calendarUIDByte :: "char \<Rightarrow> bool" where
  "calendarUIDByte b =
     (if (CHR ''a'' \<le> b \<and> b \<le> CHR ''z'') \<or> (CHR ''A'' \<le> b \<and> b \<le> CHR ''Z'') \<or> (CHR ''0'' \<le> b \<and> b \<le> CHR ''9'')
      then True
      else List.member (map char_of [45, 46, 95, 126, 33, 36, 38, 39, 40, 41, 42, 43, 44, 59, 61, 58, 64 :: nat]) b)"

definition ValidCalendarUID :: "string \<Rightarrow> bool" where
  "ValidCalendarUID uid =
     (if uid = '''' \<or> length uid > MaxCalendarUIDLength then False else list_all calendarUIDByte uid)"

definition checkCalendarUID :: "string \<Rightarrow> failure option" where
  "checkCalendarUID uid =
     (if uid = '''' \<or> ValidCalendarUID uid then None
      else Some (Failure (WithFields (WithParams (WithDetail ErrValidation ''items.calendar_uid_invalid'')
        [(''maximum'', ''255'')]) [field_error ''/calendar_uid'' ''items.calendar_uid_invalid''])))"

section \<open>Materialised paths\<close>

abbreviation slash :: char where
  "slash \<equiv> CHR ''/''"

definition trimSlash :: "string \<Rightarrow> string" where
  "trimSlash s = rev (dropWhile (\<lambda>c. c = slash) (rev (dropWhile (\<lambda>c. c = slash) s)))"

definition hasSuffix :: "string \<Rightarrow> string \<Rightarrow> bool" where
  "hasSuffix s p = (length p \<le> length s \<and> drop (length s - length p) s = p)"

definition pathMalformed :: "string \<Rightarrow> failure" where
  "pathMalformed path =
     Failure (WithParams (WithDetail ErrInternal ''items.path_malformed'') [(''path'', path)])"

text \<open>\<open>segments[len(segments)-2]\<close> is only read when the depth, equal to the length, is at least 2.\<close>

definition checkPlacement :: "ID \<Rightarrow> ID \<Rightarrow> string \<Rightarrow> int \<Rightarrow> failure option" where
  "checkPlacement i parentID path depth =
     (if \<not> hasPrefix path ''/'' \<or> \<not> hasSuffix path ''/'' \<or> path = ''/'' then Some (pathMalformed path)
      else let segments = splitOn slash (trimSlash path) in
        if last segments \<noteq> i then Some (pathMalformed path)
        else if depth \<noteq> int (length segments)
        then Some (Failure (WithParams (WithDetail ErrInternal ''items.depth_inconsistent'') [(''path'', path)]))
        else if IsZero parentID \<and> depth \<noteq> 1
        then Some (Failure (WithDetail ErrInternal ''items.parent_item_required''))
        else if \<not> IsZero parentID \<and> (depth < 2 \<or> segments ! (length segments - 2) \<noteq> parentID)
        then Some (pathMalformed path)
        else None)"

definition ChildPath :: "WorkItem \<Rightarrow> ID \<Rightarrow> string" where
  "ChildPath i child = ItemPath i @ child @ ''/''"

definition Contains :: "WorkItem \<Rightarrow> WorkItem \<Rightarrow> bool" where
  "Contains i other = hasPrefix (ItemPath other) (ItemPath i)"

definition SubtreePathUnder :: "WorkItem \<Rightarrow> string \<Rightarrow> string" where
  "SubtreePathUnder i parentPath =
     (let parentPath' = (if parentPath = '''' then ''/'' else parentPath) in parentPath' @ ItemID i @ ''/'')"

definition RootPath :: "ID \<Rightarrow> string" where
  "RootPath i = ''/'' @ i @ ''/''"

fun parseSegments :: "string list \<Rightarrow> ID list option" where
  "parseSegments [] = Some []"
| "parseSegments (segment # rest) =
     (case ParseID segment of
        Inl _ \<Rightarrow> None
      | Inr i \<Rightarrow> map_option (\<lambda>ids. i # ids) (parseSegments rest))"

definition PathIDs :: "string \<Rightarrow> ID list" where
  "PathIDs path =
     (let trimmed = trimSlash path in
      if trimmed = '''' then []
      else case parseSegments (splitOn slash trimmed) of None \<Rightarrow> [] | Some ids \<Rightarrow> ids)"

section \<open>Creation\<close>

record NewWorkItemInput =
  InID :: ID
  InTenantID :: ID
  InCollectionID :: ID
  InType :: ItemType
  InParentID :: ID
  InTitle :: string
  InNotes :: string
  InAmount :: string
  InBucketID :: ID
  InContentLanguage :: string
  InStartAt :: "time option"
  InCalendarUID :: string
  InText :: normalizer
  InProfile :: CapabilityProfile
  InPath :: string
  InDepth :: int
  InOrderKey :: string
  InCreatedBy :: ID
  InNow :: time

definition requireIf :: "bool \<Rightarrow> CapabilityProfile \<Rightarrow> Capability \<Rightarrow> string \<Rightarrow> failure option" where
  "requireIf given p capability field = (if given then Require p capability field else None)"

definition itemTypeUnknown :: "ItemType \<Rightarrow> failure" where
  "itemTypeUnknown t =
     Failure (WithFields (WithParams (WithDetail ErrValidation ''items.type_unknown'') [(''value'', itemTypeName t)])
       [field_error ''/type'' ''items.type_unknown''])"

definition presentInstant :: "time option \<Rightarrow> time option" where
  "presentInstant t = (case t of None \<Rightarrow> None | Some at \<Rightarrow> if at = zeroTime then None else Some at)"

definition NewWorkItem :: "NewWorkItemInput \<Rightarrow> WorkItem result" where
  "NewWorkItem inp =
     (if \<not> ItemType_Valid (InType inp) then Inl (itemTypeUnknown (InType inp))
      else if ProfileType (InProfile inp) \<noteq> InType inp
      then Inl (Failure (WithDetail ErrInternal ''items.profile_mismatched''))
      else
        rbind (itemTitle (InTitle inp) (InText inp)) (\<lambda>title.
        rbind (NFC (TrimSpace (InNotes inp)) (InText inp)) (\<lambda>notes.
        guarded (requireIf (notes \<noteq> '''') (InProfile inp) CapabilityNotes ''/notes'') (
        guarded (requireIf (\<not> IsZero (InBucketID inp)) (InProfile inp) CapabilityBucket ''/bucket_id'') (
        rbind (itemAmount (InAmount inp) (InText inp)) (\<lambda>amount.
        guarded (requireIf (amount \<noteq> '''') (InProfile inp) CapabilityAmount ''/amount'') (
        rbind (contentLanguage (InContentLanguage inp)) (\<lambda>language.
        guarded (checkCalendarUID (InCalendarUID inp)) (
        guarded (checkPlacement (InID inp) (InParentID inp) (InPath inp) (InDepth inp)) (
        if IsZero (InID inp) \<or> IsZero (InTenantID inp) \<or> IsZero (InCollectionID inp) \<or> IsZero (InCreatedBy inp)
           \<or> InOrderKey inp = ''''
        then Inl (Failure (WithDetail ErrInternal ''items.identity_incomplete''))
        else Inr \<lparr>ItemID = InID inp, TenantID = InTenantID inp, CollectionID = InCollectionID inp, Type = InType inp,
          ParentID = InParentID inp, ItemPath = InPath inp, Depth = InDepth inp, Title = title, Amount = amount,
          Notes = notes, ItemCompletion = noCompletion, CompletionCount = 0, StartAt = presentInstant (InStartAt inp),
          Due = None, BucketID = InBucketID inp, OrderKey = InOrderKey inp, AssigneeID = '''', ItemCover = None,
          CustomFields = [], ContentLanguage = language, CalendarUID = InCalendarUID inp, ArchivedAt = None,
          DeletedAt = None, DeletedBy = nobody, TrashBatchID = '''', CreatedBy = InCreatedBy inp,
          CreatedAt = InNow inp, UpdatedAt = InNow inp, Version = 1\<rparr>))))))))))"

section \<open>Changes\<close>

definition itemRefusal :: "string \<Rightarrow> WorkItem \<Rightarrow> failure" where
  "itemRefusal code i = Failure (WithParams (WithDetail ErrConflict code) [(''item_id'', ItemID i)])"

definition EnsureEditable :: "WorkItem \<Rightarrow> failure option" where
  "EnsureEditable i =
     (if IsTrashed i then Some (itemRefusal ''items.trashed'' i)
      else if IsArchived i then Some (itemRefusal ''items.archived'' i)
      else None)"

definition andThen :: "failure option \<Rightarrow> failure option \<Rightarrow> failure option" where
  "andThen c d = (case c of None \<Rightarrow> d | Some e \<Rightarrow> Some e)"

definition EnsureCompletable :: "WorkItem \<Rightarrow> CapabilityProfile \<Rightarrow> failure option" where
  "EnsureCompletable i profile = andThen (Require profile CapabilityCompletion ''/completion'') (EnsureEditable i)"

definition EnsureAssignable :: "WorkItem \<Rightarrow> CapabilityProfile \<Rightarrow> failure option" where
  "EnsureAssignable i profile = andThen (Require profile CapabilityAssignment ''/account_id'') (EnsureEditable i)"

definition EnsureCoverable :: "WorkItem \<Rightarrow> CapabilityProfile \<Rightarrow> failure option" where
  "EnsureCoverable i profile = andThen (Require profile CapabilityCover ''/cover'') (EnsureEditable i)"

definition EnsureAttachable :: "WorkItem \<Rightarrow> CapabilityProfile \<Rightarrow> failure option" where
  "EnsureAttachable i profile = andThen (Require profile CapabilityAttachments ''/media_id'') (EnsureEditable i)"

definition EnsureCustomisable :: "WorkItem \<Rightarrow> CapabilityProfile \<Rightarrow> failure option" where
  "EnsureCustomisable i profile = andThen (Require profile CapabilityCustomFields ''/value'') (EnsureEditable i)"

record ItemFieldChange =
  Field :: string
  From :: string
  To :: string

definition fieldChange :: "string \<Rightarrow> string \<Rightarrow> string \<Rightarrow> ItemFieldChange" where
  "fieldChange f a b = \<lparr>Field = f, From = a, To = b\<rparr>"

record ItemAttributes =
  AttrTitle :: "string option"
  AttrNotes :: "string option"
  AttrAmount :: "string option"
  AttrBucketID :: "ID option"
  AttrContentLanguage :: "string option"
  AttrStartAt :: "time option"

text \<open>
  One attribute of \<^verbatim>\<open>Updated\<close>: absent it changes nothing; present it is read, compared with the field
  and, when it differs, recorded and written.
\<close>

definition updateField :: "string \<Rightarrow> 'a option \<Rightarrow> ('a \<Rightarrow> string result) \<Rightarrow> (WorkItem \<Rightarrow> string)
    \<Rightarrow> (string \<Rightarrow> WorkItem \<Rightarrow> WorkItem) \<Rightarrow> WorkItem \<times> ItemFieldChange list \<Rightarrow> (WorkItem \<times> ItemFieldChange list) result" where
  "updateField f attribute read get put = (\<lambda>(i, changes).
     case attribute of
       None \<Rightarrow> Inr (i, changes)
     | Some raw \<Rightarrow> rbind (read raw) (\<lambda>v.
         if v = get i then Inr (i, changes)
         else Inr (put v i, changes @ [fieldChange f (get i) v])))"

definition instantValue :: "(time \<Rightarrow> string) \<Rightarrow> time option \<Rightarrow> string" where
  "instantValue instant t = (case t of None \<Rightarrow> '''' | Some at \<Rightarrow> instant at)"

definition updateStart :: "(time \<Rightarrow> string) \<Rightarrow> time option \<Rightarrow> WorkItem \<times> ItemFieldChange list
    \<Rightarrow> WorkItem \<times> ItemFieldChange list" where
  "updateStart instant attribute = (\<lambda>(i, changes).
     case attribute of
       None \<Rightarrow> (i, changes)
     | Some at \<Rightarrow>
         (let target = presentInstant (Some at) in
          if StartAt i = target then (i, changes)
          else (i\<lparr>StartAt := target\<rparr>,
                changes @ [fieldChange ''start_at'' (instantValue instant (StartAt i)) (instantValue instant target)])))"

definition updateGuards :: "ItemAttributes \<Rightarrow> CapabilityProfile \<Rightarrow> normalizer \<Rightarrow> WorkItem \<Rightarrow> string result" where
  "updateGuards a profile form i =
     guarded (requireIf (case AttrNotes a of None \<Rightarrow> False | Some n \<Rightarrow> TrimSpace n \<noteq> '''') profile CapabilityNotes ''/notes'') (
     guarded (requireIf (case AttrBucketID a of None \<Rightarrow> False | Some b \<Rightarrow> \<not> IsZero b) profile CapabilityBucket ''/bucket_id'') (
     rbind (case AttrAmount a of None \<Rightarrow> Inr '''' | Some raw \<Rightarrow> itemAmount raw form) (\<lambda>amount.
     guarded (requireIf (amount \<noteq> '''') profile CapabilityAmount ''/amount'') (
     guarded (EnsureEditable i) (Inr amount)))))"

definition Updated :: "(time \<Rightarrow> string) \<Rightarrow> WorkItem \<Rightarrow> ItemAttributes \<Rightarrow> CapabilityProfile \<Rightarrow> normalizer \<Rightarrow> time
    \<Rightarrow> (WorkItem \<times> ItemFieldChange list) result" where
  "Updated instant i a profile form at =
     rbind (updateGuards a profile form i) (\<lambda>amount.
     rbind (updateField ''title'' (AttrTitle a) (\<lambda>raw. itemTitle raw form) Title (\<lambda>v i. i\<lparr>Title := v\<rparr>) (i, [])) (\<lambda>s1.
     rbind (updateField ''amount'' (AttrAmount a) (\<lambda>_. Inr amount) Amount (\<lambda>v i. i\<lparr>Amount := v\<rparr>) s1) (\<lambda>s2.
     rbind (updateField ''notes'' (AttrNotes a) (\<lambda>raw. NFC (TrimSpace raw) form) Notes (\<lambda>v i. i\<lparr>Notes := v\<rparr>) s2) (\<lambda>s3.
     rbind (updateField ''content_language'' (AttrContentLanguage a) contentLanguage ContentLanguage
         (\<lambda>v i. i\<lparr>ContentLanguage := v\<rparr>) s3) (\<lambda>s4.
     rbind (updateField ''bucket_id'' (AttrBucketID a) Inr BucketID (\<lambda>v i. i\<lparr>BucketID := v\<rparr>) s4) (\<lambda>s5.
     let (i', changes) = updateStart instant (AttrStartAt a) s5 in
     if changes = [] then Inr (i', []) else Inr (i'\<lparr>UpdatedAt := at\<rparr>, changes)))))))"

definition Completed :: "WorkItem \<Rightarrow> ID \<Rightarrow> time \<Rightarrow> WorkItem" where
  "Completed i by' at =
     (if IsCompleted (ItemCompletion i) then i
      else i\<lparr>ItemCompletion := \<lparr>IsCompleted = True, CompletedAt = Some at, CompletedBy = by'\<rparr>,
             CompletionCount := CompletionCount i + 1, UpdatedAt := at\<rparr>)"

definition Reopened :: "WorkItem \<Rightarrow> time \<Rightarrow> WorkItem" where
  "Reopened i at =
     (if \<not> IsCompleted (ItemCompletion i) then i else i\<lparr>ItemCompletion := noCompletion, UpdatedAt := at\<rparr>)"

definition Assigned :: "WorkItem \<Rightarrow> ID \<Rightarrow> time \<Rightarrow> WorkItem" where
  "Assigned i accountID at = (if AssigneeID i = accountID then i else i\<lparr>AssigneeID := accountID, UpdatedAt := at\<rparr>)"

definition Unassigned :: "WorkItem \<Rightarrow> time \<Rightarrow> WorkItem" where
  "Unassigned i at = (if IsZero (AssigneeID i) then i else i\<lparr>AssigneeID := '''', UpdatedAt := at\<rparr>)"

definition Covered :: "WorkItem \<Rightarrow> Cover \<Rightarrow> time \<Rightarrow> WorkItem" where
  "Covered i cover at = (if ItemCover i = Some cover then i else i\<lparr>ItemCover := Some cover, UpdatedAt := at\<rparr>)"

definition Uncovered :: "WorkItem \<Rightarrow> time \<Rightarrow> WorkItem" where
  "Uncovered i at = (if ItemCover i = None then i else i\<lparr>ItemCover := None, UpdatedAt := at\<rparr>)"

fun sameElements :: "json list \<Rightarrow> json list \<Rightarrow> bool result" where
  "sameElements (a # as) (b # bs) = rbind (goEqual a b) (\<lambda>same. if \<not> same then Inr False else sameElements as bs)"
| "sameElements _ _ = Inr True"

fun sameCustomValue :: "json \<Rightarrow> json \<Rightarrow> bool result" where
  "sameCustomValue (JArr first) (JArr second) =
     (if length first \<noteq> length second then Inr False else sameElements first second)"
| "sameCustomValue a b = goEqual a b"

definition WithCustomField :: "WorkItem \<Rightarrow> string \<Rightarrow> json \<Rightarrow> time \<Rightarrow> (WorkItem \<times> bool) result" where
  "WithCustomField i key v at =
     (let written = Inr (i\<lparr>CustomFields := (if v = JNull then AList.delete key (CustomFields i)
                                             else AList.update key v (CustomFields i)), UpdatedAt := at\<rparr>, True)
      in case map_of (CustomFields i) key of
           None \<Rightarrow> if v = JNull then Inr (i, False) else written
         | Some existing \<Rightarrow> rbind (sameCustomValue existing v) (\<lambda>same. if same then Inr (i, False) else written))"

section \<open>Due dates\<close>

text \<open>
  \<^verbatim>\<open>shared.LoadZone\<close> over the locations \<^verbatim>\<open>time.LoadLocation\<close> knows: the server's own zone is refused.
\<close>

definition lowerASCII :: "char \<Rightarrow> char" where
  "lowerASCII c = (if CHR ''A'' \<le> c \<and> c \<le> CHR ''Z'' then char_of (byte c + 32) else c)"

definition LoadZone :: "(string \<Rightarrow> bool) \<Rightarrow> string \<Rightarrow> bool" where
  "LoadZone locations raw =
     (let name = TrimSpace raw in
      if name = '''' \<or> map lowerASCII name = ''local'' then False else locations name)"

definition dueRefused :: "string \<Rightarrow> string \<Rightarrow> failure" where
  "dueRefused code path = Failure (WithFields (WithDetail ErrValidation code) [field_error path code])"

definition NewDueDate :: "(string \<Rightarrow> bool) \<Rightarrow> time option \<Rightarrow> bool \<Rightarrow> string \<Rightarrow> DueDate option result" where
  "NewDueDate zones at dateOnly rawZone =
     (let zone = TrimSpace rawZone in
      case presentInstant at of
        None \<Rightarrow>
          if zone \<noteq> '''' then Inl (dueRefused ''items.due_time_zone_without_date'' ''/due_time_zone'')
          else if dateOnly then Inl (dueRefused ''items.due_date_only_without_date'' ''/due_date_only'')
          else Inr None
      | Some t \<Rightarrow>
          if zone \<noteq> '''' \<and> \<not> LoadZone zones zone
          then Inl (Failure (WithFields (WithParams (WithDetail ErrValidation ''items.due_time_zone_invalid'') [(''value'', zone)])
            [\<lparr>Path = ''/due_time_zone'', FieldCode = ''items.due_time_zone_invalid'', FieldParams = [(''value'', zone)]\<rparr>]))
          else Inr (Some \<lparr>DueAt = t, DateOnly = dateOnly, TimeZone = zone\<rparr>))"

record DuePatch =
  PatchAt :: "time option"
  AtPresent :: bool
  PatchDateOnly :: "bool option"
  PatchTimeZone :: "string option"

definition DuePatch_Applied :: "(string \<Rightarrow> bool) \<Rightarrow> DuePatch \<Rightarrow> DueDate option \<Rightarrow> DueDate option result" where
  "DuePatch_Applied zones p current =
     (if AtPresent p \<and> PatchAt p = None
      then NewDueDate zones None (case PatchDateOnly p of None \<Rightarrow> False | Some f \<Rightarrow> f)
        (case PatchTimeZone p of None \<Rightarrow> '''' | Some z \<Rightarrow> z)
      else NewDueDate zones
        (if AtPresent p then PatchAt p else map_option DueAt current)
        (case PatchDateOnly p of Some f \<Rightarrow> f | None \<Rightarrow> (case current of None \<Rightarrow> False | Some d \<Rightarrow> DateOnly d))
        (case PatchTimeZone p of Some z \<Rightarrow> z | None \<Rightarrow> (case current of None \<Rightarrow> '''' | Some d \<Rightarrow> TimeZone d)))"

definition dueInstant :: "(time \<Rightarrow> string) \<Rightarrow> DueDate option \<Rightarrow> string" where
  "dueInstant instant d = (case d of None \<Rightarrow> '''' | Some x \<Rightarrow> instant (DueAt x))"

definition dueFlag :: "DueDate option \<Rightarrow> string" where
  "dueFlag d = (case d of None \<Rightarrow> ''false'' | Some x \<Rightarrow> if DateOnly x then ''true'' else ''false'')"

definition dueZone :: "DueDate option \<Rightarrow> string" where
  "dueZone d = (case d of None \<Rightarrow> '''' | Some x \<Rightarrow> TimeZone x)"

definition dueDateChanges :: "(time \<Rightarrow> string) \<Rightarrow> DueDate option \<Rightarrow> DueDate option \<Rightarrow> ItemFieldChange list" where
  "dueDateChanges instant a b =
     map (\<lambda>(f, x, y). fieldChange f x y) (filter (\<lambda>(f, x, y). x \<noteq> y)
       [(''due_at'', dueInstant instant a, dueInstant instant b),
        (''due_date_only'', dueFlag a, dueFlag b),
        (''due_time_zone'', dueZone a, dueZone b)])"

definition WithDueDate :: "(time \<Rightarrow> string) \<Rightarrow> WorkItem \<Rightarrow> DueDate option \<Rightarrow> CapabilityProfile \<Rightarrow> time
    \<Rightarrow> (WorkItem \<times> ItemFieldChange list) result" where
  "WithDueDate instant i due profile at =
     guarded (requireIf (due \<noteq> None) profile CapabilityDueDate ''/due_at'') (
     guarded (EnsureEditable i) (
       let changes = dueDateChanges instant (Due i) due in
       if changes = [] then Inr (i, []) else Inr (i\<lparr>Due := due, UpdatedAt := at\<rparr>, changes)))"

section \<open>Archive and trash\<close>

definition ensureLifecycleChangeable :: "WorkItem \<Rightarrow> failure option" where
  "ensureLifecycleChangeable i = (if IsTrashed i then Some (itemRefusal ''items.trashed'' i) else None)"

definition Archived :: "(time \<Rightarrow> string) \<Rightarrow> WorkItem \<Rightarrow> time \<Rightarrow> (WorkItem \<times> ItemFieldChange list) result" where
  "Archived instant i at =
     guarded (ensureLifecycleChangeable i) (
       if IsArchived i then Inr (i, [])
       else Inr (i\<lparr>ArchivedAt := Some at, UpdatedAt := at\<rparr>, [fieldChange ''archived_at'' '''' (instant at)]))"

definition Unarchived :: "(time \<Rightarrow> string) \<Rightarrow> WorkItem \<Rightarrow> time \<Rightarrow> (WorkItem \<times> ItemFieldChange list) result" where
  "Unarchived instant i at =
     guarded (ensureLifecycleChangeable i) (
       if \<not> IsArchived i then Inr (i, [])
       else Inr (i\<lparr>ArchivedAt := None, UpdatedAt := at\<rparr>,
                 [fieldChange ''archived_at'' (instantValue instant (ArchivedAt i)) '''']))"

definition Trashed :: "(time \<Rightarrow> string) \<Rightarrow> WorkItem \<Rightarrow> time \<Rightarrow> ID \<Rightarrow> DeletedByActor
    \<Rightarrow> (WorkItem \<times> ItemFieldChange list) result" where
  "Trashed instant i at batch by' =
     (if IsZero batch then Inl (Failure (WithDetail ErrInternal ''items.trash_batch_missing''))
      else if IsTrashed i then Inr (i, [])
      else Inr (i\<lparr>DeletedAt := Some at, TrashBatchID := batch, DeletedBy := by', UpdatedAt := at\<rparr>,
                [fieldChange ''deleted_at'' '''' (instant at)]))"

definition Restored :: "(time \<Rightarrow> string) \<Rightarrow> WorkItem \<Rightarrow> time \<Rightarrow> (WorkItem \<times> ItemFieldChange list) result" where
  "Restored instant i at =
     (if \<not> IsTrashed i then Inr (i, [])
      else Inr (i\<lparr>DeletedAt := None, TrashBatchID := '''', DeletedBy := nobody, UpdatedAt := at\<rparr>,
                [fieldChange ''deleted_at'' (instantValue instant (DeletedAt i)) '''']))"

section \<open>Completion of parents\<close>

datatype CompletionPolicy = CompletionManual | CompletionRollup | NoPolicy | OtherPolicy string

definition OrDefault :: "CompletionPolicy \<Rightarrow> CompletionPolicy" where
  "OrDefault p = (if p = NoPolicy then CompletionManual else p)"

definition ParseCompletionPolicy :: "string \<Rightarrow> CompletionPolicy result" where
  "ParseCompletionPolicy v =
     (if v = '''' then Inr (OrDefault NoPolicy)
      else if v = ''MANUAL'' then Inr CompletionManual
      else if v = ''ROLLUP'' then Inr CompletionRollup
      else Inl (Failure (WithFields (WithParams (WithDetail ErrValidation ''containers.completion_policy_unknown'') [(''value'', v)])
        [field_error ''/policies/completion_policy'' ''containers.completion_policy_unknown''])))"

definition RollsUp :: "CompletionPolicy \<Rightarrow> bool" where
  "RollsUp p = (p = CompletionRollup)"

record ChildCompletion =
  Total :: int
  CompletedChildren :: int

definition AllCompleted :: "ChildCompletion \<Rightarrow> bool" where
  "AllCompleted c = (Total c > 0 \<and> CompletedChildren c \<ge> Total c)"

definition AnyOpen :: "ChildCompletion \<Rightarrow> bool" where
  "AnyOpen c = (Total c > CompletedChildren c)"

datatype ParentEffect = ParentUnchanged | ParentComplete | ParentReopen

definition RollUp :: "CompletionPolicy \<Rightarrow> Completion \<Rightarrow> ChildCompletion \<Rightarrow> ParentEffect" where
  "RollUp policy parent children =
     (if \<not> RollsUp policy then ParentUnchanged
      else if AllCompleted children \<and> \<not> IsCompleted parent then ParentComplete
      else if AnyOpen children \<and> IsCompleted parent then ParentReopen
      else ParentUnchanged)"

end
