(* ===== verification/Item_Laws.thy ===== *)
theory Item_Laws
  imports Items
begin

text \<open>
  The life of one item: the changes its use cases make as a step relation, the invariant every change
  keeps, what an archived or trashed item still allows, and the laws of the single operations.
\<close>

section \<open>Steps\<close>

text \<open>
  Each rule is one domain operation behind the guard its use case asks for first
  (\<^verbatim>\<open>EnsureCompletable\<close>, \<^verbatim>\<open>EnsureAssignable\<close>, \<^verbatim>\<open>EnsureCoverable\<close>, \<^verbatim>\<open>EnsureCustomisable\<close>); the others carry
  their guard themselves.
\<close>

inductive item_step :: "(time \<Rightarrow> string) \<Rightarrow> WorkItem \<Rightarrow> WorkItem \<Rightarrow> bool" for instant where
  updated: "Updated instant i a profile form at = Inr (i', changes) \<Longrightarrow> item_step instant i i'"
| dated: "WithDueDate instant i due profile at = Inr (i', changes) \<Longrightarrow> item_step instant i i'"
| completed: "EnsureCompletable i profile = None \<Longrightarrow> item_step instant i (Completed i actor at)"
| reopened: "EnsureCompletable i profile = None \<Longrightarrow> item_step instant i (Reopened i at)"
| assigned: "EnsureAssignable i profile = None \<Longrightarrow> item_step instant i (Assigned i account at)"
| unassigned: "EnsureAssignable i profile = None \<Longrightarrow> item_step instant i (Unassigned i at)"
| covered: "EnsureCoverable i profile = None \<Longrightarrow> item_step instant i (Covered i cover at)"
| uncovered: "EnsureCoverable i profile = None \<Longrightarrow> item_step instant i (Uncovered i at)"
| customised: "EnsureCustomisable i profile = None \<Longrightarrow> WithCustomField i key v at = Inr (i', moved) \<Longrightarrow> item_step instant i i'"
| archived: "Archived instant i at = Inr (i', changes) \<Longrightarrow> item_step instant i i'"
| unarchived: "Unarchived instant i at = Inr (i', changes) \<Longrightarrow> item_step instant i i'"
| trashed: "Trashed instant i at batch actor = Inr (i', changes) \<Longrightarrow> item_step instant i i'"
| restored: "Restored instant i at = Inr (i', changes) \<Longrightarrow> item_step instant i i'"

lemma Require_andThen: "andThen c d = None \<longleftrightarrow> c = None \<and> d = None"
  by (cases c) (simp_all add: andThen_def)

lemmas item_guards = EnsureCompletable_def EnsureAssignable_def EnsureCoverable_def EnsureCustomisable_def Require_andThen

lemma EnsureEditable_None: "EnsureEditable i = None \<longleftrightarrow> \<not> IsTrashed i \<and> \<not> IsArchived i"
  by (simp add: EnsureEditable_def)

section \<open>What an update keeps\<close>

lemma updateField_Inr:
  assumes "updateField f attribute reading get put (i, changes) = Inr (i', changes')"
  shows "(i', changes') = (i, changes) \<and> (\<forall>raw. attribute = Some raw \<longrightarrow> reading raw = Inr (get i))
     \<or> (\<exists>raw v. attribute = Some raw \<and> reading raw = Inr v \<and> v \<noteq> get i \<and> i' = put v i
         \<and> changes' = changes @ [fieldChange f (get i) v])"
  using assms by (auto simp: updateField_def go_result split: option.splits if_splits)

text \<open>What the contents of an item satisfy.\<close>

definition title_ok :: "string \<Rightarrow> bool" where
  "title_ok title \<longleftrightarrow> title \<noteq> '''' \<and> RuneCountInString title \<le> MaxItemTitleLength \<and> \<not> containsControl title"

definition amount_ok :: "string \<Rightarrow> bool" where
  "amount_ok amount \<longleftrightarrow> RuneCountInString amount \<le> MaxItemAmountLength \<and> \<not> containsControl amount"

definition content_ok :: "WorkItem \<Rightarrow> bool" where
  "content_ok i \<longleftrightarrow> title_ok (Title i) \<and> amount_ok (Amount i) \<and> (\<exists>raw. LanguageTag raw = Some (ContentLanguage i))
     \<and> StartAt i \<noteq> Some zeroTime"

definition state_fields_ok :: "WorkItem \<Rightarrow> bool" where
  "state_fields_ok i \<longleftrightarrow> (IsCompleted (ItemCompletion i) \<longleftrightarrow> CompletedAt (ItemCompletion i) \<noteq> None)
     \<and> (\<not> IsCompleted (ItemCompletion i) \<longrightarrow> ItemCompletion i = noCompletion)
     \<and> (if IsCompleted (ItemCompletion i) then 1 else 0) \<le> CompletionCount i
     \<and> (IsTrashed i \<longleftrightarrow> TrashBatchID i \<noteq> '''') \<and> (\<not> IsTrashed i \<longrightarrow> DeletedBy i = nobody)"

definition item_ok :: "WorkItem \<Rightarrow> bool" where
  "item_ok i \<longleftrightarrow> content_ok i \<and> state_fields_ok i"

text \<open>Where an item stands, which no step of its own changes.\<close>

definition identity_of :: "WorkItem \<Rightarrow> ID \<times> ID \<times> ID \<times> ItemType \<times> ID \<times> string \<times> int \<times> string \<times> string \<times> int" where
  "identity_of i = (ItemID i, TenantID i, CollectionID i, Type i, ParentID i, ItemPath i, Depth i, OrderKey i, CalendarUID i, Version i)"

definition states_of :: "WorkItem \<Rightarrow> Completion \<times> int \<times> time option \<times> time option \<times> DeletedByActor \<times> ID" where
  "states_of i = (ItemCompletion i, CompletionCount i, ArchivedAt i, DeletedAt i, DeletedBy i, TrashBatchID i)"

lemma itemTitle_ok: "itemTitle raw form = Inr title \<Longrightarrow> title_ok title"
  by (auto simp: itemTitle_def title_ok_def go_result split: if_splits)

lemma itemAmount_ok: "itemAmount raw form = Inr amount \<Longrightarrow> amount_ok amount"
  by (auto simp: itemAmount_def amount_ok_def go_result split: if_splits)

lemma contentLanguage_ok: "contentLanguage raw = Inr tag \<Longrightarrow> \<exists>raw. LanguageTag raw = Some tag"
  by (auto simp: contentLanguage_def split: option.splits)

lemma presentInstant_ok: "presentInstant t \<noteq> Some zeroTime"
  by (auto simp: presentInstant_def split: option.splits)

text \<open>
  One attribute keeps a property of the item that its setter keeps, for the values its reading gives.
\<close>

lemma updateField_keeps:
  assumes "updateField f attribute reading get put (i, changes) = Inr (i', changes')" "P i"
    and "\<And>raw v i. reading raw = Inr v \<Longrightarrow> P i \<Longrightarrow> P (put v i)"
  shows "P i'"
  using updateField_Inr [OF assms(1)] assms(2,3) by auto

lemma updateStart_keeps:
  assumes "updateStart instant attribute (i, changes) = (i', changes')" "P i"
    and "\<And>t i. t \<noteq> Some zeroTime \<Longrightarrow> P i \<Longrightarrow> P (i\<lparr>StartAt := t\<rparr>)"
  shows "P i'"
  using assms(1,2) assms(3) [OF presentInstant_ok] by (auto simp: updateStart_def Let_def split: option.splits if_splits)

lemma updateGuards_Inr:
  assumes "updateGuards a profile form i = Inr amount"
  shows "EnsureEditable i = None" "AttrAmount a = Some raw \<Longrightarrow> itemAmount raw form = Inr amount"
  using assms by (auto simp: updateGuards_def go_result split: option.splits)

text \<open>The rounds of an update.\<close>

lemma Updated_rounds:
  assumes "Updated instant i a profile form at = Inr (i', changes)"
  obtains m i1 c1 i2 c2 i3 c3 i4 c4 i5 c5 i6 where
    "updateGuards a profile form i = Inr m"
    "updateField ''title'' (AttrTitle a) (\<lambda>raw. itemTitle raw form) Title (\<lambda>v i. i\<lparr>Title := v\<rparr>) (i, []) = Inr (i1, c1)"
    "updateField ''amount'' (AttrAmount a) (\<lambda>_. Inr m) Amount (\<lambda>v i. i\<lparr>Amount := v\<rparr>) (i1, c1) = Inr (i2, c2)"
    "updateField ''notes'' (AttrNotes a) (\<lambda>raw. NFC (TrimSpace raw) form) Notes (\<lambda>v i. i\<lparr>Notes := v\<rparr>) (i2, c2) = Inr (i3, c3)"
    "updateField ''content_language'' (AttrContentLanguage a) contentLanguage ContentLanguage
         (\<lambda>v i. i\<lparr>ContentLanguage := v\<rparr>) (i3, c3) = Inr (i4, c4)"
    "updateField ''bucket_id'' (AttrBucketID a) Inr BucketID (\<lambda>v i. i\<lparr>BucketID := v\<rparr>) (i4, c4) = Inr (i5, c5)"
    "updateStart instant (AttrStartAt a) (i5, c5) = (i6, changes)"
    "i' = (if changes = [] then i6 else i6\<lparr>UpdatedAt := at\<rparr>)"
proof -
  obtain m s1 s2 s3 s4 s5 where
    s: "updateGuards a profile form i = Inr m"
    "updateField ''title'' (AttrTitle a) (\<lambda>raw. itemTitle raw form) Title (\<lambda>v i. i\<lparr>Title := v\<rparr>) (i, []) = Inr s1"
    "updateField ''amount'' (AttrAmount a) (\<lambda>_. Inr m) Amount (\<lambda>v i. i\<lparr>Amount := v\<rparr>) s1 = Inr s2"
    "updateField ''notes'' (AttrNotes a) (\<lambda>raw. NFC (TrimSpace raw) form) Notes (\<lambda>v i. i\<lparr>Notes := v\<rparr>) s2 = Inr s3"
    "updateField ''content_language'' (AttrContentLanguage a) contentLanguage ContentLanguage
         (\<lambda>v i. i\<lparr>ContentLanguage := v\<rparr>) s3 = Inr s4"
    "updateField ''bucket_id'' (AttrBucketID a) Inr BucketID (\<lambda>v i. i\<lparr>BucketID := v\<rparr>) s4 = Inr s5"
    and last: "(let (i', changes) = updateStart instant (AttrStartAt a) s5
       in if changes = [] then Inr (i', []) else Inr (i'\<lparr>UpdatedAt := at\<rparr>, changes)) = (Inr (i', changes) :: (WorkItem \<times> ItemFieldChange list) result)"
    using assms unfolding Updated_def go_result by blast
  obtain i6 c6 where "updateStart instant (AttrStartAt a) s5 = (i6, c6)" by (cases "updateStart instant (AttrStartAt a) s5")
  with last have "updateStart instant (AttrStartAt a) s5 = (i6, changes)"
    "i' = (if changes = [] then i6 else i6\<lparr>UpdatedAt := at\<rparr>)" by (auto split: if_splits)
  then show ?thesis
    using s by (cases s1, cases s2, cases s3, cases s4, cases s5) (auto intro: that)
qed

lemma Updated_keeps:
  assumes "Updated instant i a profile form at = Inr (i', changes)" "P i"
    and title: "\<And>raw v i. itemTitle raw form = Inr v \<Longrightarrow> P i \<Longrightarrow> P (i\<lparr>Title := v\<rparr>)"
    and amount: "\<And>raw v i. itemAmount raw form = Inr v \<Longrightarrow> P i \<Longrightarrow> P (i\<lparr>Amount := v\<rparr>)"
    and noted: "\<And>v i. P i \<Longrightarrow> P (i\<lparr>Notes := v\<rparr>)"
    and language: "\<And>raw v i. contentLanguage raw = Inr v \<Longrightarrow> P i \<Longrightarrow> P (i\<lparr>ContentLanguage := v\<rparr>)"
    and bucket: "\<And>v i. P i \<Longrightarrow> P (i\<lparr>BucketID := v\<rparr>)"
    and start: "\<And>t i. t \<noteq> Some zeroTime \<Longrightarrow> P i \<Longrightarrow> P (i\<lparr>StartAt := t\<rparr>)"
    and stamp: "\<And>at i. P i \<Longrightarrow> P (i\<lparr>UpdatedAt := at\<rparr>)"
  shows "P i'"
  using assms(1)
proof (rule Updated_rounds)
  fix m i1 c1 i2 c2 i3 c3 i4 c4 i5 c5 i6
  assume g: "updateGuards a profile form i = Inr m"
    and 1: "updateField ''title'' (AttrTitle a) (\<lambda>raw. itemTitle raw form) Title (\<lambda>v i. i\<lparr>Title := v\<rparr>) (i, []) = Inr (i1, c1)"
    and 2: "updateField ''amount'' (AttrAmount a) (\<lambda>_. Inr m) Amount (\<lambda>v i. i\<lparr>Amount := v\<rparr>) (i1, c1) = Inr (i2, c2)"
    and 3: "updateField ''notes'' (AttrNotes a) (\<lambda>raw. NFC (TrimSpace raw) form) Notes (\<lambda>v i. i\<lparr>Notes := v\<rparr>) (i2, c2) = Inr (i3, c3)"
    and 4: "updateField ''content_language'' (AttrContentLanguage a) contentLanguage ContentLanguage
         (\<lambda>v i. i\<lparr>ContentLanguage := v\<rparr>) (i3, c3) = Inr (i4, c4)"
    and 5: "updateField ''bucket_id'' (AttrBucketID a) Inr BucketID (\<lambda>v i. i\<lparr>BucketID := v\<rparr>) (i4, c4) = Inr (i5, c5)"
    and 6: "updateStart instant (AttrStartAt a) (i5, c5) = (i6, changes)"
    and r: "i' = (if changes = [] then i6 else i6\<lparr>UpdatedAt := at\<rparr>)"
  have "P i1" by (rule updateField_keeps [OF 1 assms(2) title])
  have "P i2" using updateField_Inr [OF 2] \<open>P i1\<close> updateGuards_Inr(2) [OF g] amount by auto
  have "P i3" by (rule updateField_keeps [OF 3 \<open>P i2\<close> noted])
  have "P i4" by (rule updateField_keeps [OF 4 \<open>P i3\<close> language])
  have "P i5" by (rule updateField_keeps [OF 5 \<open>P i4\<close> bucket])
  have "P i6" by (rule updateStart_keeps [OF 6 \<open>P i5\<close> start])
  then show ?thesis using r stamp by simp
qed

section \<open>The invariant\<close>

lemma Updated_content: "Updated instant i a profile form at = Inr (i', changes) \<Longrightarrow> content_ok i \<Longrightarrow> content_ok i'"
  by (erule Updated_keeps) (auto simp: content_ok_def dest: itemTitle_ok itemAmount_ok contentLanguage_ok)

lemma Updated_states: "Updated instant i a profile form at = Inr (i', changes) \<Longrightarrow> states_of i' = states_of i"
  by (erule Updated_keeps) (auto simp: states_of_def)

lemma Updated_identity: "Updated instant i a profile form at = Inr (i', changes) \<Longrightarrow> identity_of i' = identity_of i"
  by (erule Updated_keeps) (auto simp: identity_of_def)

lemma state_fields_states: "states_of i' = states_of i \<Longrightarrow> state_fields_ok i \<Longrightarrow> state_fields_ok i'"
  by (auto simp add: states_of_def state_fields_ok_def IsTrashed_def)

lemmas item_operations = WithDueDate_def Completed_def Reopened_def Assigned_def Unassigned_def Covered_def
  Uncovered_def WithCustomField_def Archived_def Unarchived_def Trashed_def Restored_def

lemma item_step_identity: "item_step instant i i' \<Longrightarrow> identity_of i' = identity_of i"
proof (induction rule: item_step.induct)
  case updated
  then show ?case by (rule Updated_identity)
qed (auto simp: item_operations identity_of_def go_result Let_def split: if_splits option.splits)

lemma item_step_content: "item_step instant i i' \<Longrightarrow> content_ok i \<Longrightarrow> content_ok i'"
proof (induction rule: item_step.induct)
  case updated
  then show ?case by (rule Updated_content)
qed (auto simp: item_operations content_ok_def go_result Let_def split: if_splits option.splits)

lemma item_step_states: "item_step instant i i' \<Longrightarrow> state_fields_ok i \<Longrightarrow> state_fields_ok i'"
proof (induction rule: item_step.induct)
  case updated
  then show ?case using Updated_states state_fields_states by blast
qed (auto simp: item_operations state_fields_ok_def noCompletion_def IsTrashed_def IsZero_def go_result Let_def
      split: if_splits option.splits)

lemma item_step_keeps_ok: "item_step instant i i' \<Longrightarrow> item_ok i \<Longrightarrow> item_ok i'"
  using item_step_content item_step_states by (simp add: item_ok_def)

lemma NewWorkItem_ok: "NewWorkItem inp = Inr i \<Longrightarrow> item_ok i"
  by (auto simp: NewWorkItem_def item_ok_def content_ok_def state_fields_ok_def noCompletion_def IsTrashed_def
        go_result presentInstant_ok dest: itemTitle_ok itemAmount_ok contentLanguage_ok split: if_splits)

section \<open>Repeating an update\<close>

lemma updateField_settled:
  "(\<And>raw. attribute = Some raw \<Longrightarrow> reading raw = Inr (get i)) \<Longrightarrow>
   updateField f attribute reading get put (i, changes) = Inr (i, changes)"
  by (simp add: updateField_def split: option.splits)

lemma updateField_settles:
  assumes "updateField f attribute reading get put (i, changes) = Inr (i', changes')" "attribute = Some raw"
    and "\<And>v i. get (put v i) = v"
  shows "reading raw = Inr (get i')"
  using updateField_Inr [OF assms(1)] assms(2,3) by auto

lemma updateField_frame:
  assumes "updateField f attribute reading get put (i, changes) = Inr (i', changes')" "\<And>v i. other (put v i) = other i"
  shows "other i' = other i"
  using updateField_Inr [OF assms(1)] assms(2) by auto

text \<open>The fields reported so far are among \<open>names\<close>, each once; no report means no change.\<close>

definition report_ok :: "WorkItem \<Rightarrow> string set \<Rightarrow> WorkItem \<times> ItemFieldChange list \<Rightarrow> bool" where
  "report_ok i names = (\<lambda>(i', changes).
     distinct (map Field changes) \<and> Field ` set changes \<subseteq> names \<and> (changes = [] \<longrightarrow> i' = i))"

lemma updateField_report:
  assumes "updateField f attribute reading get put (i, changes) = Inr (i', changes')"
    and "report_ok i0 names (i, changes)" "f \<notin> names"
  shows "report_ok i0 (insert f names) (i', changes')"
  using updateField_Inr [OF assms(1)] assms(2,3) by (auto simp: report_ok_def fieldChange_def image_subset_iff)

lemma updateStart_report:
  assumes "updateStart instant attribute (i, changes) = (i', changes')"
  shows "report_ok i0 names (i, changes) \<Longrightarrow> ''start_at'' \<notin> names \<Longrightarrow> report_ok i0 (insert ''start_at'' names) (i', changes')"
    and "\<forall>at. attribute = Some at \<longrightarrow> StartAt i' = presentInstant (Some at)"
    and "(\<And>t i. other (i\<lparr>StartAt := t\<rparr>) = other i) \<Longrightarrow> other i' = other i"
  using assms by (auto simp: updateStart_def fieldChange_def report_ok_def image_subset_iff Let_def split: option.splits if_splits)

lemma Updated_report:
  assumes "Updated instant i a profile form at = Inr (i', changes)"
  shows "distinct (map Field changes) \<and> (changes = [] \<longrightarrow> i' = i)"
  using assms
proof (rule Updated_rounds)
  fix m i1 c1 i2 c2 i3 c3 i4 c4 i5 c5 i6
  assume u: "updateField ''title'' (AttrTitle a) (\<lambda>raw. itemTitle raw form) Title (\<lambda>v i. i\<lparr>Title := v\<rparr>) (i, []) = Inr (i1, c1)"
    "updateField ''amount'' (AttrAmount a) (\<lambda>_. Inr m) Amount (\<lambda>v i. i\<lparr>Amount := v\<rparr>) (i1, c1) = Inr (i2, c2)"
    "updateField ''notes'' (AttrNotes a) (\<lambda>raw. NFC (TrimSpace raw) form) Notes (\<lambda>v i. i\<lparr>Notes := v\<rparr>) (i2, c2) = Inr (i3, c3)"
    "updateField ''content_language'' (AttrContentLanguage a) contentLanguage ContentLanguage
         (\<lambda>v i. i\<lparr>ContentLanguage := v\<rparr>) (i3, c3) = Inr (i4, c4)"
    "updateField ''bucket_id'' (AttrBucketID a) Inr BucketID (\<lambda>v i. i\<lparr>BucketID := v\<rparr>) (i4, c4) = Inr (i5, c5)"
    and 6: "updateStart instant (AttrStartAt a) (i5, c5) = (i6, changes)"
    and r: "i' = (if changes = [] then i6 else i6\<lparr>UpdatedAt := at\<rparr>)"
  have "report_ok i {} (i, [])" by (simp add: report_ok_def)
  note 1 = updateField_report [OF u(1) this]
  note 2 = updateField_report [OF u(2) 1]
  note 3 = updateField_report [OF u(3) 2]
  note 4 = updateField_report [OF u(4) 3]
  note 5 = updateField_report [OF u(5) 4]
  have "report_ok i {''start_at'', ''bucket_id'', ''content_language'', ''notes'', ''amount'', ''title''} (i6, changes)"
    by (rule updateStart_report(1) [OF 6 5]) simp_all
  then show ?thesis using r by (auto simp: report_ok_def)
qed

lemma updateGuards_again:
  assumes "updateGuards a profile form i = Inr m" "states_of i' = states_of i"
  shows "updateGuards a profile form i' = Inr m"
proof -
  have "EnsureEditable i' = None"
    using updateGuards_Inr(1) [OF assms(1)] assms(2) by (simp add: EnsureEditable_None states_of_def IsTrashed_def IsArchived_def)
  then show ?thesis using assms(1) by (simp add: updateGuards_def go_result)
qed

lemma Updated_again:
  assumes "Updated instant i a profile form at = Inr (i', changes)"
  shows "Updated instant i' a profile form at' = Inr (i', [])"
  using assms
proof (rule Updated_rounds)
  fix m i1 c1 i2 c2 i3 c3 i4 c4 i5 c5 i6
  assume g: "updateGuards a profile form i = Inr m"
    and u: "updateField ''title'' (AttrTitle a) (\<lambda>raw. itemTitle raw form) Title (\<lambda>v i. i\<lparr>Title := v\<rparr>) (i, []) = Inr (i1, c1)"
    "updateField ''amount'' (AttrAmount a) (\<lambda>_. Inr m) Amount (\<lambda>v i. i\<lparr>Amount := v\<rparr>) (i1, c1) = Inr (i2, c2)"
    "updateField ''notes'' (AttrNotes a) (\<lambda>raw. NFC (TrimSpace raw) form) Notes (\<lambda>v i. i\<lparr>Notes := v\<rparr>) (i2, c2) = Inr (i3, c3)"
    "updateField ''content_language'' (AttrContentLanguage a) contentLanguage ContentLanguage
         (\<lambda>v i. i\<lparr>ContentLanguage := v\<rparr>) (i3, c3) = Inr (i4, c4)"
    "updateField ''bucket_id'' (AttrBucketID a) Inr BucketID (\<lambda>v i. i\<lparr>BucketID := v\<rparr>) (i4, c4) = Inr (i5, c5)"
    and 6: "updateStart instant (AttrStartAt a) (i5, c5) = (i6, changes)"
    and r: "i' = (if changes = [] then i6 else i6\<lparr>UpdatedAt := at\<rparr>)"
  note f2 = updateField_frame [OF u(2)] and f3 = updateField_frame [OF u(3)] and f4 = updateField_frame [OF u(4)]
    and f5 = updateField_frame [OF u(5)] and f6 = updateStart_report(3) [OF 6]
  have kept: "Title i' = Title i1" "Amount i' = Amount i2" "Notes i' = Notes i3" "ContentLanguage i' = ContentLanguage i4"
    "BucketID i' = BucketID i5" "StartAt i' = StartAt i6"
    using f2 [of Title] f3 [of Title] f4 [of Title] f5 [of Title] f6 [of Title] f3 [of Amount] f4 [of Amount] f5 [of Amount]
      f6 [of Amount] f4 [of Notes] f5 [of Notes] f6 [of Notes] f5 [of ContentLanguage] f6 [of ContentLanguage] f6 [of BucketID]
    by (simp_all add: r)
  have settled:
    "AttrTitle a = Some raw \<Longrightarrow> itemTitle raw form = Inr (Title i')"
    "AttrAmount a = Some raw \<Longrightarrow> m = Amount i'"
    "AttrNotes a = Some raw \<Longrightarrow> NFC (TrimSpace raw) form = Inr (Notes i')"
    "AttrContentLanguage a = Some raw \<Longrightarrow> contentLanguage raw = Inr (ContentLanguage i')"
    "AttrBucketID a = Some raw \<Longrightarrow> raw = BucketID i'" for raw
    using updateField_settles [OF u(1), of raw] updateField_settles [OF u(2), of raw] updateField_settles [OF u(3), of raw]
      updateField_settles [OF u(4), of raw] updateField_settles [OF u(5), of raw] by (simp_all add: kept)
  have "updateStart instant (AttrStartAt a) (i', []) = (i', [])"
    using updateStart_report(2) [OF 6] kept(6) by (simp add: updateStart_def split: option.splits)
  then show ?thesis
    using updateGuards_again [OF g Updated_states [OF assms]] settled
    by (simp add: Updated_def updateField_settled)
qed

section \<open>An example\<close>

definition taskProfile :: CapabilityProfile where
  "taskProfile = \<lparr>ProfileType = ItemTask, Capabilities = [CapabilityCompletion, CapabilityDueDate, CapabilityAssignment, CapabilityLabels],
     AllowedChildTypes = [ItemWorkPackage], MaxDepth = 2, Hidden = []\<rparr>"

definition exampleItem :: WorkItem where
  "exampleItem = \<lparr>ItemID = ''i1'', TenantID = ''t'', CollectionID = ''c'', Type = ItemTask, ParentID = '''', ItemPath = ''/i1/'',
     Depth = 1, Title = ''Plan'', Amount = '''', Notes = '''', ItemCompletion = noCompletion, CompletionCount = 0, StartAt = None,
     Due = None, BucketID = '''', OrderKey = ''a0'', AssigneeID = '''', ItemCover = None, CustomFields = [], ContentLanguage = ''en'',
     CalendarUID = '''', ArchivedAt = None, DeletedAt = None, DeletedBy = nobody, TrashBatchID = '''', CreatedBy = ''u'',
     CreatedAt = 5, UpdatedAt = 5, Version = 1\<rparr>"

definition exampleInput :: NewWorkItemInput where
  "exampleInput = \<lparr>InID = ''i1'', InTenantID = ''t'', InCollectionID = ''c'', InType = ItemTask, InParentID = '''', InTitle = ''  Plan '',
     InNotes = '''', InAmount = '''', InBucketID = '''', InContentLanguage = ''en'', InStartAt = None, InCalendarUID = '''',
     InText = None, InProfile = taskProfile, InPath = ''/i1/'', InDepth = 1, InOrderKey = ''a0'', InCreatedBy = ''u'', InNow = 5\<rparr>"

lemma example_created: "NewWorkItem exampleInput = Inr exampleItem"
  by code_simp

lemma example_ok: "item_ok exampleItem"
  by (rule NewWorkItem_ok [OF example_created])

section \<open>Properties\<close>

text \<open>
  C28.  Whatever sequence of changes an item goes through after its creation, it keeps its invariant: a title
  that is not empty, within its length and without control characters, an amount within its length, a language
  tag that parses, a completion that has its moment exactly when it is completed and counts every completion, and
  a trash batch and a deleting actor exactly when it is in the trash.  No change of an item touches its identity,
  its place in the tree, its rank or its version.
\<close>

theorem item_life_ok:
  assumes "NewWorkItem inp = Inr i" "(item_step instant)\<^sup>*\<^sup>* i i'"
  shows "item_ok i' \<and> identity_of i' = identity_of i"
  using assms(2)
proof (induction rule: rtranclp_induct)
  case base
  then show ?case using NewWorkItem_ok [OF assms(1)] by simp
next
  case (step y z)
  then show ?case using item_step_keeps_ok item_step_identity by simp
qed

theorem item_life_ok_witness:
  "item_ok (exampleItem\<lparr>DeletedAt := Some 9, TrashBatchID := ''b'', DeletedBy := nobody, UpdatedAt := 9\<rparr>)"
proof -
  have "Trashed (\<lambda>_. '''') exampleItem 9 ''b'' nobody =
      Inr (exampleItem\<lparr>DeletedAt := Some 9, TrashBatchID := ''b'', DeletedBy := nobody, UpdatedAt := 9\<rparr>, [fieldChange ''deleted_at'' '''' ''''])"
    by (simp add: Trashed_def exampleItem_def IsTrashed_def IsZero_def)
  then have "item_step (\<lambda>_. '''') exampleItem
      (exampleItem\<lparr>DeletedAt := Some 9, TrashBatchID := ''b'', DeletedBy := nobody, UpdatedAt := 9\<rparr>)" by (rule item_step.trashed)
  with item_life_ok [OF example_created] show ?thesis by blast
qed

text \<open>The item without its archive and trash state.\<close>

definition frozen_part :: "WorkItem \<Rightarrow> WorkItem" where
  "frozen_part i = i\<lparr>ArchivedAt := None, DeletedAt := None, DeletedBy := nobody, TrashBatchID := '''', UpdatedAt := 0\<rparr>"

inductive_cases item_stepE: "item_step instant i i'"

lemma not_editable_guards:
  assumes "IsTrashed i \<or> IsArchived i"
  shows "EnsureCompletable i profile \<noteq> None" "EnsureAssignable i profile \<noteq> None" "EnsureCoverable i profile \<noteq> None"
    "EnsureCustomisable i profile \<noteq> None" "Updated instant i a profile form at \<noteq> Inr r" "WithDueDate instant i due profile at \<noteq> Inr r"
  using assms by (auto simp: item_guards EnsureEditable_None Updated_def updateGuards_def WithDueDate_def go_result split: option.splits)

text \<open>
  C29.  An archived or trashed item is read-only: the only steps it takes are those of the archive and the
  trash, which leave every other part of it alone; and an item in the trash cannot be archived or unarchived.
\<close>

theorem frozen_read_only:
  assumes "item_step instant i i'" "IsTrashed i \<or> IsArchived i"
  shows "frozen_part i' = frozen_part i \<and> (IsTrashed i \<longrightarrow> ArchivedAt i' = ArchivedAt i)"
  using assms(1)
  by (rule item_stepE) (use not_editable_guards [OF assms(2)] in
    \<open>auto simp: Archived_def Unarchived_def Trashed_def Restored_def ensureLifecycleChangeable_def frozen_part_def go_result split: if_splits\<close>)

theorem frozen_read_only_witness:
  "frozen_part (exampleItem\<lparr>ArchivedAt := None, UpdatedAt := 9\<rparr>) = frozen_part (exampleItem\<lparr>ArchivedAt := Some 7\<rparr>)"
proof -
  have "Unarchived (\<lambda>_. '''') (exampleItem\<lparr>ArchivedAt := Some 7\<rparr>) 9 =
      Inr (exampleItem\<lparr>ArchivedAt := None, UpdatedAt := 9\<rparr>, [fieldChange ''archived_at'' '''' ''''])"
    by (simp add: Unarchived_def ensureLifecycleChangeable_def exampleItem_def IsTrashed_def IsArchived_def instantValue_def)
  then have "item_step (\<lambda>_. '''') (exampleItem\<lparr>ArchivedAt := Some 7\<rparr>) (exampleItem\<lparr>ArchivedAt := None, UpdatedAt := 9\<rparr>)"
    by (rule item_step.unarchived)
  then show ?thesis using frozen_read_only by (fastforce simp: IsArchived_def)
qed

text \<open>
  An update reports each changed field once, reports nothing only when it changed nothing, and applied a
  second time changes and reports nothing, whatever the text normaliser does.
\<close>

theorem Updated_idempotent:
  assumes "Updated instant i a profile form at = Inr (i', changes)"
  shows "distinct (map Field changes) \<and> (changes = [] \<longrightarrow> i' = i) \<and> Updated instant i' a profile form at' = Inr (i', [])"
  using Updated_report [OF assms] Updated_again [OF assms] by blast

definition exampleRename :: ItemAttributes where
  "exampleRename = \<lparr>AttrTitle = Some '' Ship '', AttrNotes = None, AttrAmount = None, AttrBucketID = None, AttrContentLanguage = None,
     AttrStartAt = None\<rparr>"

theorem Updated_idempotent_witness:
  "Updated (\<lambda>_. '''') (exampleItem\<lparr>Title := ''Ship'', UpdatedAt := 9\<rparr>) exampleRename taskProfile None 11
     = Inr (exampleItem\<lparr>Title := ''Ship'', UpdatedAt := 9\<rparr>, [])"
proof -
  have "Updated (\<lambda>_. '''') exampleItem exampleRename taskProfile None 9
      = Inr (exampleItem\<lparr>Title := ''Ship'', UpdatedAt := 9\<rparr>, [fieldChange ''title'' ''Plan'' ''Ship''])" by code_simp
  from Updated_idempotent [OF this] show ?thesis by blast
qed

end
