(* ===== verification/Containers.thy ===== *)
theory Containers
  imports Items
begin

text \<open>
  Hubs and collections, from \<^verbatim>\<open>core/domain/model/work/Container.go\<close>: what a container may hold, when it
  may be changed, and each change with the fields it reports.  The policies of a collection (completion,
  automatic assignment, structure) are other components and no fields of this record.
\<close>

datatype ContainerType = ContainerHub | ContainerCollection | OtherContainer string

fun containerTypeName :: "ContainerType \<Rightarrow> string" where
  "containerTypeName ContainerHub = ''HUB''"
| "containerTypeName ContainerCollection = ''COLLECTION''"
| "containerTypeName (OtherContainer text) = text"

definition ContainerTypes :: "ContainerType list" where
  "ContainerTypes = [ContainerHub, ContainerCollection]"

definition ContainerType_Valid :: "ContainerType \<Rightarrow> bool" where
  "ContainerType_Valid t = List.member ContainerTypes t"

definition ContainerType_AllowsChild :: "ContainerType \<Rightarrow> ContainerType \<Rightarrow> bool" where
  "ContainerType_AllowsChild t child = (t = ContainerHub \<and> child = ContainerCollection)"

definition MaxContainerNameLength :: nat where
  "MaxContainerNameLength = 200"

record Container =
  ContID :: ID
  ContTenantID :: ID
  ContType :: ContainerType
  ContParentID :: ID
  ContName :: string
  ContDescription :: string
  ContIcon :: string
  ContColorToken :: string
  ContOrderKey :: string
  ContArchivedAt :: "time option"
  ContDeletedAt :: "time option"
  ContDeletedBy :: DeletedByActor
  ParentArchivedAt :: "time option"
  ContTrashBatchID :: ID
  ContCreatedBy :: ID
  ContCreatedAt :: time
  ContUpdatedAt :: time
  ContVersion :: int
  Private :: bool
  Handle :: string
  KeyPrefix :: string

section \<open>Creation\<close>

record NewContainerInput =
  CInID :: ID
  CInTenantID :: ID
  CInType :: ContainerType
  CInParentID :: ID
  CInName :: string
  CInDescription :: string
  CInIcon :: string
  CInColorToken :: string
  CInOrderKey :: string
  CInCreatedBy :: ID
  CInNow :: time
  CInPrivate :: bool
  CInText :: normalizer

definition LabelTokens :: "string list" where
  "LabelTokens = [''slate'', ''blue'', ''teal'', ''green'', ''lime'', ''amber'', ''orange'', ''red'', ''magenta'', ''violet'']"

definition IsLabelToken :: "string \<Rightarrow> bool" where
  "IsLabelToken name = List.member LabelTokens name"

definition knownColorToken :: "string \<Rightarrow> string \<Rightarrow> failure option" where
  "knownColorToken token code =
     (if token = '''' \<or> IsLabelToken token then None
      else Some (Failure (WithFields (WithDetail ErrValidation code) [field_error ''/color_token'' code])))"

definition ErrPrivateOnlyHubs :: failure where
  "ErrPrivateOnlyHubs =
     Failure (WithFields (WithDetail ErrValidation ''containers.private_only_hubs'')
       [field_error ''/private'' ''containers.private_only_hubs''])"

definition checkParent :: "ContainerType \<Rightarrow> ID \<Rightarrow> failure option" where
  "checkParent containerType parentID =
     (if containerType = ContainerHub \<and> \<not> IsZero parentID
      then Some (Failure (WithFields (WithDetail ErrValidation ''containers.hub_has_no_parent'')
        [field_error ''/parent_id'' ''containers.hub_has_no_parent'']))
      else if containerType = ContainerCollection \<and> IsZero parentID
      then Some (Failure (WithFields (WithDetail ErrValidation ''containers.collection_needs_parent'')
        [field_error ''/parent_id'' ''containers.collection_needs_parent'']))
      else None)"

definition containerName :: "string \<Rightarrow> normalizer \<Rightarrow> string result" where
  "containerName raw form =
     rbind (NFC (TrimSpace raw) form) (\<lambda>name.
       if name = ''''
       then Inl (Failure (WithFields (WithDetail ErrValidation ''containers.name_empty'')
         [field_error ''/name'' ''containers.name_empty'']))
       else if RuneCountInString name > MaxContainerNameLength
       then Inl (Failure (WithFields (WithParams (WithDetail ErrValidation ''containers.name_too_long'')
         [(''maximum'', ''200'')]) [field_error ''/name'' ''containers.name_too_long'']))
       else if containsControl name
       then Inl (Failure (WithFields (WithDetail ErrValidation ''containers.name_malformed'')
         [field_error ''/name'' ''containers.name_malformed'']))
       else Inr name)"

definition containerIdentityIncomplete :: failure where
  "containerIdentityIncomplete = Failure (WithDetail ErrInternal ''containers.identity_incomplete'')"

definition NewContainer :: "NewContainerInput \<Rightarrow> Container result" where
  "NewContainer inp =
     (if \<not> ContainerType_Valid (CInType inp)
      then Inl (Failure (WithFields (WithParams (WithDetail ErrValidation ''containers.type_unknown'')
        [(''value'', containerTypeName (CInType inp))]) [field_error ''/type'' ''containers.type_unknown'']))
      else
        rbind (containerName (CInName inp) (CInText inp)) (\<lambda>name.
        rbind (NFC (TrimSpace (CInDescription inp)) (CInText inp)) (\<lambda>description.
        guarded (checkParent (CInType inp) (CInParentID inp)) (
        if CInPrivate inp \<and> CInType inp \<noteq> ContainerHub then Inl ErrPrivateOnlyHubs
        else guarded (knownColorToken (TrimSpace (CInColorToken inp)) ''containers.color_token_unknown'') (
        if IsZero (CInID inp) \<or> IsZero (CInTenantID inp) \<or> IsZero (CInCreatedBy inp) \<or> CInOrderKey inp = ''''
        then Inl containerIdentityIncomplete
        else Inr \<lparr>ContID = CInID inp, ContTenantID = CInTenantID inp, ContType = CInType inp,
          ContParentID = CInParentID inp, ContName = name, ContDescription = description,
          ContIcon = TrimSpace (CInIcon inp), ContColorToken = TrimSpace (CInColorToken inp),
          ContOrderKey = CInOrderKey inp, ContArchivedAt = None, ContDeletedAt = None, ContDeletedBy = nobody,
          ParentArchivedAt = None, ContTrashBatchID = '''', ContCreatedBy = CInCreatedBy inp,
          ContCreatedAt = CInNow inp, ContUpdatedAt = CInNow inp, ContVersion = 1, Private = CInPrivate inp,
          Handle = '''', KeyPrefix = ''''\<rparr>)))))"

section \<open>States and guards\<close>

definition Container_IsArchived :: "Container \<Rightarrow> bool" where
  "Container_IsArchived c = (ContArchivedAt c \<noteq> None)"

definition IsEffectivelyArchived :: "Container \<Rightarrow> bool" where
  "IsEffectivelyArchived c = (ContArchivedAt c \<noteq> None \<or> ParentArchivedAt c \<noteq> None)"

definition EffectiveArchivedAt :: "Container \<Rightarrow> time option" where
  "EffectiveArchivedAt c = (if ContArchivedAt c \<noteq> None then ContArchivedAt c else ParentArchivedAt c)"

definition ArchivedRootID :: "Container \<Rightarrow> ID" where
  "ArchivedRootID c =
     (if ContArchivedAt c \<noteq> None then ContID c
      else if ParentArchivedAt c \<noteq> None then ContParentID c
      else '''')"

definition Container_IsTrashed :: "Container \<Rightarrow> bool" where
  "Container_IsTrashed c = (ContDeletedAt c \<noteq> None)"

definition EnsureAcceptsChildren :: "Container \<Rightarrow> ContainerType \<Rightarrow> failure option" where
  "EnsureAcceptsChildren c child =
     (if Container_IsTrashed c
      then Some (Failure (WithParams (WithDetail ErrConflict ''containers.parent_trashed'') [(''parent_id'', ContID c)]))
      else if IsEffectivelyArchived c
      then Some (Failure (WithParams (WithDetail ErrConflict ''containers.parent_archived'')
        [(''parent_id'', ContID c), (''archived_id'', ArchivedRootID c)]))
      else if \<not> ContainerType_AllowsChild (ContType c) child
      then Some (Failure (WithFields (WithParams (WithDetail ErrValidation ''containers.parent_type_invalid'')
        [(''parent_type'', containerTypeName (ContType c)), (''type'', containerTypeName child)])
        [field_error ''/parent_id'' ''containers.parent_type_invalid'']))
      else None)"

definition EnsureAcceptsItems :: "Container \<Rightarrow> failure option" where
  "EnsureAcceptsItems c =
     (if Container_IsTrashed c
      then Some (Failure (WithParams (WithDetail ErrConflict ''items.collection_trashed'') [(''collection_id'', ContID c)]))
      else if IsEffectivelyArchived c
      then Some (Failure (WithParams (WithDetail ErrConflict ''items.collection_archived'')
        [(''collection_id'', ContID c), (''archived_id'', ArchivedRootID c)]))
      else if ContType c \<noteq> ContainerCollection
      then Some (Failure (WithFields (WithParams (WithDetail ErrValidation ''items.collection_required'')
        [(''container_type'', containerTypeName (ContType c))]) [field_error ''/collection_id'' ''items.collection_required'']))
      else None)"

definition containerTrashed :: "Container \<Rightarrow> failure" where
  "containerTrashed c = Failure (WithParams (WithDetail ErrConflict ''containers.trashed'') [(''container_id'', ContID c)])"

definition containerArchived :: "Container \<Rightarrow> ID \<Rightarrow> failure" where
  "containerArchived c root =
     Failure (WithParams (WithDetail ErrConflict ''containers.archived'') [(''container_id'', ContID c), (''archived_id'', root)])"

definition Container_ensureLifecycleChangeable :: "Container \<Rightarrow> failure option" where
  "Container_ensureLifecycleChangeable c =
     (if Container_IsTrashed c then Some (containerTrashed c)
      else if ParentArchivedAt c \<noteq> None then Some (containerArchived c (ContParentID c))
      else None)"

definition Container_EnsureEditable :: "Container \<Rightarrow> failure option" where
  "Container_EnsureEditable c =
     (if Container_IsTrashed c then Some (containerTrashed c)
      else if IsEffectivelyArchived c then Some (containerArchived c (ArchivedRootID c))
      else None)"

section \<open>Changes\<close>

record ContainerAttributes =
  CAttrName :: "string option"
  CAttrDescription :: "string option"
  CAttrIcon :: "string option"
  CAttrColorToken :: "string option"
  CAttrKeyPrefix :: "string option"

definition ContainerAttributes_IsEmpty :: "ContainerAttributes \<Rightarrow> bool" where
  "ContainerAttributes_IsEmpty a =
     (CAttrName a = None \<and> CAttrDescription a = None \<and> CAttrIcon a = None \<and> CAttrColorToken a = None \<and> CAttrKeyPrefix a = None)"

definition renameName :: "ContainerAttributes \<Rightarrow> normalizer \<Rightarrow> Container \<times> ItemFieldChange list
    \<Rightarrow> (Container \<times> ItemFieldChange list) result" where
  "renameName a form = (\<lambda>(c, changes).
     case CAttrName a of
       None \<Rightarrow> Inr (c, changes)
     | Some raw \<Rightarrow> rbind (containerName raw form) (\<lambda>name.
         if name \<noteq> ContName c then Inr (c\<lparr>ContName := name\<rparr>, changes @ [fieldChange ''name'' (ContName c) name])
         else Inr (c, changes)))"

text \<open>One round of the loop over the description, the icon and the colour.\<close>

definition renameField :: "string \<Rightarrow> string option \<Rightarrow> bool \<Rightarrow> (Container \<Rightarrow> string) \<Rightarrow> (string \<Rightarrow> Container \<Rightarrow> Container)
    \<Rightarrow> normalizer \<Rightarrow> Container \<times> ItemFieldChange list \<Rightarrow> (Container \<times> ItemFieldChange list) result" where
  "renameField f want isText get put form = (\<lambda>(c, changes).
     case want of
       None \<Rightarrow> Inr (c, changes)
     | Some raw \<Rightarrow> rbind (if isText then NFC (TrimSpace raw) form else Inr (TrimSpace raw)) (\<lambda>wanted.
         if wanted = get c then Inr (c, changes)
         else if containsControl wanted
         then Inl (Failure (WithFields (WithParams (WithDetail ErrValidation ''containers.field_malformed'') [(''field'', f)])
           [field_error (''/'' @ f) ''containers.field_malformed'']))
         else guarded (if f = ''color_token'' then knownColorToken wanted ''containers.color_token_unknown'' else None)
           (Inr (put wanted c, changes @ [fieldChange f (get c) wanted]))))"

text \<open>
  \<^verbatim>\<open>strings.ToUpper\<close> up to the test that follows it: beside the ASCII letters only the dotless i and the
  long s have an ASCII capital, and every other letter outside ASCII is refused in either case.
\<close>

fun toUpper :: "string \<Rightarrow> string" where
  "toUpper [] = []"
| "toUpper [c] = [if CHR ''a'' \<le> c \<and> c \<le> CHR ''z'' then char_of (byte c - 32) else c]"
| "toUpper (c # d # s) =
     (if byte c = 0xC4 \<and> byte d = 0xB1 then CHR ''I'' # toUpper s
      else if byte c = 0xC5 \<and> byte d = 0xBF then CHR ''S'' # toUpper s
      else (if CHR ''a'' \<le> c \<and> c \<le> CHR ''z'' then char_of (byte c - 32) else c) # toUpper (d # s))"

definition ValidKeyPrefix :: "string \<Rightarrow> bool" where
  "ValidKeyPrefix wantedPrefix =
     (if length wantedPrefix < 2 \<or> length wantedPrefix > 5 \<or> wantedPrefix ! 0 < CHR ''A'' \<or> wantedPrefix ! 0 > CHR ''Z'' then False
      else list_all (\<lambda>r. \<not> ((r < CHR ''A'' \<or> r > CHR ''Z'') \<and> (r < CHR ''0'' \<or> r > CHR ''9''))) wantedPrefix)"

definition keyPrefixRefusal :: "string \<Rightarrow> failure" where
  "keyPrefixRefusal code = Failure (WithFields (WithDetail ErrValidation code) [field_error ''/key_prefix'' code])"

definition keyPrefix :: "Container \<Rightarrow> string \<Rightarrow> string result" where
  "keyPrefix c wanted =
     (let wantedPrefix = toUpper (TrimSpace wanted) in
      if wantedPrefix = '''' then Inr ''''
      else if ContType c \<noteq> ContainerCollection then Inl (keyPrefixRefusal ''containers.key_prefix_collection_only'')
      else if \<not> ValidKeyPrefix wantedPrefix then Inl (keyPrefixRefusal ''containers.key_prefix_invalid'')
      else Inr wantedPrefix)"

definition renameKeyPrefix :: "ContainerAttributes \<Rightarrow> Container \<times> ItemFieldChange list
    \<Rightarrow> (Container \<times> ItemFieldChange list) result" where
  "renameKeyPrefix a = (\<lambda>(c, changes).
     case CAttrKeyPrefix a of
       None \<Rightarrow> Inr (c, changes)
     | Some raw \<Rightarrow> rbind (keyPrefix c raw) (\<lambda>wantedPrefix.
         if wantedPrefix \<noteq> KeyPrefix c
         then Inr (c\<lparr>KeyPrefix := wantedPrefix\<rparr>, changes @ [fieldChange ''key_prefix'' (KeyPrefix c) wantedPrefix])
         else Inr (c, changes)))"

definition stampedChange :: "time \<Rightarrow> Container \<times> ItemFieldChange list \<Rightarrow> Container \<times> ItemFieldChange list" where
  "stampedChange at = (\<lambda>(c, changes). if changes = [] then (c, []) else (c\<lparr>ContUpdatedAt := at\<rparr>, changes))"

definition Renamed :: "Container \<Rightarrow> ContainerAttributes \<Rightarrow> normalizer \<Rightarrow> time \<Rightarrow> (Container \<times> ItemFieldChange list) result" where
  "Renamed c a form at =
     guarded (Container_EnsureEditable c) (
     rbind (renameName a form (c, [])) (\<lambda>s1.
     rbind (renameField ''description'' (CAttrDescription a) True ContDescription (\<lambda>v c. c\<lparr>ContDescription := v\<rparr>) form s1) (\<lambda>s2.
     rbind (renameField ''icon'' (CAttrIcon a) False ContIcon (\<lambda>v c. c\<lparr>ContIcon := v\<rparr>) form s2) (\<lambda>s3.
     rbind (renameField ''color_token'' (CAttrColorToken a) False ContColorToken (\<lambda>v c. c\<lparr>ContColorToken := v\<rparr>) form s3) (\<lambda>s4.
     rbind (renameKeyPrefix a s4) (\<lambda>s5. Inr (stampedChange at s5)))))))"

definition formatBool :: "bool \<Rightarrow> string" where
  "formatBool b = (if b then ''true'' else ''false'')"

definition WithPrivacy :: "Container \<Rightarrow> bool \<Rightarrow> time \<Rightarrow> (Container \<times> ItemFieldChange list) result" where
  "WithPrivacy c private at =
     (if ContType c \<noteq> ContainerHub then Inl ErrPrivateOnlyHubs
      else guarded (Container_EnsureEditable c) (
        if Private c = private then Inr (c, [])
        else Inr (c\<lparr>Private := private, ContUpdatedAt := at\<rparr>,
                  [fieldChange ''private'' (formatBool (Private c)) (formatBool private)])))"

definition Container_Archived :: "(time \<Rightarrow> string) \<Rightarrow> Container \<Rightarrow> time \<Rightarrow> (Container \<times> ItemFieldChange list) result" where
  "Container_Archived instant c at =
     guarded (Container_ensureLifecycleChangeable c) (
       if Container_IsArchived c then Inr (c, [])
       else Inr (c\<lparr>ContArchivedAt := Some at, ContUpdatedAt := at\<rparr>, [fieldChange ''archived_at'' '''' (instant at)]))"

definition Container_Unarchived :: "(time \<Rightarrow> string) \<Rightarrow> Container \<Rightarrow> time \<Rightarrow> (Container \<times> ItemFieldChange list) result" where
  "Container_Unarchived instant c at =
     guarded (Container_ensureLifecycleChangeable c) (
       if \<not> Container_IsArchived c then Inr (c, [])
       else Inr (c\<lparr>ContArchivedAt := None, ContUpdatedAt := at\<rparr>,
                 [fieldChange ''archived_at'' (instantValue instant (ContArchivedAt c)) '''']))"

definition Ranked :: "Container \<Rightarrow> string \<Rightarrow> time \<Rightarrow> (Container \<times> ItemFieldChange list) result" where
  "Ranked c orderKey at =
     guarded (Container_EnsureEditable c) (
       if orderKey = '''' then Inl containerIdentityIncomplete
       else if orderKey = ContOrderKey c then Inr (c, [])
       else Inr (c\<lparr>ContOrderKey := orderKey, ContUpdatedAt := at\<rparr>, [fieldChange ''order_key'' (ContOrderKey c) orderKey]))"

definition MovedInto :: "Container \<Rightarrow> Container \<Rightarrow> string \<Rightarrow> time \<Rightarrow> (Container \<times> ItemFieldChange list) result" where
  "MovedInto c parent orderKey at =
     (if ContType c \<noteq> ContainerCollection
      then Inl (Failure (WithFields (WithParams (WithDetail ErrValidation ''containers.hub_not_movable'')
        [(''container_id'', ContID c)]) [field_error ''/target_parent_id'' ''containers.hub_not_movable'']))
      else guarded (Container_EnsureEditable c) (
        if ContID parent = ContID c
        then Inl (Failure (WithFields (WithParams (WithDetail ErrValidation ''containers.parent_is_self'')
          [(''container_id'', ContID c)]) [field_error ''/target_parent_id'' ''containers.parent_is_self'']))
        else guarded (EnsureAcceptsChildren parent (ContType c)) (
          if orderKey = '''' then Inl containerIdentityIncomplete
          else if ContID parent = ContParentID c \<and> orderKey = ContOrderKey c then Inr (c, [])
          else Inr (c\<lparr>ContParentID := ContID parent, ContOrderKey := orderKey, ParentArchivedAt := None, ContUpdatedAt := at\<rparr>,
            (if ContID parent \<noteq> ContParentID c then [fieldChange ''parent_id'' (ContParentID c) (ContID parent)] else [])
            @ (if orderKey \<noteq> ContOrderKey c then [fieldChange ''order_key'' (ContOrderKey c) orderKey] else [])))))"

definition Container_Trashed :: "(time \<Rightarrow> string) \<Rightarrow> Container \<Rightarrow> time \<Rightarrow> ID \<Rightarrow> DeletedByActor
    \<Rightarrow> (Container \<times> ItemFieldChange list) result" where
  "Container_Trashed instant c at batch by' =
     (if IsZero batch then Inl (Failure (WithDetail ErrInternal ''containers.trash_batch_missing''))
      else if Container_IsTrashed c then Inr (c, [])
      else guarded (Container_ensureLifecycleChangeable c) (
        Inr (c\<lparr>ContDeletedAt := Some at, ContTrashBatchID := batch, ContDeletedBy := by', ContUpdatedAt := at\<rparr>,
             [fieldChange ''deleted_at'' '''' (instant at)])))"

definition Container_Restored :: "(time \<Rightarrow> string) \<Rightarrow> Container \<Rightarrow> time \<Rightarrow> (Container \<times> ItemFieldChange list) result" where
  "Container_Restored instant c at =
     (if \<not> Container_IsTrashed c then Inr (c, [])
      else Inr (c\<lparr>ContDeletedAt := None, ContTrashBatchID := '''', ContDeletedBy := nobody, ContUpdatedAt := at\<rparr>,
                [fieldChange ''deleted_at'' (instantValue instant (ContDeletedAt c)) '''']))"

end
