(* ===== verification/Lifecycles.thy ===== *)
theory Lifecycles
  imports Item_Laws Containers
begin

text \<open>
  Archiving and the trash, which items and containers have in common (\<^verbatim>\<open>Lifecycle.go\<close>, and \<^verbatim>\<open>Container.go\<close> for
  the archive of a container).  The contract is an automaton over three flags; both kinds of row implement it, and
  what holds of any implementation is proved once.
\<close>

section \<open>The contract\<close>

datatype command = Archive | Unarchive | Trash ID DeletedByActor | Restore

text \<open>The flags are archived with the parent, archived and trashed; \<open>None\<close> is a refusal.\<close>

type_synonym flags = "bool \<times> bool \<times> bool"

fun lifecycle_spec :: "command \<Rightarrow> flags \<Rightarrow> flags option" where
  "lifecycle_spec Archive (inherited, archived, trashed) = (if trashed \<or> inherited then None else Some (inherited, True, False))"
| "lifecycle_spec Unarchive (inherited, archived, trashed) = (if trashed \<or> inherited then None else Some (inherited, False, False))"
| "lifecycle_spec (Trash batch actor) (inherited, archived, trashed) =
     (if IsZero batch \<or> inherited \<and> \<not> trashed then None else Some (inherited, archived, True))"
| "lifecycle_spec Restore (inherited, archived, trashed) = Some (inherited, archived, False)"

fun run_spec :: "(command \<times> time) list \<Rightarrow> flags \<Rightarrow> flags option" where
  "run_spec [] p = Some p"
| "run_spec ((cmd, at) # cmds) p = Option.bind (lifecycle_spec cmd p) (run_spec cmds)"

fun run_lifecycle :: "(command \<Rightarrow> time \<Rightarrow> 's \<Rightarrow> ('s \<times> ItemFieldChange list) result) \<Rightarrow> (command \<times> time) list \<Rightarrow> 's \<Rightarrow> 's result" where
  "run_lifecycle perform [] s = Inr s"
| "run_lifecycle perform ((cmd, at) # cmds) s = rbind (perform cmd at s) (\<lambda>(s', changes). run_lifecycle perform cmds s')"

lemma spec_repeated: "lifecycle_spec cmd p = Some q \<Longrightarrow> lifecycle_spec cmd q = Some q"
  by (cases cmd; cases p) (auto split: if_splits)

locale lifecycle =
  fixes perform :: "command \<Rightarrow> time \<Rightarrow> 's \<Rightarrow> ('s \<times> ItemFieldChange list) result"
    and phase :: "'s \<Rightarrow> flags"
    and frame :: "'s \<Rightarrow> 's"
    and well :: "'s \<Rightarrow> bool"
    and stamped :: "time \<Rightarrow> 's \<Rightarrow> 's"
  assumes refused: "lifecycle_spec cmd (phase s) = None \<Longrightarrow> \<exists>e. perform cmd at s = Inl e"
    and unchanged: "lifecycle_spec cmd (phase s) = Some (phase s) \<Longrightarrow> perform cmd at s = Inr (s, [])"
    and changed: "lifecycle_spec cmd (phase s) = Some p \<Longrightarrow> p \<noteq> phase s \<Longrightarrow>
      \<exists>s' change. perform cmd at s = Inr (s', [change]) \<and> phase s' = p \<and> frame s' = frame s \<and> (well s \<longrightarrow> well s')"
    and undone: "well s \<Longrightarrow> phase s = (inherited, archived, False) \<Longrightarrow> perform (Trash batch actor) at s = Inr (s', changes) \<Longrightarrow>
      \<exists>change. perform Restore at' s' = Inr (stamped at' s, [change])"
begin

lemma step_refines:
  assumes "lifecycle_spec cmd (phase s) = Some p"
  shows "\<exists>s' changes. perform cmd at s = Inr (s', changes) \<and> phase s' = p \<and> frame s' = frame s
    \<and> (well s \<longrightarrow> well s') \<and> (changes = [] \<longleftrightarrow> p = phase s)"
proof (cases "p = phase s")
  case True
  then show ?thesis using unchanged assms by simp
next
  case False
  then show ?thesis using changed [OF assms False] by blast
qed

lemma run_refines:
  "case run_spec cmds (phase s) of
     None \<Rightarrow> \<exists>e. run_lifecycle perform cmds s = Inl e
   | Some p \<Rightarrow> \<exists>s'. run_lifecycle perform cmds s = Inr s' \<and> phase s' = p \<and> frame s' = frame s \<and> (well s \<longrightarrow> well s')"
proof (induction cmds arbitrary: s)
  case (Cons entry cmds)
  obtain cmd at where entry: "entry = (cmd, at)" by (cases entry)
  show ?case
  proof (cases "lifecycle_spec cmd (phase s)")
    case None
    then show ?thesis using refused [OF None, of at] by (auto simp: entry)
  next
    case (Some p)
    from step_refines [OF Some, of at] obtain s' changes where
      "perform cmd at s = Inr (s', changes)" "phase s' = p" "frame s' = frame s" "well s \<longrightarrow> well s'" by blast
    then show ?thesis using Cons.IH [of s'] Some by (auto simp: entry split: option.splits)
  qed
qed simp

lemma repeated:
  assumes "perform cmd at s = Inr (s', changes)"
  shows "perform cmd at' s' = Inr (s', [])"
proof -
  obtain p where p: "lifecycle_spec cmd (phase s) = Some p" using assms refused [of cmd s at] by fastforce
  then have "phase s' = p" using step_refines [OF p, of at] assms by auto
  then have "lifecycle_spec cmd (phase s') = Some (phase s')" using spec_repeated [OF p] by simp
  then show ?thesis by (rule unchanged)
qed

lemma trash_undone:
  assumes "well s" "phase s = (False, archived, False)" "\<not> IsZero batch"
  shows "run_lifecycle perform [(Trash batch actor, at), (Restore, at')] s = Inr (stamped at' s)"
proof -
  have "lifecycle_spec (Trash batch actor) (phase s) = Some (False, archived, True)" using assms(2,3) by simp
  from step_refines [OF this, of at] obtain s' changes where "perform (Trash batch actor) at s = Inr (s', changes)" by blast
  moreover obtain change where "perform Restore at' s' = Inr (stamped at' s, [change])"
    using undone [OF assms(1,2) calculation] by blast
  ultimately show ?thesis by simp
qed

end

section \<open>Items and containers\<close>

fun itemLifecycle :: "(time \<Rightarrow> string) \<Rightarrow> command \<Rightarrow> time \<Rightarrow> WorkItem \<Rightarrow> (WorkItem \<times> ItemFieldChange list) result" where
  "itemLifecycle instant Archive at i = Archived instant i at"
| "itemLifecycle instant Unarchive at i = Unarchived instant i at"
| "itemLifecycle instant (Trash batch actor) at i = Trashed instant i at batch actor"
| "itemLifecycle instant Restore at i = Restored instant i at"

fun containerLifecycle :: "(time \<Rightarrow> string) \<Rightarrow> command \<Rightarrow> time \<Rightarrow> Container \<Rightarrow> (Container \<times> ItemFieldChange list) result" where
  "containerLifecycle instant Archive at c = Container_Archived instant c at"
| "containerLifecycle instant Unarchive at c = Container_Unarchived instant c at"
| "containerLifecycle instant (Trash batch actor) at c = Container_Trashed instant c at batch actor"
| "containerLifecycle instant Restore at c = Container_Restored instant c at"

definition itemPhase :: "WorkItem \<Rightarrow> flags" where
  "itemPhase i = (False, IsArchived i, IsTrashed i)"

definition containerPhase :: "Container \<Rightarrow> flags" where
  "containerPhase c = (ParentArchivedAt c \<noteq> None, Container_IsArchived c, Container_IsTrashed c)"

text \<open>A container without what archiving and the trash may touch; of an item that is \<open>frozen_part\<close>.\<close>

definition containerFrame :: "Container \<Rightarrow> Container" where
  "containerFrame c = c\<lparr>ContArchivedAt := None, ContDeletedAt := None, ContDeletedBy := nobody, ContTrashBatchID := '''', ContUpdatedAt := 0\<rparr>"

text \<open>A row outside the trash belongs to no batch and was deleted by nobody.\<close>

definition itemWell :: "WorkItem \<Rightarrow> bool" where
  "itemWell i \<longleftrightarrow> IsTrashed i \<or> TrashBatchID i = '''' \<and> DeletedBy i = nobody"

definition containerWell :: "Container \<Rightarrow> bool" where
  "containerWell c \<longleftrightarrow> Container_IsTrashed c \<or> ContTrashBatchID c = '''' \<and> ContDeletedBy c = nobody"

lemmas item_lifecycle = Archived_def Unarchived_def Trashed_def Restored_def ensureLifecycleChangeable_def IsArchived_def IsTrashed_def
  itemPhase_def frozen_part_def itemWell_def

lemmas container_lifecycle = Container_Archived_def Container_Unarchived_def Container_Trashed_def Container_Restored_def
  Container_ensureLifecycleChangeable_def Container_IsArchived_def Container_IsTrashed_def
  containerPhase_def containerFrame_def containerWell_def

interpretation item_life: lifecycle "itemLifecycle instant" itemPhase frozen_part itemWell "\<lambda>at i. i\<lparr>UpdatedAt := at\<rparr>" for instant
proof
  fix cmd and i :: WorkItem and at
  show "\<exists>e. itemLifecycle instant cmd at i = Inl e" if "lifecycle_spec cmd (itemPhase i) = None"
    using that by (cases cmd) (auto simp: item_lifecycle split: if_splits)
  show "itemLifecycle instant cmd at i = Inr (i, [])" if "lifecycle_spec cmd (itemPhase i) = Some (itemPhase i)"
    using that by (cases cmd) (auto simp: item_lifecycle split: if_splits)
  show "\<exists>i' change. itemLifecycle instant cmd at i = Inr (i', [change]) \<and> itemPhase i' = p \<and> frozen_part i' = frozen_part i
      \<and> (itemWell i \<longrightarrow> itemWell i')" if "lifecycle_spec cmd (itemPhase i) = Some p" "p \<noteq> itemPhase i" for p
    using that by (cases cmd) (auto simp: item_lifecycle split: if_splits)
next
  fix i i' :: WorkItem and inherited archived batch actor at changes at'
  assume "itemWell i" "itemPhase i = (inherited, archived, False)" "itemLifecycle instant (Trash batch actor) at i = Inr (i', changes)"
  then show "\<exists>change. itemLifecycle instant Restore at' i' = Inr (i\<lparr>UpdatedAt := at'\<rparr>, [change])"
    by (auto simp: item_lifecycle split: if_splits)
qed

interpretation container_life: lifecycle "containerLifecycle instant" containerPhase containerFrame containerWell
    "\<lambda>at c. c\<lparr>ContUpdatedAt := at\<rparr>" for instant
proof
  fix cmd and c :: Container and at
  show "\<exists>e. containerLifecycle instant cmd at c = Inl e" if "lifecycle_spec cmd (containerPhase c) = None"
    using that by (cases cmd) (auto simp: container_lifecycle split: if_splits)
  show "containerLifecycle instant cmd at c = Inr (c, [])" if "lifecycle_spec cmd (containerPhase c) = Some (containerPhase c)"
    using that by (cases cmd) (auto simp: container_lifecycle split: if_splits)
  show "\<exists>c' change. containerLifecycle instant cmd at c = Inr (c', [change]) \<and> containerPhase c' = p
      \<and> containerFrame c' = containerFrame c \<and> (containerWell c \<longrightarrow> containerWell c')"
    if "lifecycle_spec cmd (containerPhase c) = Some p" "p \<noteq> containerPhase c" for p
    using that by (cases cmd) (auto simp: container_lifecycle split: if_splits)
next
  fix c c' :: Container and inherited archived batch actor at changes at'
  assume "containerWell c" "containerPhase c = (inherited, archived, False)"
    "containerLifecycle instant (Trash batch actor) at c = Inr (c', changes)"
  then show "\<exists>change. containerLifecycle instant Restore at' c' = Inr (c\<lparr>ContUpdatedAt := at'\<rparr>, [change])"
    by (auto simp: container_lifecycle split: if_splits)
qed

section \<open>Properties\<close>

text \<open>
  C30.  Items and containers implement one lifecycle: a sequence of archive, unarchive, trash and restore commands
  is refused exactly when the automaton over the flags refuses it, otherwise it ends in the flags the
  automaton ends in and leaves everything else of the row as it was.
\<close>

theorem lifecycle_refines:
  "(case run_spec cmds (itemPhase i) of
      None \<Rightarrow> \<exists>e. run_lifecycle (itemLifecycle instant) cmds i = Inl e
    | Some p \<Rightarrow> \<exists>i'. run_lifecycle (itemLifecycle instant) cmds i = Inr i' \<and> itemPhase i' = p \<and> frozen_part i' = frozen_part i)
   \<and> (case run_spec cmds (containerPhase c) of
      None \<Rightarrow> \<exists>e. run_lifecycle (containerLifecycle instant) cmds c = Inl e
    | Some p \<Rightarrow> \<exists>c'. run_lifecycle (containerLifecycle instant) cmds c = Inr c' \<and> containerPhase c' = p
        \<and> containerFrame c' = containerFrame c)"
  using item_life.run_refines [of instant cmds i] container_life.run_refines [of instant cmds c]
  by (auto split: option.splits)

end
