(* ===== verification/Hierarchy.thy ===== *)
theory Hierarchy
  imports Items
begin

text \<open>
  The tree of items.  \<^verbatim>\<open>core/domain/service/Hierarchy.go\<close> decides where an item may sit; a move
  (\<^verbatim>\<open>core/application/service/work/MoveWorkItem.go\<close>, the statements \<^verbatim>\<open>SetWorkItemPlacement\<close> and
  \<^verbatim>\<open>MoveWorkItemSubtree\<close>) writes the moved row and rewrites the paths below it; a completion walks
  upwards (\<^verbatim>\<open>core/application/service/work/CompleteWorkItem.go\<close>).  The table of items is a list of rows.
\<close>

section \<open>Placement\<close>

record Hierarchy =
  profiles :: "(ItemType \<times> CapabilityProfile) list"
  roots :: "ItemType list"

record Placement =
  PlaceParentID :: ID
  PlaceDepth :: int
  parentPath :: string

definition PathOf :: "Placement \<Rightarrow> ID \<Rightarrow> string" where
  "PathOf p i = parentPath p @ i @ ''/''"

definition ParentPath :: "Placement \<Rightarrow> string" where
  "ParentPath p = (if parentPath p = '''' then ''/'' else parentPath p)"

definition profilesIncoherent :: "ItemType \<Rightarrow> failure" where
  "profilesIncoherent t =
     Failure (WithParams (WithDetail ErrInternal ''items.profiles_incoherent'') [(''item_type'', itemTypeName t)])"

fun collectProfiles :: "(ItemType \<times> CapabilityProfile) list \<Rightarrow> CapabilityProfile list
    \<Rightarrow> (ItemType \<times> CapabilityProfile) list result" where
  "collectProfiles known [] = Inr known"
| "collectProfiles known (profile # rest) =
     (if map_of known (ProfileType profile) \<noteq> None then Inl (profilesIncoherent (ProfileType profile))
      else collectProfiles ((ProfileType profile, profile) # known) rest)"

definition rootTypes :: "CapabilityProfile list \<Rightarrow> ItemType list" where
  "rootTypes system =
     filter (\<lambda>t. list_all (\<lambda>profile. list_all (\<lambda>child. child \<noteq> t \<or> child = ProfileType profile)
                 (AllowedChildTypes profile)) system)
       (map ProfileType system)"

definition NewHierarchy :: "CapabilityProfile list \<Rightarrow> CapabilityProfile list \<Rightarrow> Hierarchy result" where
  "NewHierarchy inForce system =
     rbind (collectProfiles [] inForce) (\<lambda>known.
       if system \<noteq> [] \<and> rootTypes system = []
       then Inl (Failure (WithDetail ErrInternal ''items.profiles_incoherent''))
       else Inr \<lparr>profiles = known, roots = rootTypes system\<rparr>)"

definition Profile :: "Hierarchy \<Rightarrow> ItemType \<Rightarrow> CapabilityProfile result" where
  "Profile h itemType =
     (case map_of (profiles h) itemType of
        None \<Rightarrow> Inl (Failure (WithFields (WithParams (WithDetail ErrValidation ''items.type_unsupported'')
          [(''item_type'', itemTypeName itemType)]) [field_error ''/type'' ''items.type_unsupported'']))
      | Some profile \<Rightarrow> Inr profile)"

definition IsRoot :: "Hierarchy \<Rightarrow> ItemType \<Rightarrow> bool" where
  "IsRoot h itemType = List.member (roots h) itemType"

text \<open>\<^verbatim>\<open>strconv.Itoa\<close> of a depth.\<close>

definition itoa :: "int \<Rightarrow> string" where
  "itoa n = (if n < 0 then ''-'' @ dec (nat (- n)) else dec (nat n))"

definition depthExceeded :: "ItemType \<Rightarrow> int \<Rightarrow> failure" where
  "depthExceeded childType maximum =
     Failure (WithFields (WithParams (WithDetail ErrValidation ''items.depth_exceeded'')
       [(''item_type'', itemTypeName childType), (''maximum'', itoa maximum)])
       [field_error ''/parent_id'' ''items.depth_exceeded''])"

definition parentRefused :: "string \<Rightarrow> WorkItem \<Rightarrow> failure" where
  "parentRefused code parent = Failure (WithParams (WithDetail ErrConflict code) [(''parent_id'', ItemID parent)])"

definition Place :: "Hierarchy \<Rightarrow> WorkItem option \<Rightarrow> ItemType \<Rightarrow> Placement result" where
  "Place h parent childType =
     rbind (Profile h childType) (\<lambda>child.
       if MaxDepth child < 1 then Inl (depthExceeded childType (MaxDepth child))
       else case parent of
         None \<Rightarrow>
           if \<not> IsRoot h childType
           then Inl (Failure (WithFields (WithParams (WithDetail ErrValidation ''items.parent_item_required'')
             [(''item_type'', itemTypeName childType)]) [field_error ''/parent_id'' ''items.parent_item_required'']))
           else Inr \<lparr>PlaceParentID = '''', PlaceDepth = 1, parentPath = ''/''\<rparr>
       | Some p \<Rightarrow>
           if IsTrashed p then Inl (parentRefused ''items.parent_trashed'' p)
           else if IsArchived p then Inl (parentRefused ''items.parent_archived'' p)
           else case Profile h (Type p) of
             Inl _ \<Rightarrow> Inl (profilesIncoherent (Type p))
           | Inr upper \<Rightarrow>
               if \<not> AllowsChild upper childType
               then Inl (Failure (WithFields (WithParams (WithDetail ErrValidation ''items.parent_type_invalid'')
                 [(''item_type'', itemTypeName childType), (''parent_type'', itemTypeName (Type p))])
                 [field_error ''/parent_id'' ''items.parent_type_invalid'']))
               else if 1 + MaxDepth child > MaxDepth upper then Inl (depthExceeded childType (MaxDepth upper))
               else Inr \<lparr>PlaceParentID = ItemID p, PlaceDepth = Depth p + 1, parentPath = ItemPath p\<rparr>)"

definition Move :: "Hierarchy \<Rightarrow> WorkItem \<Rightarrow> WorkItem option \<Rightarrow> Placement result" where
  "Move h item parent =
     (case parent of
        None \<Rightarrow> Place h None (Type item)
      | Some p \<Rightarrow>
          if ItemID item = ItemID p
          then Inl (Failure (WithFields (WithParams (WithDetail ErrValidation ''items.parent_is_self'')
            [(''item_id'', ItemID item)]) [field_error ''/target_parent_id'' ''items.parent_is_self'']))
          else if Contains item p
          then Inl (Failure (WithFields (WithParams (WithDetail ErrValidation ''items.parent_in_own_subtree'')
            [(''item_id'', ItemID item), (''parent_id'', ItemID p)])
            [field_error ''/target_parent_id'' ''items.parent_in_own_subtree'']))
          else Place h (Some p) (Type item))"

section \<open>Writing a move\<close>

text \<open>\<^verbatim>\<open>SetWorkItemPlacement\<close>, the row of the moved item.\<close>

definition SetWorkItemPlacement :: "WorkItem \<Rightarrow> ID \<Rightarrow> ID \<Rightarrow> string \<Rightarrow> int \<Rightarrow> string \<Rightarrow> ID \<Rightarrow> time \<Rightarrow> WorkItem" where
  "SetWorkItemPlacement row parent collection path depth orderKey bucket at =
     row\<lparr>ParentID := parent, CollectionID := collection, ItemPath := path, Depth := depth, OrderKey := orderKey,
         BucketID := bucket, UpdatedAt := at, Version := Version row + 1\<rparr>"

text \<open>\<^verbatim>\<open>MoveWorkItemSubtree\<close>, every other row whose path starts with the old prefix.\<close>

definition MoveWorkItemSubtree :: "ID \<Rightarrow> ID \<Rightarrow> string \<Rightarrow> string \<Rightarrow> int \<Rightarrow> time \<Rightarrow> WorkItem \<Rightarrow> WorkItem" where
  "MoveWorkItemSubtree moved collection oldPrefix newPrefix depthDelta at row =
     (if hasPrefix (ItemPath row) oldPrefix \<and> ItemID row \<noteq> moved
      then row\<lparr>CollectionID := collection, ItemPath := newPrefix @ drop (length oldPrefix) (ItemPath row),
               Depth := Depth row + depthDelta, UpdatedAt := at, Version := Version row + 1\<rparr>
      else row)"

definition findRow :: "WorkItem list \<Rightarrow> ID \<Rightarrow> WorkItem option" where
  "findRow rows i = find (\<lambda>r. ItemID r = i) rows"

definition versionConflict :: "ID \<Rightarrow> int \<Rightarrow> failure" where
  "versionConflict i expected =
     Failure (WithParams (WithDetail ErrVersionConflict ''items.version_conflict'')
       [(''item_id'', i), (''expected_version'', itoa expected)])"

text \<open>
  \<^verbatim>\<open>PlacementWriter.write\<close> for a move that changes the tree: the row first, under its expected version,
  then the rows below it.
\<close>

definition writeMove :: "WorkItem list \<Rightarrow> WorkItem \<Rightarrow> Placement \<Rightarrow> ID \<Rightarrow> string \<Rightarrow> ID \<Rightarrow> int \<Rightarrow> time
    \<Rightarrow> WorkItem list result" where
  "writeMove rows before spot collection orderKey bucket expected at =
     (let newPath = SubtreePathUnder before (ParentPath spot) in
      if \<not> list_ex (\<lambda>r. ItemID r = ItemID before \<and> Version r = expected) rows
      then Inl (versionConflict (ItemID before) expected)
      else Inr (map (\<lambda>row.
             if ItemID row = ItemID before
             then SetWorkItemPlacement row (PlaceParentID spot) collection newPath (PlaceDepth spot) orderKey bucket at
             else MoveWorkItemSubtree (ItemID before) collection (ItemPath before) newPath
                    (PlaceDepth spot - Depth before) at row) rows))"

section \<open>Completion\<close>

text \<open>The query \<^verbatim>\<open>ChildCompletion\<close>: a parent's children that are not in the trash, and how many are done.\<close>

definition ChildCompletionOf :: "WorkItem list \<Rightarrow> ID \<Rightarrow> ChildCompletion" where
  "ChildCompletionOf rows parent =
     (let children = filter (\<lambda>r. ParentID r = parent \<and> \<not> IsTrashed r) rows
      in \<lparr>Total = int (length children),
          CompletedChildren = int (length (filter (\<lambda>r. IsCompleted (ItemCompletion r)) children))\<rparr>)"

text \<open>\<^verbatim>\<open>CompletionWriter.completable\<close>; which profile is in force is the caller's reading of the store.\<close>

definition completable :: "(WorkItem \<Rightarrow> CapabilityProfile result) \<Rightarrow> WorkItem \<Rightarrow> failure option" where
  "completable profileFor item =
     (case profileFor item of Inl e \<Rightarrow> Some e | Inr profile \<Rightarrow> EnsureCompletable item profile)"

text \<open>\<^verbatim>\<open>SetWorkItemCompletion\<close>: the completion as wanted, one more completion counted, one version on.\<close>

definition SetWorkItemCompletion :: "WorkItem \<Rightarrow> WorkItem \<Rightarrow> WorkItem" where
  "SetWorkItemCompletion row wanted =
     row\<lparr>CompletionCount := CompletionCount row +
           (if IsCompleted (ItemCompletion wanted) \<and> \<not> IsCompleted (ItemCompletion row) then 1 else 0),
         ItemCompletion := ItemCompletion wanted, UpdatedAt := UpdatedAt wanted, Version := Version row + 1\<rparr>"
definition writeCompletion :: "WorkItem list \<Rightarrow> WorkItem \<Rightarrow> int \<Rightarrow> WorkItem list result" where
  "writeCompletion rows wanted expected =
     (if \<not> list_ex (\<lambda>r. ItemID r = ItemID wanted \<and> Version r = expected) rows
      then Inl (versionConflict (ItemID wanted) expected)
      else Inr (map (\<lambda>row. if ItemID row = ItemID wanted then SetWorkItemCompletion row wanted else row) rows))"

definition itemNotFound :: "ID \<Rightarrow> failure" where
  "itemNotFound i = Failure (WithParams (WithDetail ErrNotFound ''items.not_found'') [(''item_id'', i)])"

text \<open>
  \<^verbatim>\<open>CompletionWriter.rollUp\<close>, without the workflow: the walk over the parents, with fuel for the levels;
  \<open>None\<close> is a walk that did not end within it.
\<close>

fun rollUp :: "nat \<Rightarrow> (WorkItem \<Rightarrow> CapabilityProfile result) \<Rightarrow> CompletionPolicy \<Rightarrow> ID \<Rightarrow> time
    \<Rightarrow> WorkItem list \<Rightarrow> ID \<Rightarrow> WorkItem list result option" where
  "rollUp 0 profileFor policy actor now rows parentID = (if IsZero parentID then Some (Inr rows) else None)"
| "rollUp (Suc fuel) profileFor policy actor now rows parentID =
     (if IsZero parentID then Some (Inr rows)
      else case findRow rows parentID of
        None \<Rightarrow> Some (Inl (itemNotFound parentID))
      | Some parent \<Rightarrow>
          if completable profileFor parent \<noteq> None then Some (Inr rows)
          else
            (let continue = (\<lambda>wanted.
               case writeCompletion rows wanted (Version parent) of
                 Inl e \<Rightarrow> Some (Inl e)
               | Inr rows' \<Rightarrow> rollUp fuel profileFor policy actor now rows' (ParentID parent))
             in case RollUp policy (ItemCompletion parent) (ChildCompletionOf rows parentID) of
                  ParentComplete \<Rightarrow> continue (Completed parent actor now)
                | ParentReopen \<Rightarrow> continue (Reopened parent now)
                | ParentUnchanged \<Rightarrow> Some (Inr rows)))"

definition ensureExpectedVersion :: "WorkItem \<Rightarrow> int \<Rightarrow> failure option" where
  "ensureExpectedVersion item expected =
     (if expected = 0 \<or> expected = Version item then None
      else Some (Failure (WithParams (WithDetail ErrVersionConflict ''items.version_conflict'')
        [(''item_id'', ItemID item), (''current_version'', itoa (Version item))])))"

end
