(* ===== verification/Placements.thy ===== *)
theory Placements
  imports Hierarchy Containers Ranks Set_Merge
begin

text \<open>
  The use cases that place and complete items, over the stored tree: \<^verbatim>\<open>CreateWorkItem.build\<close>,
  \<^verbatim>\<open>MoveWorkItem\<close> and \<^verbatim>\<open>ReorderWorkItem\<close> with \<^verbatim>\<open>PlacementWriter\<close>, and \<^verbatim>\<open>CompleteWorkItem\<close> with
  \<^verbatim>\<open>CompletionWriter\<close>.  The state holds the collections, the items, the columns with the collection each
  belongs to, the labels with theirs, which item carries which label, and the tags of the labels of an item that
  a synchronisation merges on.  What these use cases ask of other
  components (permissions, the structure a collection offers, entry types, the flow of a board, the state of a
  column) is the record of gates; the entry type and the workflow status of an item, and the events, audit and
  activity entries a write leaves, are not modelled.
\<close>

record tree =
  collections :: "Container list"
  items :: "WorkItem list"
  bucketHome :: "(ID \<times> ID) list"
  labelHome :: "(ID \<times> ID) list"
  itemLabels :: "(ID \<times> ID) list"
  labelTags :: "(ID \<times> SetElement list) list"

record gates =
  authorize :: "Container \<Rightarrow> WorkItem option \<Rightarrow> failure option"
  requireLevel :: "Container \<Rightarrow> WorkItem option \<Rightarrow> ItemType \<Rightarrow> string \<Rightarrow> failure option"
  narrow :: "Container \<Rightarrow> WorkItem option \<Rightarrow> CapabilityProfile \<Rightarrow> CapabilityProfile"
  admitsUnder :: "WorkItem option \<Rightarrow> WorkItem \<Rightarrow> failure option"
  keepsType :: "Container \<Rightarrow> Container \<Rightarrow> WorkItem \<Rightarrow> failure option"
  bucketEditable :: "ID \<Rightarrow> failure option"
  mayEnter :: "Container \<Rightarrow> WorkItem \<Rightarrow> ID \<Rightarrow> failure option"
  chooseEntryType :: "Container \<Rightarrow> WorkItem option \<Rightarrow> CapabilityProfile \<Rightarrow> CapabilityProfile result"
  amountOffered :: "Container \<Rightarrow> ItemType \<Rightarrow> failure option"
  landingColumn :: "Container \<Rightarrow> ID result"
  requireShown :: "Container \<Rightarrow> WorkItem \<Rightarrow> failure option"
  assignmentAllowed :: "Container \<Rightarrow> failure option"
  itemsQuota :: "failure option"
  gatedProfileFor :: "WorkItem \<Rightarrow> CapabilityProfile result"
  labelEditable :: "ID \<Rightarrow> failure option"

section \<open>Reading\<close>

definition findContainer :: "tree \<Rightarrow> ID \<Rightarrow> Container option" where
  "findContainer t i = find (\<lambda>c. ContID c = i) (collections t)"

definition findItem :: "tree \<Rightarrow> ID \<Rightarrow> WorkItem result" where
  "findItem t i = (case findRow (items t) i of None \<Rightarrow> Inl (itemNotFound i) | Some item \<Rightarrow> Inr item)"

definition findParentAt :: "tree \<Rightarrow> string \<Rightarrow> ID \<Rightarrow> WorkItem result" where
  "findParentAt t path i =
     (case findRow (items t) i of
        None \<Rightarrow> Inl (Failure (WithFields (WithParams (WithDetail ErrNotFound ''items.parent_not_found'') [(''parent_id'', i)])
          [field_error path ''items.parent_not_found'']))
      | Some item \<Rightarrow> Inr item)"

text \<open>\<^verbatim>\<open>findCollection\<close> of \<^verbatim>\<open>Items.go\<close>: the cause it wraps is the repository's error, whose text is not read.\<close>

definition findCollection :: "tree \<Rightarrow> ID \<Rightarrow> Container result" where
  "findCollection t i =
     (case findContainer t i of
        None \<Rightarrow> Inl (Failure (WithDetail ErrInternal ''items.collection_missing''))
      | Some c \<Rightarrow> Inr c)"

definition findCollectionAt :: "tree \<Rightarrow> string \<Rightarrow> ID \<Rightarrow> Container result" where
  "findCollectionAt t path i =
     (case findContainer t i of
        None \<Rightarrow> Inl (Failure (WithFields (WithParams (WithDetail ErrNotFound ''items.collection_not_found'') [(''collection_id'', i)])
          [field_error path ''items.collection_not_found'']))
      | Some c \<Rightarrow> Inr c)"

text \<open>The rows of one level that \<^verbatim>\<open>OrderKeyNeighbours\<close> and \<^verbatim>\<open>LastOrderKey\<close> range over.\<close>

definition levelOf :: "tree \<Rightarrow> ID \<Rightarrow> ID \<Rightarrow> level" where
  "levelOf t collection parent =
     map (\<lambda>r. (ItemID r, OrderKey r))
       (filter (\<lambda>r. CollectionID r = collection \<and> ParentID r = parent \<and> \<not> IsTrashed r) (items t))"

definition ensureBucketOnBoard :: "gates \<Rightarrow> tree \<Rightarrow> ID \<Rightarrow> ID \<Rightarrow> failure option" where
  "ensureBucketOnBoard g t collectionID bucketID =
     (case map_of (bucketHome t) bucketID of
        None \<Rightarrow> Some (Failure (WithFields (WithParams (WithDetail ErrNotFound ''buckets.not_found'') [(''bucket_id'', bucketID)])
          [field_error ''/bucket_id'' ''buckets.not_found'']))
      | Some home \<Rightarrow>
          if home \<noteq> collectionID
          then Some (Failure (WithFields (WithParams (WithDetail ErrValidation ''buckets.not_in_collection'')
            [(''bucket_id'', bucketID), (''collection_id'', collectionID)]) [field_error ''/bucket_id'' ''buckets.not_in_collection'']))
          else bucketEditable g bucketID)"

section \<open>Creating\<close>

record CreateWorkItemCommand =
  CreateID :: ID
  CreateType :: ItemType
  CreateCollectionID :: ID
  CreateParentID :: ID
  CreateTitle :: string
  CreateNotes :: string
  CreateAmount :: string
  CreateBucketID :: ID
  CreateContentLanguage :: string
  CreateStartAt :: "time option"
  CreateCalendarUID :: string
  CreateBeforeItemID :: ID

record Actor =
  ActorTenantID :: ID
  ActorAccountID :: ID
  Locale :: string

definition collectionOrParentRequired :: "string \<Rightarrow> failure" where
  "collectionOrParentRequired path =
     Failure (WithFields (WithDetail ErrValidation ''items.collection_or_parent_required'')
       [field_error path ''items.collection_or_parent_required''])"

definition scopeOf :: "tree \<Rightarrow> CreateWorkItemCommand \<Rightarrow> Container result" where
  "scopeOf t cmd =
     rbind (if IsZero (CreateCollectionID cmd)
            then if IsZero (CreateParentID cmd) then Inl (collectionOrParentRequired ''/collection_id'')
                 else rbind (findParentAt t ''/parent_id'' (CreateParentID cmd)) (\<lambda>parent. Inr (CollectionID parent))
            else Inr (CreateCollectionID cmd))
       (findCollectionAt t ''/collection_id'')"

definition parentOf :: "tree \<Rightarrow> ID \<Rightarrow> ID \<Rightarrow> WorkItem option result" where
  "parentOf t parentID collectionID =
     (if IsZero parentID then Inr None
      else rbind (findParentAt t ''/parent_id'' parentID) (\<lambda>parent.
        if CollectionID parent \<noteq> collectionID
        then Inl (Failure (WithFields (WithParams (WithDetail ErrValidation ''items.parent_not_in_collection'') [(''parent_id'', parentID)])
          [field_error ''/parent_id'' ''items.parent_not_in_collection'']))
        else Inr (Some parent)))"

definition languageOr :: "string \<Rightarrow> string \<Rightarrow> string" where
  "languageOr stated fallback = (if TrimSpace stated \<noteq> '''' then stated else fallback)"

definition bucketFor :: "gates \<Rightarrow> tree \<Rightarrow> CreateWorkItemCommand \<Rightarrow> Container \<Rightarrow> Placement \<Rightarrow> CapabilityProfile \<Rightarrow> ID result" where
  "bucketFor g t cmd collection spot profile =
     rbind (if IsZero (CreateBucketID cmd) \<and> IsZero (PlaceParentID spot) \<and> CreateType cmd = ItemTask
               \<and> Profile_Allows profile CapabilityBucket
            then landingColumn g collection else Inr (CreateBucketID cmd)) (\<lambda>bucket.
       guarded (if \<not> IsZero bucket then ensureBucketOnBoard g t (ContID collection) bucket else None) (Inr bucket))"

definition idFor :: "ID \<Rightarrow> CreateWorkItemCommand \<Rightarrow> ID result" where
  "idFor newID cmd =
     (if IsZero (CreateID cmd) then Inr newID
      else if \<not> IsUUIDv7 (CreateID cmd)
      then Inl (Failure (WithFields (WithDetail ErrValidation ''sync.id_not_uuidv7'') [field_error ''/id'' ''sync.id_not_uuidv7'']))
      else Inr (CreateID cmd))"

definition createBuild :: "gates \<Rightarrow> CapabilityProfile list \<Rightarrow> CapabilityProfile list \<Rightarrow> normalizer \<Rightarrow> ID \<Rightarrow> tree \<Rightarrow> Actor
    \<Rightarrow> CreateWorkItemCommand \<Rightarrow> ID \<Rightarrow> time \<Rightarrow> WorkItem result" where
  "createBuild g inForce system form newID t actor cmd collectionID now =
     rbind (findCollectionAt t ''/collection_id'' collectionID) (\<lambda>collection.
     guarded (EnsureAcceptsItems collection) (
     rbind (parentOf t (CreateParentID cmd) (ContID collection)) (\<lambda>parent.
     rbind (NewHierarchy inForce system) (\<lambda>hierarchy.
     rbind (Profile hierarchy (CreateType cmd)) (\<lambda>profile.
     rbind (Place hierarchy parent (CreateType cmd)) (\<lambda>spot.
     guarded (requireLevel g collection parent (CreateType cmd) ''/type'') (
     rbind (chooseEntryType g collection parent (narrow g collection parent profile)) (\<lambda>profile.
     guarded (if TrimSpace (CreateAmount cmd) \<noteq> '''' then amountOffered g collection (CreateType cmd) else None) (
     rbind (bucketFor g t cmd collection spot profile) (\<lambda>bucket.
     rbind (idFor newID cmd) (\<lambda>i.
     rbind (itemOrderKey (levelOf t (ContID collection) (PlaceParentID spot)) (CreateBeforeItemID cmd)) (\<lambda>orderKey.
     NewWorkItem \<lparr>InID = i, InTenantID = ActorTenantID actor, InCollectionID = ContID collection, InType = CreateType cmd,
       InParentID = PlaceParentID spot, InTitle = CreateTitle cmd, InNotes = CreateNotes cmd, InAmount = CreateAmount cmd,
       InBucketID = bucket, InContentLanguage = languageOr (CreateContentLanguage cmd) (Locale actor),
       InStartAt = CreateStartAt cmd, InCalendarUID = CreateCalendarUID cmd, InText = form, InProfile = profile,
       InPath = PathOf spot i, InDepth = PlaceDepth spot, InOrderKey = orderKey,
       InCreatedBy = ActorAccountID actor, InNow = now\<rparr>))))))))))))"

text \<open>
  \<^verbatim>\<open>ItemRepository.Insert\<close>: the primary key refuses an identifier that is taken, and the index on the
  calendar's identifier one that another item holds.
\<close>

definition insertItem :: "tree \<Rightarrow> WorkItem \<Rightarrow> tree result" where
  "insertItem t item =
     (if findRow (items t) (ItemID item) \<noteq> None
      then Inl (Failure (WithFields (WithDetail ErrConflict ''items.id_taken'') [field_error ''/id'' ''items.id_taken'']))
      else if CalendarUID item \<noteq> '''' \<and> list_ex (\<lambda>r. TenantID r = TenantID item \<and> CalendarUID r = CalendarUID item) (items t)
      then Inl (Failure (WithFields (WithDetail ErrConflict ''items.calendar_uid_taken'')
        [field_error ''/calendar_uid'' ''items.calendar_uid_taken'']))
      else Inr (t\<lparr>items := items t @ [item]\<rparr>))"

text \<open>
  \<^verbatim>\<open>CreateWorkItem.Execute\<close> up to the inserted row.  The checks on the assignee and the members it was given
  are one gate; writing them, like the due date, the cover, the fields and the labels, follows the insertion.
\<close>

definition createItem :: "gates \<Rightarrow> CapabilityProfile list \<Rightarrow> CapabilityProfile list \<Rightarrow> normalizer \<Rightarrow> ID \<Rightarrow> tree \<Rightarrow> Actor
    \<Rightarrow> CreateWorkItemCommand \<Rightarrow> time \<Rightarrow> (tree \<times> WorkItem) result" where
  "createItem g inForce system form newID t actor cmd now =
     rbind (scopeOf t cmd) (\<lambda>collection.
     guarded (authorize g collection None) (
     guarded (assignmentAllowed g collection) (
     guarded (itemsQuota g) (
     rbind (createBuild g inForce system form newID t actor cmd (ContID collection) now) (\<lambda>item.
     rbind (insertItem t item) (\<lambda>t'. Inr (t', item)))))))"

section \<open>Moving\<close>

record MoveWorkItemCommand =
  MoveItemID :: ID
  TargetParentID :: ID
  ParentGiven :: bool
  TargetCollectionID :: ID
  BeforeItemID :: ID
  MoveOrderKey :: string
  TargetBucketID :: ID
  BucketGiven :: bool
  ExpectedVersion :: int

record placement =
  plItem :: WorkItem
  plParent :: "WorkItem option"
  plSource :: Container
  plDestination :: Container
  plCommand :: MoveWorkItemCommand

definition reparents :: "placement \<Rightarrow> bool" where
  "reparents p = (ParentID (plItem p) \<noteq> TargetParentID (plCommand p) \<or> ContID (plSource p) \<noteq> ContID (plDestination p))"

definition destinationOf :: "tree \<Rightarrow> MoveWorkItemCommand \<Rightarrow> Container \<Rightarrow> WorkItem option \<Rightarrow> Container result" where
  "destinationOf t cmd source parent =
     (case parent of
        Some p \<Rightarrow>
          if \<not> IsZero (TargetCollectionID cmd) \<and> TargetCollectionID cmd \<noteq> CollectionID p
          then Inl (Failure (WithFields (WithParams (WithDetail ErrValidation ''items.collection_contradicts_parent'')
            [(''collection_id'', TargetCollectionID cmd), (''parent_id'', ItemID p)])
            [field_error ''/target_collection_id'' ''items.collection_contradicts_parent'']))
          else if CollectionID p \<noteq> ContID source then findCollection t (CollectionID p)
          else Inr source
      | None \<Rightarrow>
          if \<not> IsZero (TargetCollectionID cmd) then findCollectionAt t ''/target_collection_id'' (TargetCollectionID cmd)
          else if ParentGiven cmd then Inl (collectionOrParentRequired ''/target_collection_id'')
          else Inr source)"

definition moveRead :: "tree \<Rightarrow> MoveWorkItemCommand \<Rightarrow> placement result" where
  "moveRead t cmd =
     rbind (findItem t (MoveItemID cmd)) (\<lambda>item.
     rbind (findCollection t (CollectionID item)) (\<lambda>source.
     let targetParentID = (if ParentGiven cmd then TargetParentID cmd else ParentID item) in
     rbind (if IsZero targetParentID then Inr None
            else rbind (findParentAt t ''/target_parent_id'' targetParentID) (\<lambda>found. Inr (Some found))) (\<lambda>parent.
     rbind (destinationOf t cmd source parent) (\<lambda>destination.
     Inr \<lparr>plItem = item, plParent = parent, plSource = source, plDestination = destination,
          plCommand = cmd\<lparr>TargetParentID := targetParentID\<rparr>\<rparr>))))"

definition notEditable :: "WorkItem \<Rightarrow> failure" where
  "notEditable item =
     Failure (WithParams (WithDetail ErrConflict (if IsTrashed item then ''items.trashed'' else ''items.archived''))
       [(''item_id'', ItemID item)])"

definition ensureBucketAt :: "gates \<Rightarrow> Hierarchy \<Rightarrow> tree \<Rightarrow> placement \<Rightarrow> Placement \<Rightarrow> failure option" where
  "ensureBucketAt g hierarchy t plan spot =
     (let cmd = plCommand plan in
      if \<not> BucketGiven cmd \<or> IsZero (TargetBucketID cmd) then None
      else case Profile hierarchy (Type (plItem plan)) of
        Inl e \<Rightarrow> Some e
      | Inr profile \<Rightarrow>
          andThen (Require (narrow g (plDestination plan) (plParent plan) profile) CapabilityBucket ''/target_bucket_id'') (
          if PlaceDepth spot \<noteq> 1
          then Some (Failure (WithFields (WithParams (WithDetail ErrValidation ''items.bucket_not_at_top_level'')
            [(''item_id'', ItemID (plItem plan))]) [field_error ''/target_bucket_id'' ''items.bucket_not_at_top_level'']))
          else andThen (ensureBucketOnBoard g t (ContID (plDestination plan)) (TargetBucketID cmd)) (
            if TargetBucketID cmd = BucketID (plItem plan) \<and> ContID (plDestination plan) = CollectionID (plItem plan)
            then None
            else mayEnter g (plDestination plan) (plItem plan) (TargetBucketID cmd))))"

text \<open>\<^verbatim>\<open>clearForeignReferences\<close>: the labels and columns below the moved item that another collection owns.\<close>

definition foreign :: "(ID \<times> ID) list \<Rightarrow> ID \<Rightarrow> ID \<Rightarrow> bool" where
  "foreign home collection i = (case map_of home i of None \<Rightarrow> False | Some c \<Rightarrow> c \<noteq> collection)"

definition underPrefix :: "WorkItem list \<Rightarrow> string \<Rightarrow> ID \<Rightarrow> bool" where
  "underPrefix rows path i = list_ex (\<lambda>r. ItemID r = i \<and> hasPrefix (ItemPath r) path) rows"

definition clearForeignLabels :: "tree \<Rightarrow> string \<Rightarrow> ID \<Rightarrow> tree" where
  "clearForeignLabels t path collection =
     t\<lparr>itemLabels := filter (\<lambda>(i, l). \<not> (underPrefix (items t) path i \<and> foreign (labelHome t) collection l)) (itemLabels t)\<rparr>"

definition clearForeignBuckets :: "tree \<Rightarrow> string \<Rightarrow> ID \<Rightarrow> tree" where
  "clearForeignBuckets t path collection =
     t\<lparr>items := map (\<lambda>r. if hasPrefix (ItemPath r) path \<and> foreign (bucketHome t) collection (BucketID r)
                         then r\<lparr>BucketID := ''''\<rparr> else r) (items t)\<rparr>"

definition clearForeignReferences :: "tree \<Rightarrow> string \<Rightarrow> ID \<Rightarrow> tree" where
  "clearForeignReferences t path collection = clearForeignBuckets (clearForeignLabels t path collection) path collection"

definition SetOrderKey :: "WorkItem list \<Rightarrow> WorkItem \<Rightarrow> int \<Rightarrow> WorkItem list result" where
  "SetOrderKey rows after expected =
     (if \<not> list_ex (\<lambda>r. ItemID r = ItemID after \<and> Version r = expected) rows
      then Inl (versionConflict (ItemID after) expected)
      else Inr (map (\<lambda>r. if ItemID r = ItemID after
             then r\<lparr>OrderKey := OrderKey after, BucketID := BucketID after, UpdatedAt := UpdatedAt after, Version := Version r + 1\<rparr>
             else r) rows))"

definition landedBucket :: "placement \<Rightarrow> ID" where
  "landedBucket plan =
     (if BucketGiven (plCommand plan) then TargetBucketID (plCommand plan)
      else if ContID (plDestination plan) \<noteq> CollectionID (plItem plan) then ''''
      else BucketID (plItem plan))"

definition afterMove :: "placement \<Rightarrow> Placement \<Rightarrow> string \<Rightarrow> time \<Rightarrow> WorkItem" where
  "afterMove plan spot orderKey now =
     (plItem plan)\<lparr>ParentID := PlaceParentID spot, CollectionID := ContID (plDestination plan),
       ItemPath := SubtreePathUnder (plItem plan) (ParentPath spot), Depth := PlaceDepth spot, OrderKey := orderKey,
       UpdatedAt := now, BucketID := landedBucket plan\<rparr>"

definition movePlan :: "gates \<Rightarrow> tree \<Rightarrow> MoveWorkItemCommand \<Rightarrow> placement result" where
  "movePlan g t cmd =
     rbind (moveRead t cmd) (\<lambda>plan.
     guarded (authorize g (plDestination plan) (Some (plItem plan))) (
     guarded (if ContID (plSource plan) \<noteq> ContID (plDestination plan) then authorize g (plSource plan) (Some (plItem plan)) else None)
       (Inr plan)))"

text \<open>\<^verbatim>\<open>perform\<close> up to the write: everything the write depends on, read inside its transaction.\<close>

definition moveDecide :: "gates \<Rightarrow> CapabilityProfile list \<Rightarrow> CapabilityProfile list \<Rightarrow> tree \<Rightarrow> MoveWorkItemCommand
    \<Rightarrow> (placement \<times> Placement \<times> string) result" where
  "moveDecide g inForce system t cmd =
     rbind (moveRead t cmd) (\<lambda>fresh.
     guarded (EnsureAcceptsItems (plDestination fresh)) (
     guarded (if ContID (plSource fresh) \<noteq> ContID (plDestination fresh) then EnsureAcceptsItems (plSource fresh) else None) (
     if IsTrashed (plItem fresh) \<or> IsArchived (plItem fresh) then Inl (notEditable (plItem fresh)) else
     rbind (NewHierarchy inForce system) (\<lambda>hierarchy.
     rbind (Move hierarchy (plItem fresh) (plParent fresh)) (\<lambda>spot.
     guarded (requireLevel g (plDestination fresh) (plParent fresh) (Type (plItem fresh)) ''/target_parent_id'') (
     guarded (if ParentID (plItem fresh) \<noteq> TargetParentID (plCommand fresh)
              then admitsUnder g (plParent fresh) (plItem fresh) else None) (
     guarded (if ContID (plDestination fresh) \<noteq> ContID (plSource fresh)
              then keepsType g (plSource fresh) (plDestination fresh) (plItem fresh) else None) (
     guarded (ensureBucketAt g hierarchy t fresh spot) (
     rbind (rankAt (levelOf t (ContID (plDestination fresh)) (PlaceParentID spot)) (MoveOrderKey (plCommand fresh))
              (BeforeItemID (plCommand fresh)) (ItemID (plItem fresh))) (\<lambda>orderKey.
     rbind (Profile hierarchy (Type (plItem fresh))) (\<lambda>_. Inr (fresh, spot, orderKey))))))))))))"

definition moveWrite :: "tree \<Rightarrow> placement \<times> Placement \<times> string \<Rightarrow> time \<Rightarrow> (tree \<times> WorkItem) result" where
  "moveWrite t = (\<lambda>(plan, spot, orderKey) now.
     let before = plItem plan;
         expected = (if ExpectedVersion (plCommand plan) = 0 then Version before else ExpectedVersion (plCommand plan));
         after = afterMove plan spot orderKey now
     in rbind (if reparents plan
               then let t' = clearForeignReferences t (ItemPath before) (ContID (plDestination plan)) in
                    rbind (writeMove (items t') before spot (ContID (plDestination plan)) orderKey (BucketID after) expected now)
                      (\<lambda>rows. Inr (t'\<lparr>items := rows\<rparr>))
               else rbind (SetOrderKey (items t) after expected) (\<lambda>rows. Inr (t\<lparr>items := rows\<rparr>)))
          (\<lambda>t'. Inr (t', after\<lparr>Version := expected + 1\<rparr>)))"

definition movePerform :: "gates \<Rightarrow> CapabilityProfile list \<Rightarrow> CapabilityProfile list \<Rightarrow> tree \<Rightarrow> MoveWorkItemCommand \<Rightarrow> time
    \<Rightarrow> (tree \<times> WorkItem) result" where
  "movePerform g inForce system t cmd now =
     rbind (moveDecide g inForce system t cmd) (\<lambda>decision. moveWrite t decision now)"

definition reorderAmbiguous :: failure where
  "reorderAmbiguous =
     Failure (WithFields (WithDetail ErrValidation ''items.reorder_ambiguous'') [field_error ''/order_key'' ''items.reorder_ambiguous''])"

definition itemIDRequired :: failure where
  "itemIDRequired =
     Failure (WithFields (WithDetail ErrValidation ''items.item_id_required'') [field_error ''/item_id'' ''items.item_id_required''])"

text \<open>The plan is made on the tree as read before the transaction, the write on the tree inside it.\<close>

definition moveItem :: "gates \<Rightarrow> CapabilityProfile list \<Rightarrow> CapabilityProfile list \<Rightarrow> tree \<Rightarrow> tree \<Rightarrow> MoveWorkItemCommand \<Rightarrow> time
    \<Rightarrow> (tree \<times> WorkItem) result" where
  "moveItem g inForce system planned t cmd now =
     (if MoveOrderKey cmd \<noteq> '''' \<and> \<not> IsZero (BeforeItemID cmd) then Inl reorderAmbiguous
      else guarded (if MoveOrderKey cmd \<noteq> '''' then ValidOrderKey (MoveOrderKey cmd) else None) (
        if IsZero (MoveItemID cmd) then Inl itemIDRequired
        else rbind (movePlan g planned cmd) (\<lambda>plan. movePerform g inForce system t (plCommand plan) now)))"

definition reorderItem :: "gates \<Rightarrow> CapabilityProfile list \<Rightarrow> CapabilityProfile list \<Rightarrow> tree \<Rightarrow> tree \<Rightarrow> ID \<Rightarrow> ID \<Rightarrow> string \<Rightarrow> int \<Rightarrow> time
    \<Rightarrow> (tree \<times> WorkItem) result" where
  "reorderItem g inForce system planned t itemID beforeID orderKey expected now =
     (if IsZero itemID then Inl itemIDRequired
      else if orderKey \<noteq> '''' \<and> \<not> IsZero beforeID then Inl reorderAmbiguous
      else guarded (if orderKey \<noteq> '''' then ValidOrderKey orderKey else None) (
        rbind (movePlan g planned \<lparr>MoveItemID = itemID, TargetParentID = '''', ParentGiven = False, TargetCollectionID = '''',
                 BeforeItemID = beforeID, MoveOrderKey = orderKey, TargetBucketID = '''', BucketGiven = False,
                 ExpectedVersion = expected\<rparr>)
          (\<lambda>plan. movePerform g inForce system t (plCommand plan) now)))"

section \<open>Completing\<close>

datatype direction = completing | reopening

text \<open>
  The write of \<^verbatim>\<open>CompleteWorkItem\<close> and \<^verbatim>\<open>ReopenWorkItem\<close>: the item, then its parents.  The version the
  caller names is 0 when it read none; \<open>None\<close> is a walk over the parents that outran its fuel.
\<close>

definition setCompletion :: "gates \<Rightarrow> nat \<Rightarrow> (WorkItem \<Rightarrow> CapabilityProfile result) \<Rightarrow> CompletionPolicy \<Rightarrow> direction \<Rightarrow> ID
    \<Rightarrow> ID \<Rightarrow> int \<Rightarrow> time \<Rightarrow> tree \<Rightarrow> tree result option" where
  "setCompletion g fuel profileFor policy want actor i expectedVersion now t =
     (case rbind (findItem t i) (\<lambda>item.
             rbind (findCollection t (CollectionID item)) (\<lambda>collection.
             guarded (EnsureAcceptsItems collection) (
             guarded (requireShown g collection item) (
             guarded (completable profileFor item) (Inr item))))) of
        Inl e \<Rightarrow> Some (Inl e)
      | Inr item \<Rightarrow>
          let wanted = (if want = reopening then Reopened item now else Completed item actor now)
          in if IsCompleted (ItemCompletion wanted) = IsCompleted (ItemCompletion item)
             then Some (guarded (ensureExpectedVersion item expectedVersion) (Inr t))
             else case writeCompletion (items t) wanted (if expectedVersion = 0 then Version item else expectedVersion) of
                    Inl e \<Rightarrow> Some (Inl e)
                  | Inr rows \<Rightarrow> map_option (\<lambda>r. rbind r (\<lambda>rows. Inr (t\<lparr>items := rows\<rparr>)))
                      (rollUp fuel profileFor policy actor now rows (ParentID item)))"

section \<open>Labelling\<close>

datatype labelDirection = adding | removing

definition labelIDRequired :: failure where
  "labelIDRequired =
     Failure (WithFields (WithDetail ErrValidation ''labels.label_id_required'') [field_error ''/label_id'' ''labels.label_id_required''])"

definition ensureLabelAllowed :: "gates \<Rightarrow> WorkItem \<Rightarrow> failure option" where
  "ensureLabelAllowed g item =
     (case gatedProfileFor g item of Inl e \<Rightarrow> Some e | Inr profile \<Rightarrow> Require profile CapabilityLabels ''/label_id'')"

definition ensureLabelInCollection :: "gates \<Rightarrow> tree \<Rightarrow> WorkItem \<Rightarrow> ID \<Rightarrow> failure option" where
  "ensureLabelInCollection g t item labelID =
     (case map_of (labelHome t) labelID of
        None \<Rightarrow> Some (Failure (WithParams (WithDetail ErrNotFound ''labels.not_found'') [(''label_id'', labelID)]))
      | Some home \<Rightarrow>
          if home \<noteq> CollectionID item
          then Some (Failure (WithFields (WithParams (WithDetail ErrValidation ''labels.not_in_collection'')
            [(''label_id'', labelID), (''collection_id'', CollectionID item)]) [field_error ''/label_id'' ''labels.not_in_collection'']))
          else labelEditable g labelID)"

text \<open>\<^verbatim>\<open>ItemLabelRepository\<close>: the membership row first, then the tag of the change, whether or not a row moved.\<close>

definition labelElements :: "tree \<Rightarrow> ID \<Rightarrow> SetElement list" where
  "labelElements t itemID = (case map_of (labelTags t) itemID of None \<Rightarrow> [] | Some rows \<Rightarrow> rows)"

definition addItemLabel :: "tree \<Rightarrow> ID \<Rightarrow> ID \<Rightarrow> HLC \<Rightarrow> tree" where
  "addItemLabel t itemID labelID tag =
     t\<lparr>itemLabels := (if List.member (itemLabels t) (itemID, labelID) then itemLabels t else itemLabels t @ [(itemID, labelID)]),
       labelTags := AList.update itemID (RecordSetElementAdded (labelElements t itemID) labelID tag) (labelTags t)\<rparr>"

definition removeItemLabel :: "tree \<Rightarrow> ID \<Rightarrow> ID \<Rightarrow> HLC \<Rightarrow> tree \<times> bool" where
  "removeItemLabel t itemID labelID tag =
     (t\<lparr>itemLabels := filter (\<lambda>e. e \<noteq> (itemID, labelID)) (itemLabels t),
        labelTags := AList.update itemID (RecordSetElementRemoved (labelElements t itemID) labelID tag) (labelTags t)\<rparr>,
      List.member (itemLabels t) (itemID, labelID))"

text \<open>\<^verbatim>\<open>apply\<close>: a label the item already carries is added again, so that its tag moves on.\<close>

definition applyLabel :: "tree \<Rightarrow> ID \<Rightarrow> ID \<Rightarrow> labelDirection \<Rightarrow> HLC \<Rightarrow> tree \<times> bool" where
  "applyLabel t itemID labelID want tag =
     (if want = removing then removeItemLabel t itemID labelID tag
      else if List.member (itemLabels t) (itemID, labelID) then (addItemLabel t itemID labelID tag, False)
      else (addItemLabel t itemID labelID tag, True))"

definition changeLabel :: "gates \<Rightarrow> tree \<Rightarrow> tree \<Rightarrow> ID \<Rightarrow> ID \<Rightarrow> labelDirection \<Rightarrow> HLC \<Rightarrow> (tree \<times> bool) result" where
  "changeLabel g planned t itemID labelID want tag =
     (if IsZero itemID then Inl itemIDRequired
      else if IsZero labelID then Inl labelIDRequired
      else
        rbind (findItem planned itemID) (\<lambda>subject.
        rbind (findCollection planned (CollectionID subject)) (\<lambda>collection.
        guarded (authorize g collection (Some subject)) (
        rbind (findItem t itemID) (\<lambda>item.
        guarded (ensureLabelAllowed g item) (
        guarded (EnsureEditable item) (
        guarded (ensureLabelInCollection g t item labelID) (Inr (applyLabel t itemID labelID want tag)))))))))"

end
