(* ===== verification/Tree_Laws.thy ===== *)
theory Tree_Laws
  imports Hierarchy "HOL-Library.Sublist"
begin

text \<open>
  The laws of the tree of items: what a path encodes, that a placement is what the item's own check
  demands, that every reachable tree is well-formed (paths, depths and parents agree, nothing is its own
  ancestor, no type sits deeper than its profile allows), and that a completed child settles its parents.
\<close>

section \<open>Paths of identifiers\<close>

text \<open>A segment as identifiers are: not empty and without the separator.\<close>

definition segment_ok :: "string \<Rightarrow> bool" where
  "segment_ok s \<longleftrightarrow> s \<noteq> [] \<and> slash \<notin> set s"

definition path_of :: "string list \<Rightarrow> string" where
  "path_of segs = slash # concat (map (\<lambda>s. s @ [slash]) segs)"

lemma uuid_segment: "looksLikeUUID i \<Longrightarrow> segment_ok i"
  using looksLikeUUID_no_slash looksLikeUUID_nonempty by (auto simp: segment_ok_def)

lemma path_of_snoc: "path_of (segs @ [s]) = path_of segs @ s @ [slash]"
  by (simp add: path_of_def)

lemma path_of_snoc2: "path_of (segs @ [a, b]) = path_of (segs @ [a]) @ b @ [slash]"
  by (simp add: path_of_def)

lemma concat_segments_prefix:
  "list_all segment_ok a \<Longrightarrow> list_all segment_ok b \<Longrightarrow>
   prefix (concat (map (\<lambda>s. s @ [slash]) a)) (concat (map (\<lambda>s. s @ [slash]) b)) \<longleftrightarrow> prefix a b"
proof (induction a arbitrary: b)
  case (Cons x a)
  show ?case
  proof (cases b)
    case (Cons y b')
    have xy: "slash \<notin> set x" "slash \<notin> set y" using Cons.prems Cons by (auto simp: segment_ok_def)
    have "prefix (x @ slash # u) (y @ slash # v) \<longleftrightarrow> x = y \<and> prefix u v" for u v
      using xy by (induction x arbitrary: y) (case_tac y; auto)+
    with Cons.IH Cons.prems Cons show ?thesis by simp
  qed simp
qed simp

lemma path_of_prefix:
  "list_all segment_ok a \<Longrightarrow> list_all segment_ok b \<Longrightarrow> prefix (path_of a) (path_of b) \<longleftrightarrow> prefix a b"
  by (simp add: path_of_def concat_segments_prefix)

lemma path_of_inj: "list_all segment_ok a \<Longrightarrow> list_all segment_ok b \<Longrightarrow> path_of a = path_of b \<longleftrightarrow> a = b"
  by (metis path_of_prefix prefix_order.eq_iff)

lemma hasPrefix_prefix: "hasPrefix s p \<longleftrightarrow> prefix p s"
  by (auto simp: hasPrefix_def prefix_def) (metis append_take_drop_id)

lemma path_of_join: "segs \<noteq> [] \<Longrightarrow> path_of segs = slash # joinWith [slash] segs @ [slash]"
  by (induction segs rule: induct_list012) (auto simp: path_of_def)

lemma dropWhile_slash: "segment_ok s \<Longrightarrow> dropWhile (\<lambda>c. c = slash) (s @ t) = s @ t"
  by (cases s) (auto simp: segment_ok_def)

lemma joinWith_hd: "segs \<noteq> [] \<Longrightarrow> \<exists>u. joinWith [slash] segs = hd segs @ u"
  by (induction segs rule: induct_list012) auto

lemma joinWith_last: "segs \<noteq> [] \<Longrightarrow> \<exists>u. joinWith [slash] segs = u @ last segs"
proof (induction segs rule: induct_list012)
  case (3 x y zs)
  then obtain u where "joinWith [slash] (y # zs) = u @ last (y # zs)" by auto
  then have "joinWith [slash] (x # y # zs) = (x @ [slash] @ u) @ last (x # y # zs)" by simp
  then show ?case by blast
qed simp_all

lemma trimSlash_path:
  assumes "segs \<noteq> []" "list_all segment_ok segs"
  shows "trimSlash (path_of segs) = joinWith [slash] segs"
proof -
  have ends: "segment_ok (hd segs)" "segment_ok (rev (last segs))"
    using assms by (auto simp: list_all_iff segment_ok_def)
  obtain u where u: "joinWith [slash] segs = hd segs @ u" using joinWith_hd [OF assms(1)] by blast
  obtain v where v: "joinWith [slash] segs = v @ last segs" using joinWith_last [OF assms(1)] by blast
  have "dropWhile (\<lambda>c. c = slash) (path_of segs) = hd segs @ u @ [slash]"
    using dropWhile_slash [OF ends(1), of "u @ [slash]"] by (simp add: path_of_join [OF assms(1)] u)
  then have "dropWhile (\<lambda>c. c = slash) (path_of segs) = v @ last segs @ [slash]"
    using u v by (metis append.assoc)
  then show ?thesis
    using dropWhile_slash [OF ends(2), of "rev v"] by (simp add: trimSlash_def v)
qed

lemma segments_of_path:
  assumes "segs \<noteq> []" "list_all segment_ok segs"
  shows "splitOn slash (trimSlash (path_of segs)) = segs"
  using assms by (simp add: trimSlash_path splitOn_join list_all_iff segment_ok_def)

lemma path_of_shape:
  assumes "segs \<noteq> []" "list_all segment_ok segs"
  shows "hasPrefix (path_of segs) ''/''" "hasSuffix (path_of segs) ''/''" "path_of segs \<noteq> ''/''"
proof -
  have "joinWith [slash] segs \<noteq> []" using joinWith_last [OF assms(1)] assms by (auto simp: list_all_iff segment_ok_def)
  then show "hasPrefix (path_of segs) ''/''" "hasSuffix (path_of segs) ''/''" "path_of segs \<noteq> ''/''"
    by (simp_all add: path_of_join [OF assms(1)] hasPrefix_def hasSuffix_def)
qed

section \<open>Well-formed trees\<close>

definition row_ok :: "WorkItem list \<Rightarrow> WorkItem \<Rightarrow> bool" where
  "row_ok rows r \<longleftrightarrow>
     (ParentID r = '''' \<and> ItemPath r = path_of [ItemID r] \<and> Depth r = 1)
   \<or> (\<exists>p \<in> set rows. ItemID p = ParentID r \<and> ItemPath r = ItemPath p @ ItemID r @ [slash] \<and> Depth r = Depth p + 1)"

definition fits :: "Hierarchy \<Rightarrow> ItemType \<Rightarrow> ItemType \<Rightarrow> bool" where
  "fits h child parent \<longleftrightarrow> (\<exists>c u. Profile h child = Inr c \<and> Profile h parent = Inr u
     \<and> AllowsChild u child \<and> 1 + MaxDepth c \<le> MaxDepth u)"

definition nested :: "Hierarchy \<Rightarrow> WorkItem list \<Rightarrow> WorkItem \<Rightarrow> bool" where
  "nested h rows r \<longleftrightarrow> (\<exists>c. Profile h (Type r) = Inr c \<and> 1 \<le> MaxDepth c)
     \<and> (if ParentID r = '''' then IsRoot h (Type r)
        else \<forall>p \<in> set rows. ItemID p = ParentID r \<longrightarrow> fits h (Type r) (Type p))"

definition tree_ok :: "Hierarchy \<Rightarrow> WorkItem list \<Rightarrow> bool" where
  "tree_ok h rows \<longleftrightarrow> distinct (map ItemID rows)
     \<and> (\<forall>r \<in> set rows. looksLikeUUID (ItemID r) \<and> row_ok rows r \<and> nested h rows r)"

lemma tree_ok_ids: "tree_ok h rows \<Longrightarrow> r \<in> set rows \<Longrightarrow> q \<in> set rows \<Longrightarrow> ItemID r = ItemID q \<Longrightarrow> r = q"
  by (auto simp: tree_ok_def distinct_map dest: inj_onD)

lemma tree_okD:
  "tree_ok h rows \<Longrightarrow> r \<in> set rows \<Longrightarrow> looksLikeUUID (ItemID r)"
  "tree_ok h rows \<Longrightarrow> r \<in> set rows \<Longrightarrow> row_ok rows r"
  "tree_ok h rows \<Longrightarrow> r \<in> set rows \<Longrightarrow> nested h rows r"
  by (simp_all add: tree_ok_def)

lemma parent_cases:
  assumes "tree_ok h rows" "r \<in> set rows"
  obtains (root) "ParentID r = ''''" "ItemPath r = path_of [ItemID r]" "Depth r = 1"
  | (child) q where "q \<in> set rows" "ItemID q = ParentID r" "ItemPath r = ItemPath q @ ItemID r @ [slash]"
      "Depth r = Depth q + 1" "ParentID r \<noteq> ''''"
proof -
  consider "ParentID r = ''''" "ItemPath r = path_of [ItemID r]" "Depth r = 1"
    | q where "q \<in> set rows" "ItemID q = ParentID r" "ItemPath r = ItemPath q @ ItemID r @ [slash]"
      "Depth r = Depth q + 1"
    using tree_okD(2) [OF assms] by (auto simp: row_ok_def)
  then show ?thesis
  proof cases
    case (2 q)
    then have "ParentID r \<noteq> ''''" using tree_okD(1) [OF assms(1)] looksLikeUUID_nonempty by force
    with 2 that(2) show ?thesis by blast
  qed (use that(1) in blast)
qed

text \<open>The chain of identifiers that a row's path spells.\<close>

lemma row_ids:
  assumes "tree_ok h rows" "r \<in> set rows"
  shows "\<exists>segs. ItemPath r = path_of (segs @ [ItemID r]) \<and> list_all looksLikeUUID (segs @ [ItemID r])
    \<and> Depth r = int (length segs) + 1 \<and> (if ParentID r = '''' then segs = [] else segs \<noteq> [] \<and> last segs = ParentID r)"
  using assms(2)
proof (induction "length (ItemPath r)" arbitrary: r rule: less_induct)
  case less
  note r = less.prems
  have id: "looksLikeUUID (ItemID r)" using tree_okD(1) [OF assms(1) r] .
  show ?case
  proof (cases rule: parent_cases [OF assms(1) r])
    case 1
    then show ?thesis using id by (intro exI [of _ "[]"]) simp
  next
    case (2 q)
    then obtain segs where "ItemPath q = path_of (segs @ [ItemID q])" "list_all looksLikeUUID (segs @ [ItemID q])"
      "Depth q = int (length segs) + 1" using less.hyps [of q] by auto
    with 2 id show ?thesis
      by (intro exI [of _ "segs @ [ItemID q]"]) (simp add: path_of_snoc2)
  qed
qed

lemma row_chain:
  assumes "tree_ok h rows" "r \<in> set rows"
  shows "\<exists>segs. ItemPath r = path_of (segs @ [ItemID r]) \<and> list_all segment_ok (segs @ [ItemID r])
    \<and> Depth r = int (length segs) + 1"
  using row_ids [OF assms] uuid_segment by (auto simp: list_all_iff)

lemma parseSegments_uuids: "list_all looksLikeUUID segs \<Longrightarrow> parseSegments segs = Some segs"
  by (induction segs) (simp_all add: ParseID_def)

lemma PathIDs_path:
  assumes "segs \<noteq> []" "list_all looksLikeUUID segs"
  shows "PathIDs (path_of segs) = segs"
proof -
  have segs: "list_all segment_ok segs" using assms(2) uuid_segment by (auto simp: list_all_iff)
  have "joinWith [slash] segs \<noteq> []"
    using joinWith_last [OF assms(1)] assms segs by (auto simp: list_all_iff segment_ok_def)
  then show ?thesis
    using segments_of_path [OF assms(1) segs] parseSegments_uuids [OF assms(2)] trimSlash_path [OF assms(1) segs]
    by (simp add: PathIDs_def)
qed

text \<open>Every row of a well-formed tree passes the check that creation makes, and its path reads as its chain.\<close>

lemma row_placement:
  assumes "tree_ok h rows" "r \<in> set rows"
  shows "checkPlacement (ItemID r) (ParentID r) (ItemPath r) (Depth r) = None"
    and "PathIDs (ItemPath r) = (if ParentID r = '''' then [] else butlast (PathIDs (ItemPath r))) @ [ItemID r]"
    and "ParentID r \<noteq> '''' \<Longrightarrow> last (butlast (PathIDs (ItemPath r))) = ParentID r"
proof -
  obtain segs where s: "ItemPath r = path_of (segs @ [ItemID r])" "list_all looksLikeUUID (segs @ [ItemID r])"
    "Depth r = int (length segs) + 1" "if ParentID r = '''' then segs = [] else segs \<noteq> [] \<and> last segs = ParentID r"
    using row_ids [OF assms] by blast
  have ok: "list_all segment_ok (segs @ [ItemID r])" using s(2) uuid_segment by (auto simp: list_all_iff)
  note shape = path_of_shape [OF _ ok] and split = segments_of_path [OF _ ok]
  show "checkPlacement (ItemID r) (ParentID r) (ItemPath r) (Depth r) = None"
    using s(3,4) shape split
    by (cases segs rule: rev_cases) (auto simp: checkPlacement_def s(1) IsZero_def nth_append split: if_splits)
  show "PathIDs (ItemPath r) = (if ParentID r = '''' then [] else butlast (PathIDs (ItemPath r))) @ [ItemID r]"
    "ParentID r \<noteq> '''' \<Longrightarrow> last (butlast (PathIDs (ItemPath r))) = ParentID r"
    using s(4) PathIDs_path [OF _ s(2)] by (simp_all add: s(1) split: if_splits)
qed

lemma child_in_subtree:
  assumes "tree_ok h rows" "m \<in> set rows" "r \<in> set rows" "q \<in> set rows" "r \<noteq> m"
    and "ItemPath r = ItemPath q @ ItemID r @ [slash]"
  shows "prefix (ItemPath m) (ItemPath r) \<longleftrightarrow> prefix (ItemPath m) (ItemPath q)"
proof -
  obtain ms where ms: "ItemPath m = path_of (ms @ [ItemID m])" "list_all segment_ok (ms @ [ItemID m])"
    using row_chain [OF assms(1,2)] by blast
  obtain qs where qs: "ItemPath q = path_of (qs @ [ItemID q])" "list_all segment_ok (qs @ [ItemID q])"
    using row_chain [OF assms(1,4)] by blast
  have id: "segment_ok (ItemID r)" using tree_okD(1) [OF assms(1,3)] uuid_segment by blast
  have r: "ItemPath r = path_of ((qs @ [ItemID q]) @ [ItemID r])" by (simp add: assms(6) qs(1) path_of_snoc2)
  have neq: "ItemID m \<noteq> ItemID r" using tree_ok_ids assms(1-3,5) by blast
  have "prefix (ItemPath m) (ItemPath r) \<longleftrightarrow> prefix (ms @ [ItemID m]) ((qs @ [ItemID q]) @ [ItemID r])"
    unfolding ms(1) r using ms(2) qs(2) id by (intro path_of_prefix) simp_all
  also have "\<dots> \<longleftrightarrow> prefix (ms @ [ItemID m]) (qs @ [ItemID q])"
    using neq by (simp only: prefix_snoc) auto
  also have "\<dots> \<longleftrightarrow> prefix (ItemPath m) (ItemPath q)"
    unfolding ms(1) qs(1) using ms(2) qs(2) by (simp add: path_of_prefix)
  finally show ?thesis .
qed

lemma root_in_subtree:
  assumes "tree_ok h rows" "m \<in> set rows" "r \<in> set rows" "r \<noteq> m" "ItemPath r = path_of [ItemID r]"
  shows "\<not> prefix (ItemPath m) (ItemPath r)"
proof
  assume "prefix (ItemPath m) (ItemPath r)"
  obtain ms where ms: "ItemPath m = path_of (ms @ [ItemID m])" "list_all segment_ok (ms @ [ItemID m])"
    using row_chain [OF assms(1,2)] by blast
  have "list_all segment_ok [ItemID r]" using tree_okD(1) [OF assms(1,3)] uuid_segment by simp
  then have "prefix (ms @ [ItemID m]) [ItemID r]"
    using \<open>prefix (ItemPath m) (ItemPath r)\<close> ms path_of_prefix by (simp add: assms(5))
  then have "ItemID m = ItemID r" by (cases ms) auto
  then show False using tree_ok_ids assms(1-4) by blast
qed

section \<open>Moving\<close>

lemma Place_Inr:
  assumes "Place h parent t = Inr spot"
  shows "\<exists>c. Profile h t = Inr c \<and> 1 \<le> MaxDepth c \<and>
    (case parent of
       None \<Rightarrow> IsRoot h t \<and> spot = \<lparr>PlaceParentID = '''', PlaceDepth = 1, parentPath = ''/''\<rparr>
     | Some p \<Rightarrow> fits h t (Type p) \<and> \<not> IsTrashed p \<and> \<not> IsArchived p
         \<and> spot = \<lparr>PlaceParentID = ItemID p, PlaceDepth = Depth p + 1, parentPath = ItemPath p\<rparr>)"
proof (cases parent)
  case None
  with assms show ?thesis by (auto simp: Place_def go_result split: if_split_asm)
next
  case (Some p)
  with assms show ?thesis
    by (cases "Profile h (Type p)") (auto simp: Place_def fits_def go_result split: if_split_asm)
qed

lemma Move_Inr:
  assumes "Move h m parent = Inr spot"
  shows "Place h parent (Type m) = Inr spot"
    and "parent = Some p \<Longrightarrow> ItemID m \<noteq> ItemID p \<and> \<not> Contains m p"
  using assms by (auto simp: Move_def split: option.splits if_splits)

definition moved_row :: "WorkItem \<Rightarrow> Placement \<Rightarrow> ID \<Rightarrow> string \<Rightarrow> ID \<Rightarrow> time \<Rightarrow> WorkItem \<Rightarrow> WorkItem" where
  "moved_row m spot collection key bucket at row =
     (let newPath = SubtreePathUnder m (ParentPath spot) in
      if ItemID row = ItemID m
      then SetWorkItemPlacement row (PlaceParentID spot) collection newPath (PlaceDepth spot) key bucket at
      else MoveWorkItemSubtree (ItemID m) collection (ItemPath m) newPath (PlaceDepth spot - Depth m) at row)"

lemma writeMove_rows:
  "writeMove rows m spot collection key bucket expected at = Inr rows' \<Longrightarrow>
   rows' = map (moved_row m spot collection key bucket at) rows"
  by (auto simp: writeMove_def moved_row_def Let_def split: if_splits)

lemma moved_row_simps [simp]:
  "ItemID (moved_row m spot c k b at r) = ItemID r" "Type (moved_row m spot c k b at r) = Type r"
  by (simp_all add: moved_row_def SetWorkItemPlacement_def MoveWorkItemSubtree_def Let_def)

lemma moved_row_outside:
  "ItemID r \<noteq> ItemID m \<Longrightarrow> \<not> prefix (ItemPath m) (ItemPath r) \<Longrightarrow> moved_row m spot c k b at r = r"
  by (simp add: moved_row_def MoveWorkItemSubtree_def hasPrefix_prefix Let_def)

lemma moved_row_below:
  assumes "ItemID r \<noteq> ItemID m" "prefix (ItemPath m) (ItemPath r)"
  shows "ItemPath (moved_row m spot c k b at r) =
      SubtreePathUnder m (ParentPath spot) @ drop (length (ItemPath m)) (ItemPath r)"
    "Depth (moved_row m spot c k b at r) = Depth r + (PlaceDepth spot - Depth m)"
    "ParentID (moved_row m spot c k b at r) = ParentID r"
  using assms by (simp_all add: moved_row_def MoveWorkItemSubtree_def hasPrefix_prefix Let_def)

lemma moved_row_self:
  assumes "ItemID r = ItemID m"
  shows "ItemPath (moved_row m spot c k b at r) = SubtreePathUnder m (ParentPath spot)"
    "Depth (moved_row m spot c k b at r) = PlaceDepth spot"
    "ParentID (moved_row m spot c k b at r) = PlaceParentID spot"
  using assms by (simp_all add: moved_row_def SetWorkItemPlacement_def Let_def)

lemma path_nonempty: "tree_ok h rows \<Longrightarrow> r \<in> set rows \<Longrightarrow> ItemPath r \<noteq> ''''"
  using row_chain [of h rows r] by (auto simp: path_of_def)

lemma move_row_ok:
  assumes ok: "tree_ok h rows" and m: "m \<in> set rows" and r: "r \<in> set rows"
    and parent: "\<And>p. parent = Some p \<Longrightarrow> p \<in> set rows"
    and move: "Move h m parent = Inr spot"
  shows "row_ok (map (moved_row m spot c k b at) rows) (moved_row m spot c k b at r)"
proof (cases "r = m")
  case True
  obtain q where place: "case parent of
      None \<Rightarrow> spot = \<lparr>PlaceParentID = '''', PlaceDepth = 1, parentPath = ''/''\<rparr>
    | Some p \<Rightarrow> spot = \<lparr>PlaceParentID = ItemID p, PlaceDepth = Depth p + 1, parentPath = ItemPath p\<rparr>"
    using Place_Inr [OF Move_Inr(1) [OF move]] by (auto split: option.splits)
  show ?thesis
  proof (cases parent)
    case None
    then show ?thesis
      using True place by (simp add: row_ok_def moved_row_self SubtreePathUnder_def ParentPath_def path_of_def)
  next
    case (Some p)
    have out: "moved_row m spot c k b at p = p"
      using Move_Inr(2) [OF move Some] by (intro moved_row_outside) (auto simp: Contains_def hasPrefix_prefix)
    have "ItemPath p \<noteq> ''''" using path_nonempty ok parent [OF Some] by blast
    then show ?thesis
      using True place Some parent [OF Some] out
      by (auto simp: row_ok_def moved_row_self SubtreePathUnder_def ParentPath_def intro!: disjI2 bexI [of _ p])
  qed
next
  case False
  then have other: "ItemID r \<noteq> ItemID m" using tree_ok_ids ok m r by blast
  show ?thesis
  proof (cases rule: parent_cases [OF ok r])
    case 1
    then have "moved_row m spot c k b at r = r"
      using root_in_subtree [OF ok m r False] other by (intro moved_row_outside) auto
    with 1 show ?thesis by (simp add: row_ok_def)
  next
    case (2 q)
    have same: "prefix (ItemPath m) (ItemPath r) \<longleftrightarrow> prefix (ItemPath m) (ItemPath q)"
      using child_in_subtree [OF ok m r 2(1) False 2(3)] .
    let ?f = "moved_row m spot c k b at"
    have "ItemPath (?f r) = ItemPath (?f q) @ ItemID r @ [slash] \<and> Depth (?f r) = Depth (?f q) + 1
        \<and> ParentID (?f r) = ParentID r"
    proof (cases "prefix (ItemPath m) (ItemPath q)")
      case True
      note below = moved_row_below [OF other, unfolded same, OF True]
      show ?thesis
      proof (cases "ItemID q = ItemID m")
        case True
        then have "q = m" using tree_ok_ids ok m 2(1) by blast
        then show ?thesis using 2 by (simp add: below moved_row_self)
      next
        case False
        have "length (ItemPath m) \<le> length (ItemPath q)" using True by (auto dest: prefix_length_le)
        then show ?thesis using 2 True False by (simp add: below moved_row_below)
      qed
    next
      case False
      then have "ItemID q \<noteq> ItemID m" using tree_ok_ids ok m 2(1) by fastforce
      then show ?thesis using False same other 2 by (simp add: moved_row_outside)
    qed
    with 2 show ?thesis by (auto simp: row_ok_def)
  qed
qed

lemma move_nested:
  assumes ok: "tree_ok h rows" and m: "m \<in> set rows" and r: "r \<in> set rows"
    and parent: "\<And>p. parent = Some p \<Longrightarrow> p \<in> set rows"
    and move: "Move h m parent = Inr spot"
  shows "nested h (map (moved_row m spot c k b at) rows) (moved_row m spot c k b at r)"
proof (cases "ItemID r = ItemID m")
  case True
  obtain cp where cp: "Profile h (Type m) = Inr cp" "1 \<le> MaxDepth cp"
    and place: "case parent of
       None \<Rightarrow> IsRoot h (Type m) \<and> spot = \<lparr>PlaceParentID = '''', PlaceDepth = 1, parentPath = ''/''\<rparr>
     | Some p \<Rightarrow> fits h (Type m) (Type p) \<and> \<not> IsTrashed p \<and> \<not> IsArchived p
         \<and> spot = \<lparr>PlaceParentID = ItemID p, PlaceDepth = Depth p + 1, parentPath = ItemPath p\<rparr>"
    using Place_Inr [OF Move_Inr(1) [OF move]] by blast
  have "r = m" using True tree_ok_ids ok m r by blast
  then show ?thesis
    using cp place parent tree_ok_ids [OF ok] tree_okD(1) [OF ok] looksLikeUUID_nonempty
    by (cases parent) (auto simp: nested_def moved_row_self)
next
  case False
  have "ParentID (moved_row m spot c k b at r) = ParentID r"
    using False by (cases "prefix (ItemPath m) (ItemPath r)") (simp_all add: moved_row_below moved_row_outside)
  then show ?thesis using tree_okD(3) [OF ok r] by (auto simp: nested_def)
qed

lemma move_tree_ok:
  assumes "tree_ok h rows" "m \<in> set rows" "\<And>p. parent = Some p \<Longrightarrow> p \<in> set rows" "Move h m parent = Inr spot"
    and "writeMove rows m spot collection key bucket expected at = Inr rows'"
  shows "tree_ok h rows'"
proof -
  have rows': "rows' = map (moved_row m spot collection key bucket at) rows" by (rule writeMove_rows [OF assms(5)])
  have "distinct (map ItemID rows')" using assms(1) by (simp add: tree_ok_def rows' comp_def)
  moreover have "looksLikeUUID (ItemID r) \<and> row_ok rows' r \<and> nested h rows' r" if "r \<in> set rows'" for r
    using that assms(1) move_row_ok [OF assms(1,2) _ assms(3,4)] move_nested [OF assms(1,2) _ assms(3,4)]
    by (auto simp: tree_ok_def rows')
  ultimately show ?thesis by (simp add: tree_ok_def)
qed

section \<open>Creating and keeping the place\<close>

lemma place_tree_ok:
  assumes ok: "tree_ok h rows" and parent: "\<And>p. parent = Some p \<Longrightarrow> p \<in> set rows"
    and place: "Place h parent (Type item) = Inr spot"
    and item: "ParentID item = PlaceParentID spot" "ItemPath item = PathOf spot (ItemID item)" "Depth item = PlaceDepth spot"
    and fresh: "looksLikeUUID (ItemID item)" "ItemID item \<notin> ItemID ` set rows"
  shows "tree_ok h (rows @ [item])"
proof -
  obtain c where c: "Profile h (Type item) = Inr c" "1 \<le> MaxDepth c"
    and at: "case parent of
       None \<Rightarrow> IsRoot h (Type item) \<and> spot = \<lparr>PlaceParentID = '''', PlaceDepth = 1, parentPath = ''/''\<rparr>
     | Some p \<Rightarrow> fits h (Type item) (Type p) \<and> \<not> IsTrashed p \<and> \<not> IsArchived p
         \<and> spot = \<lparr>PlaceParentID = ItemID p, PlaceDepth = Depth p + 1, parentPath = ItemPath p\<rparr>"
    using Place_Inr [OF place] by blast
  have new: "row_ok (rows @ [item]) item \<and> nested h (rows @ [item]) item"
  proof (cases parent)
    case None
    then show ?thesis using at item c by (auto simp: row_ok_def nested_def PathOf_def path_of_def)
  next
    case (Some p)
    have p: "p \<in> set rows" using parent Some by blast
    have "ItemID p \<noteq> ''''" "ItemID p \<noteq> ItemID item"
      using tree_okD(1) [OF ok p] looksLikeUUID_nonempty fresh(2) p by (metis, metis image_eqI)
    moreover have "q = p" if "q \<in> set rows" "ItemID q = ItemID p" for q using tree_ok_ids [OF ok that(1) p that(2)] .
    ultimately show ?thesis using Some at item c p by (auto simp: row_ok_def nested_def PathOf_def)
  qed
  have old: "row_ok (rows @ [item]) r \<and> nested h (rows @ [item]) r" if "r \<in> set rows" for r
  proof -
    have "ParentID r \<noteq> ItemID item"
      using parent_cases [OF ok that] fresh looksLikeUUID_nonempty by (metis imageI)
    then show ?thesis
      using tree_okD(2,3) [OF ok that] by (auto simp: row_ok_def nested_def)
  qed
  show ?thesis using ok new old fresh by (auto simp: tree_ok_def)
qed

definition same_place :: "WorkItem \<Rightarrow> WorkItem \<Rightarrow> bool" where
  "same_place r q \<longleftrightarrow> ItemID q = ItemID r \<and> ParentID q = ParentID r \<and> ItemPath q = ItemPath r
     \<and> Depth q = Depth r \<and> Type q = Type r"

lemma same_place_refl [simp]: "same_place r r"
  by (simp add: same_place_def)

text \<open>Only the places matter: two ways of rewriting the rows that agree on them are both well-formed or neither.\<close>

lemma same_place_map:
  assumes "tree_ok h (map f rows)" "\<And>r. r \<in> set rows \<Longrightarrow> same_place (f r) (g r)"
  shows "tree_ok h (map g rows)"
proof -
  have "map ItemID (map g rows) = map ItemID (map f rows)" using assms(2) by (simp add: same_place_def)
  then have "distinct (map ItemID (map g rows))" using assms(1) by (simp only: tree_ok_def)
  moreover have "row_ok (map g rows) (g r)" if "r \<in> set rows" for r
    using tree_okD(2) [OF assms(1), of "f r"] assms(2) that by (fastforce simp: row_ok_def same_place_def)
  moreover have "nested h (map g rows) (g r)" if "r \<in> set rows" for r
    using tree_okD(3) [OF assms(1), of "f r"] assms(2) that by (fastforce simp: nested_def same_place_def)
  ultimately show ?thesis using assms by (auto simp: tree_ok_def same_place_def)
qed

lemma same_place_tree_ok:
  assumes "tree_ok h rows" "\<And>r. r \<in> set rows \<Longrightarrow> same_place r (f r)"
  shows "tree_ok h (map f rows)"
  using same_place_map [of h id rows f] assms by simp

section \<open>Ancestors\<close>

definition parent_of :: "WorkItem list \<Rightarrow> (WorkItem \<times> WorkItem) set" where
  "parent_of rows = {(q, r). q \<in> set rows \<and> r \<in> set rows \<and> ItemID q = ParentID r}"

lemma parent_of_step:
  assumes "tree_ok h rows" "(q, r) \<in> parent_of rows"
  shows "ItemPath r = ItemPath q @ ItemID r @ [slash]" "Depth r = Depth q + 1" "fits h (Type r) (Type q)"
proof -
  have in_rows: "q \<in> set rows" "r \<in> set rows" "ItemID q = ParentID r" using assms(2) by (auto simp: parent_of_def)
  have "ParentID r \<noteq> ''''" using tree_okD(1) [OF assms(1) in_rows(1)] in_rows(3) looksLikeUUID_nonempty by auto
  with tree_okD(3) [OF assms(1) in_rows(2)] in_rows show "fits h (Type r) (Type q)" by (auto simp: nested_def)
  show "ItemPath r = ItemPath q @ ItemID r @ [slash]" "Depth r = Depth q + 1"
    using parent_cases [OF assms(1) in_rows(2)] in_rows \<open>ParentID r \<noteq> ''''\<close> tree_ok_ids [OF assms(1)]
    by (metis)+
qed

lemma ancestor_prefix:
  assumes "tree_ok h rows" "(a, r) \<in> (parent_of rows)\<^sup>*"
  shows "prefix (ItemPath a) (ItemPath r)"
  using assms(2)
proof (induction rule: rtrancl_induct)
  case (step y z)
  then show ?case using parent_of_step(1) [OF assms(1)] by (metis prefixI prefix_order.trans)
qed simp

lemma ancestor_deeper:
  assumes "tree_ok h rows" "(a, r) \<in> (parent_of rows)\<^sup>+"
  shows "Depth a < Depth r"
  using assms(2) by (induction rule: trancl_induct) (auto dest: parent_of_step(2) [OF assms(1)])

lemma prefix_ancestor:
  assumes "tree_ok h rows" "a \<in> set rows" "r \<in> set rows" "prefix (ItemPath a) (ItemPath r)"
  shows "(a, r) \<in> (parent_of rows)\<^sup>*"
  using assms(3,4)
proof (induction "length (ItemPath r)" arbitrary: r rule: less_induct)
  case less
  show ?case
  proof (cases "r = a")
    case False
    show ?thesis
    proof (cases rule: parent_cases [OF assms(1) less.prems(1)])
      case 1
      then show ?thesis using root_in_subtree [OF assms(1,2) less.prems(1) False] less.prems(2) by blast
    next
      case (2 q)
      then have "prefix (ItemPath a) (ItemPath q)"
        using child_in_subtree [OF assms(1,2) less.prems(1) 2(1) False 2(3)] less.prems(2) by simp
      with 2 less have "(a, q) \<in> (parent_of rows)\<^sup>*" "(q, r) \<in> parent_of rows"
        by (auto simp: parent_of_def)
      then show ?thesis by (rule rtrancl_into_rtrancl)
    qed
  qed simp
qed

text \<open>The levels above a row, and the room its type still needs below it, fit into its root's profile.\<close>

lemma depth_fits:
  assumes "tree_ok h rows" "r \<in> set rows" "Profile h (Type r) = Inr c"
  shows "\<exists>u w. IsRoot h u \<and> Profile h u = Inr w \<and> Depth r - 1 + MaxDepth c \<le> MaxDepth w"
  using assms(2,3)
proof (induction "length (ItemPath r)" arbitrary: r c rule: less_induct)
  case less
  show ?case
  proof (cases rule: parent_cases [OF assms(1) less.prems(1)])
    case 1
    then show ?thesis using tree_okD(3) [OF assms(1) less.prems(1)] less.prems(2) by (auto simp: nested_def)
  next
    case (2 q)
    then have "(q, r) \<in> parent_of rows" using less.prems(1) by (simp add: parent_of_def)
    from parent_of_step(3) [OF assms(1) this] less.prems(2)
    obtain w where w: "Profile h (Type q) = Inr w" "1 + MaxDepth c \<le> MaxDepth w" by (auto simp: fits_def)
    have "\<exists>u x. IsRoot h u \<and> Profile h u = Inr x \<and> Depth q - 1 + MaxDepth w \<le> MaxDepth x"
      using less.hyps [OF _ 2(1) w(1)] 2(3) by simp
    with w 2(4) show ?thesis by force
  qed
qed

end
