(* ===== verification/Placement_Laws.thy ===== *)
theory Placement_Laws
  imports Placements Tree_Laws Item_Laws
begin

text \<open>
  The laws of the stored tree: the invariant that paths, depths, types, collections, columns and labels
  agree, and that creating, moving, reordering, completing and labelling items keep it.
\<close>

section \<open>The invariant\<close>

definition same_home :: "WorkItem list \<Rightarrow> bool" where
  "same_home rows \<longleftrightarrow> (\<forall>r \<in> set rows. \<forall>q \<in> set rows. ItemID q = ParentID r \<longrightarrow> CollectionID q = CollectionID r)"

text \<open>A reference is empty, or names something the collection owns.\<close>

definition resolves :: "(ID \<times> ID) list \<Rightarrow> ID \<Rightarrow> ID \<Rightarrow> bool" where
  "resolves home c i \<longleftrightarrow> i = '''' \<or> map_of home i = Some c"

definition buckets_home :: "tree \<Rightarrow> bool" where
  "buckets_home t \<longleftrightarrow> (\<forall>r \<in> set (items t). resolves (bucketHome t) (CollectionID r) (BucketID r))"

definition labels_home :: "tree \<Rightarrow> bool" where
  "labels_home t \<longleftrightarrow> (\<forall>(i, l) \<in> set (itemLabels t).
     \<exists>r \<in> set (items t). ItemID r = i \<and> map_of (labelHome t) l = Some (CollectionID r))"

definition state_ok :: "Hierarchy \<Rightarrow> tree \<Rightarrow> bool" where
  "state_ok h t \<longleftrightarrow> tree_ok h (items t) \<and> same_home (items t) \<and> buckets_home t \<and> labels_home t"

lemma findRow_Some: "findRow rows i = Some r \<Longrightarrow> r \<in> set rows \<and> ItemID r = i"
  by (auto simp: findRow_def find_Some_iff)

lemma findRow_None: "findRow rows i = None \<longleftrightarrow> i \<notin> ItemID ` set rows"
  by (auto simp: findRow_def find_None_iff)

lemma findItem_Inr: "findItem t i = Inr r \<Longrightarrow> r \<in> set (items t) \<and> ItemID r = i"
  by (auto simp: findItem_def split: option.splits dest: findRow_Some)

lemma findParentAt_Inr: "findParentAt t path i = Inr r \<Longrightarrow> r \<in> set (items t) \<and> ItemID r = i"
  by (auto simp: findParentAt_def split: option.splits dest: findRow_Some)

lemma findCollection_Inr: "findCollection t i = Inr c \<Longrightarrow> ContID c = i"
  by (auto simp: findCollection_def findContainer_def find_Some_iff split: option.splits)

lemma findCollectionAt_Inr: "findCollectionAt t path i = Inr c \<Longrightarrow> ContID c = i"
  by (auto simp: findCollectionAt_def findContainer_def find_Some_iff split: option.splits)

lemmas finders = findItem_Inr findParentAt_Inr findCollection_Inr findCollectionAt_Inr

lemma ensureBucketOnBoard_home: "ensureBucketOnBoard g t c b = None \<Longrightarrow> resolves (bucketHome t) c b"
  by (auto simp: ensureBucketOnBoard_def resolves_def split: option.splits if_splits)

lemma resolves_moved: "resolves home c i \<Longrightarrow> \<not> foreign home d i \<Longrightarrow> resolves home d i"
  by (auto simp: resolves_def foreign_def)

lemma resolves_none [simp]: "resolves home c ''''"
  by (simp add: resolves_def)

section \<open>Creating\<close>

lemma NewWorkItem_fields:
  assumes "NewWorkItem inp = Inr i"
  shows "ItemID i = InID inp" "ParentID i = InParentID inp" "ItemPath i = InPath inp" "Depth i = InDepth inp"
    "Type i = InType inp" "CollectionID i = InCollectionID inp" "BucketID i = InBucketID inp"
  using assms by (auto simp: NewWorkItem_def go_result split: if_splits)

lemma createBuild_Inr:
  assumes "createBuild g inForce system form newID t actor cmd collectionID now = Inr item"
    and "NewHierarchy inForce system = Inr h"
  obtains parent spot where "Place h parent (Type item) = Inr spot" "\<And>p. parent = Some p \<Longrightarrow> p \<in> set (items t) \<and> CollectionID p = CollectionID item"
    "ParentID item = PlaceParentID spot" "ItemPath item = PathOf spot (ItemID item)" "Depth item = PlaceDepth spot"
    "ItemID item = newID \<and> IsZero (CreateID cmd) \<or> ItemID item = CreateID cmd \<and> \<not> IsZero (CreateID cmd)"
    "IsZero (BucketID item) \<or> ensureBucketOnBoard g t (CollectionID item) (BucketID item) = None"
proof -
  obtain collection parent profile spot profile' bucket i orderKey where
    p: "parentOf t (CreateParentID cmd) (ContID collection) = Inr parent"
    and s: "Place h parent (CreateType cmd) = Inr spot"
    and b: "bucketFor g t cmd collection spot profile' = Inr bucket"
    and i: "idFor newID cmd = Inr i"
    and n: "NewWorkItem \<lparr>InID = i, InTenantID = ActorTenantID actor, InCollectionID = ContID collection, InType = CreateType cmd,
       InParentID = PlaceParentID spot, InTitle = CreateTitle cmd, InNotes = CreateNotes cmd, InAmount = CreateAmount cmd,
       InBucketID = bucket, InContentLanguage = languageOr (CreateContentLanguage cmd) (Locale actor),
       InStartAt = CreateStartAt cmd, InCalendarUID = CreateCalendarUID cmd, InText = form, InProfile = profile',
       InPath = PathOf spot i, InDepth = PlaceDepth spot, InOrderKey = orderKey,
       InCreatedBy = ActorAccountID actor, InNow = now\<rparr> = Inr item"
    using assms unfolding createBuild_def go_result by auto
  note f = NewWorkItem_fields [OF n, simplified]
  show thesis
  proof (rule that)
    show "Place h parent (Type item) = Inr spot" using s f by simp
    show "pp \<in> set (items t) \<and> CollectionID pp = CollectionID item" if "parent = Some pp" for pp
      using p that f by (auto simp: parentOf_def go_result split: if_splits dest: findParentAt_Inr)
    show "ItemID item = newID \<and> IsZero (CreateID cmd) \<or> ItemID item = CreateID cmd \<and> \<not> IsZero (CreateID cmd)"
      using i f by (auto simp: idFor_def split: if_splits)
    show "IsZero (BucketID item) \<or> ensureBucketOnBoard g t (CollectionID item) (BucketID item) = None"
      using b f by (auto simp: bucketFor_def go_result split: if_splits)
  qed (use f in simp_all)
qed

lemma createItem_ok:
  assumes ok: "state_ok h t" and h: "NewHierarchy inForce system = Inr h"
    and create: "createItem g inForce system form newID t actor cmd now = Inr (t', item)"
    and ids: "looksLikeUUID newID" "IsZero (CreateID cmd) \<or> looksLikeUUID (CreateID cmd)"
  shows "state_ok h t'"
proof -
  obtain c where build: "createBuild g inForce system form newID t actor cmd c now = Inr item"
    and ins: "insertItem t item = Inr t'"
    using create by (auto simp: createItem_def go_result)
  from ins have t': "t' = t\<lparr>items := items t @ [item]\<rparr>" and fresh: "ItemID item \<notin> ItemID ` set (items t)"
    by (auto simp: insertItem_def findRow_None split: if_splits)
  from createBuild_Inr [OF build h] obtain parent spot where
    place: "Place h parent (Type item) = Inr spot"
    and parent: "\<And>p. parent = Some p \<Longrightarrow> p \<in> set (items t) \<and> CollectionID p = CollectionID item"
    and at: "ParentID item = PlaceParentID spot" "ItemPath item = PathOf spot (ItemID item)" "Depth item = PlaceDepth spot"
    and id: "ItemID item = newID \<and> IsZero (CreateID cmd) \<or> ItemID item = CreateID cmd \<and> \<not> IsZero (CreateID cmd)"
    and bucket: "IsZero (BucketID item) \<or> ensureBucketOnBoard g t (CollectionID item) (BucketID item) = None" by metis
  have tree: "tree_ok h (items t)" using ok by (simp add: state_ok_def)
  have uuid: "looksLikeUUID (ItemID item)" using id ids by auto
  have new: "tree_ok h (items t @ [item])"
    by (rule place_tree_ok [OF tree _ place at uuid fresh]) (use parent in blast)
  have home: "same_home (items t @ [item])"
  proof -
    have "CollectionID q = CollectionID item" if "q \<in> set (items t)" "ItemID q = ParentID item" for q
    proof (cases parent)
      case None
      then have "ParentID item = ''''" using Place_Inr [OF place] at by auto
      then show ?thesis using that tree_okD(1) [OF tree] looksLikeUUID_nonempty by force
    next
      case (Some p)
      then have "ItemID p = ParentID item" using Place_Inr [OF place] at by auto
      then show ?thesis using tree_ok_ids [OF tree, of q p] that parent [OF Some] by auto
    qed
    moreover have "ParentID r \<noteq> ItemID item" if "r \<in> set (items t)" for r
      using parent_cases [OF tree that] fresh uuid looksLikeUUID_nonempty by (metis imageI)
    ultimately show ?thesis using ok by (auto simp: state_ok_def same_home_def) metis
  qed
  show ?thesis
    using ok new home bucket ensureBucketOnBoard_home
    by (fastforce simp: t' state_ok_def buckets_home_def labels_home_def IsZero_def)
qed

section \<open>Moving\<close>

lemma destinationOf_Inr: "destinationOf t cmd source (Some p) = Inr c \<Longrightarrow> CollectionID p = ContID c"
  by (auto simp: destinationOf_def split: if_splits dest: findCollection_Inr)

lemma moveRead_Inr:
  assumes "moveRead t cmd = Inr plan"
  shows "plItem plan \<in> set (items t)" "ItemID (plItem plan) = MoveItemID cmd" "ContID (plSource plan) = CollectionID (plItem plan)"
    "plParent plan = None \<Longrightarrow> TargetParentID (plCommand plan) = ''''"
    "plParent plan = Some p \<Longrightarrow> p \<in> set (items t) \<and> ItemID p = TargetParentID (plCommand plan)
       \<and> CollectionID p = ContID (plDestination plan)"
proof -
  let ?target = "\<lambda>item. if ParentGiven cmd then TargetParentID cmd else ParentID item"
  obtain item source parent destination where
    i: "findItem t (MoveItemID cmd) = Inr item" and s: "findCollection t (CollectionID item) = Inr source"
    and p: "(if IsZero (?target item) then Inr None
       else rbind (findParentAt t ''/target_parent_id'' (?target item)) (\<lambda>found. Inr (Some found))) = Inr parent"
    and d: "destinationOf t cmd source parent = Inr destination"
    and plan: "plan = \<lparr>plItem = item, plParent = parent, plSource = source, plDestination = destination,
          plCommand = cmd\<lparr>TargetParentID := ?target item\<rparr>\<rparr>"
    using assms unfolding moveRead_def Let_def go_result by blast
  show "plItem plan \<in> set (items t)" "ItemID (plItem plan) = MoveItemID cmd" "ContID (plSource plan) = CollectionID (plItem plan)"
    using findItem_Inr [OF i] findCollection_Inr [OF s] by (simp_all add: plan)
  show "plParent plan = None \<Longrightarrow> TargetParentID (plCommand plan) = ''''"
    using p by (auto simp: plan go_result IsZero_def split: if_split_asm)
  show "p \<in> set (items t) \<and> ItemID p = TargetParentID (plCommand plan) \<and> CollectionID p = ContID (plDestination plan)"
    if "plParent plan = Some p"
    using that p d destinationOf_Inr by (auto simp: plan go_result split: if_split_asm dest!: findParentAt_Inr)
qed

lemma moveDecide_Inr:
  assumes "moveDecide g inForce system t cmd = Inr (plan, spot, orderKey)" "NewHierarchy inForce system = Inr h"
  shows "moveRead t cmd = Inr plan" "Move h (plItem plan) (plParent plan) = Inr spot"
    "ensureBucketAt g h t plan spot = None" "\<not> IsTrashed (plItem plan)" "\<not> IsArchived (plItem plan)"
    "EnsureAcceptsItems (plDestination plan) = None"
  using assms by (auto simp: moveDecide_def go_result split: if_splits)

lemma landedBucket_home:
  assumes "state_ok h t" "moveRead t cmd = Inr plan" "ensureBucketAt g h' t plan spot = None"
  shows "resolves (bucketHome t) (ContID (plDestination plan)) (landedBucket plan)"
proof -
  have old: "resolves (bucketHome t) (CollectionID (plItem plan)) (BucketID (plItem plan))"
    using assms(1) moveRead_Inr(1) [OF assms(2)] by (auto simp: state_ok_def buckets_home_def)
  show ?thesis
    using assms(3) old
    by (auto simp: landedBucket_def ensureBucketAt_def Require_andThen Let_def IsZero_def split: if_splits sum.splits dest: ensureBucketOnBoard_home)
qed

lemma moved_row_home:
  "CollectionID (moved_row m spot c k b at r) =
     (if ItemID r = ItemID m \<or> prefix (ItemPath m) (ItemPath r) then c else CollectionID r)"
  "BucketID (moved_row m spot c k b at r) = (if ItemID r = ItemID m then b else BucketID r)"
  by (simp_all add: moved_row_def SetWorkItemPlacement_def MoveWorkItemSubtree_def hasPrefix_prefix Let_def)

lemma moved_same_home:
  assumes ok: "tree_ok h rows" "same_home rows" and m: "m \<in> set rows"
    and parent: "\<And>p. parent = Some p \<Longrightarrow> p \<in> set rows \<and> CollectionID p = c"
    and move: "Move h m parent = Inr spot"
  shows "same_home (map (moved_row m spot c k b at) rows)"
proof -
  let ?f = "moved_row m spot c k b at"
  have "CollectionID (?f q) = CollectionID (?f r)"
    if r: "r \<in> set rows" and q: "q \<in> set rows" and up: "ItemID q = ParentID (?f r)" for r q
  proof (cases "r = m")
    case True
    then have "ItemID q = PlaceParentID spot" using up by (simp add: moved_row_self)
    moreover have "ItemID q \<noteq> ''''" using tree_okD(1) [OF ok(1) q] looksLikeUUID_nonempty by auto
    ultimately obtain p where p: "parent = Some p" "ItemID p = ItemID q"
      using Place_Inr [OF Move_Inr(1) [OF move]] by (cases parent) auto
    then have "q = p" using tree_ok_ids [OF ok(1)] parent q by metis
    then show ?thesis
      using Move_Inr(2) [OF move p(1)] parent [OF p(1)] True by (simp add: moved_row_home Contains_def hasPrefix_prefix)
  next
    case False
    then have other: "ItemID r \<noteq> ItemID m" using tree_ok_ids [OF ok(1) r m] by blast
    then have "ParentID (?f r) = ParentID r"
      by (cases "prefix (ItemPath m) (ItemPath r)") (simp_all add: moved_row_below moved_row_outside)
    with up have "(q, r) \<in> parent_of rows" using r q by (simp add: parent_of_def)
    then have "prefix (ItemPath m) (ItemPath r) \<longleftrightarrow> prefix (ItemPath m) (ItemPath q)"
      using child_in_subtree [OF ok(1) m r q False] parent_of_step(1) [OF ok(1)] by blast
    moreover have "CollectionID q = CollectionID r"
      using ok(2) r q up \<open>ParentID (?f r) = ParentID r\<close> by (simp add: same_home_def)
    moreover have "ItemID q = ItemID m \<Longrightarrow> prefix (ItemPath m) (ItemPath q)" using tree_ok_ids [OF ok(1) q m] by auto
    ultimately show ?thesis using other by (auto simp: moved_row_home)
  qed
  then show ?thesis by (auto simp: same_home_def)
qed

definition cleared :: "tree \<Rightarrow> string \<Rightarrow> ID \<Rightarrow> WorkItem \<Rightarrow> WorkItem" where
  "cleared t path c r = (if hasPrefix (ItemPath r) path \<and> foreign (bucketHome t) c (BucketID r) then r\<lparr>BucketID := ''''\<rparr> else r)"

lemma cleared_simps [simp]:
  "ItemID (cleared t path c r) = ItemID r" "ItemPath (cleared t path c r) = ItemPath r"
  "same_place r (cleared t path c r)" "CollectionID (cleared t path c r) = CollectionID r"
  "ParentID (cleared t path c r) = ParentID r"
  by (simp_all add: cleared_def same_place_def)

lemma clearForeignReferences_simps:
  "items (clearForeignReferences t path c) = map (cleared t path c) (items t)"
  "bucketHome (clearForeignReferences t path c) = bucketHome t" "labelHome (clearForeignReferences t path c) = labelHome t"
  "itemLabels (clearForeignReferences t path c) =
     filter (\<lambda>(i, l). \<not> (underPrefix (items t) path i \<and> foreign (labelHome t) c l)) (itemLabels t)"
  by (simp_all add: clearForeignReferences_def clearForeignBuckets_def clearForeignLabels_def cleared_def)

lemma moved_cleared_same:
  "same_place (moved_row m spot c k b at r) (moved_row m spot c k b at (cleared t path d r))"
  by (auto simp: same_place_def moved_row_def SetWorkItemPlacement_def MoveWorkItemSubtree_def Let_def cleared_def)

text \<open>What a written move does to the rows and the labels.\<close>

lemma moveWrite_Inr:
  assumes "moveWrite t (plan, spot, orderKey) now = Inr (t', after)"
  shows "if reparents plan
    then items t' = map (\<lambda>r. moved_row (plItem plan) spot (ContID (plDestination plan)) orderKey (landedBucket plan) now
             (cleared t (ItemPath (plItem plan)) (ContID (plDestination plan)) r)) (items t)
      \<and> itemLabels t' = filter (\<lambda>(i, l). \<not> (underPrefix (items t) (ItemPath (plItem plan)) i
             \<and> foreign (labelHome t) (ContID (plDestination plan)) l)) (itemLabels t)
    else items t' = map (\<lambda>r. if ItemID r = ItemID (plItem plan)
             then r\<lparr>OrderKey := orderKey, BucketID := landedBucket plan, UpdatedAt := now, Version := Version r + 1\<rparr> else r) (items t)
      \<and> itemLabels t' = itemLabels t"
    and "bucketHome t' = bucketHome t" "labelHome t' = labelHome t"
  using assms
  by (auto simp: moveWrite_def Let_def go_result afterMove_def SetOrderKey_def clearForeignReferences_simps comp_def
      dest!: writeMove_rows split: if_split_asm)

lemma reparent_ok:
  assumes ok: "state_ok h t" and read: "moveRead t cmd = Inr plan" and move: "Move h (plItem plan) (plParent plan) = Inr spot"
    and bucket: "resolves (bucketHome t) c b" and c: "c = ContID (plDestination plan)"
    and rows: "items t' = map (\<lambda>r. moved_row (plItem plan) spot c k b now (cleared t (ItemPath (plItem plan)) c r)) (items t)"
    and labels: "itemLabels t' = filter (\<lambda>(i, l). \<not> (underPrefix (items t) (ItemPath (plItem plan)) i
             \<and> foreign (labelHome t) c l)) (itemLabels t)"
    and homes: "bucketHome t' = bucketHome t" "labelHome t' = labelHome t"
  shows "state_ok h t'"
proof -
  let ?m = "plItem plan" and ?f = "moved_row (plItem plan) spot c k b now"
  let ?g = "\<lambda>r. ?f (cleared t (ItemPath ?m) c r)"
  have tree: "tree_ok h (items t)" and home: "same_home (items t)" using ok by (simp_all add: state_ok_def)
  have m: "?m \<in> set (items t)" by (rule moveRead_Inr(1) [OF read])
  note parent = moveRead_Inr(5) [OF read]
  have f_ok: "tree_ok h (map ?f (items t))"
  proof -
    have "map ItemID (map ?f (items t)) = map ItemID (items t)" by simp
    then have "distinct (map ItemID (map ?f (items t)))" using tree by (simp only: tree_ok_def)
    then show ?thesis
      using tree move_row_ok [OF tree m _ _ move] move_nested [OF tree m _ _ move] parent
      by (auto simp: tree_ok_def)
  qed
  have "tree_ok h (items t')" unfolding rows by (rule same_place_map [OF f_ok moved_cleared_same])
  moreover have "same_home (items t')"
  proof -
    have "same_home (map ?f (items t))"
      by (rule moved_same_home [OF tree home m _ move]) (use parent c in auto)
    moreover have "CollectionID (?g r) = CollectionID (?f r)" "ParentID (?g r) = ParentID (?f r)" for r
      using moved_cleared_same [of ?m spot c k b now r t] by (simp_all add: moved_row_home same_place_def)
    ultimately show ?thesis by (simp add: rows same_home_def)
  qed
  moreover have "buckets_home t'"
    using ok bucket by (auto simp: state_ok_def buckets_home_def rows homes moved_row_home cleared_def hasPrefix_prefix
        intro: resolves_moved)
  moreover have "labels_home t'"
  proof -
    have "\<exists>r \<in> set (items t'). ItemID r = i \<and> map_of (labelHome t') l = Some (CollectionID r)" if "(i, l) \<in> set (itemLabels t')" for i l
    proof -
      from that ok obtain r where r: "r \<in> set (items t)" "ItemID r = i" "map_of (labelHome t) l = Some (CollectionID r)"
        by (auto simp: labels state_ok_def labels_home_def)
      have "prefix (ItemPath ?m) (ItemPath r) \<Longrightarrow> CollectionID r = c"
        using that r by (auto simp: labels underPrefix_def list_ex_iff hasPrefix_prefix foreign_def)
      moreover have "ItemID r = ItemID ?m \<Longrightarrow> prefix (ItemPath ?m) (ItemPath r)" using tree_ok_ids [OF tree r(1) m] by auto
      ultimately show ?thesis using r by (intro bexI [of _ "?g r"]) (auto simp: rows homes moved_row_home)
    qed
    then show ?thesis by (auto simp: labels_home_def)
  qed
  ultimately show ?thesis using ok by (simp add: state_ok_def homes)
qed

text \<open>Changes of rows that keep their places and collections.\<close>

lemma in_place_ok:
  assumes ok: "state_ok h t" and rows: "items t' = map f (items t)"
    and f: "\<And>r. r \<in> set (items t) \<Longrightarrow> same_place r (f r) \<and> CollectionID (f r) = CollectionID r"
    and bucket: "\<And>r. r \<in> set (items t) \<Longrightarrow> resolves (bucketHome t) (CollectionID r) (BucketID (f r))"
    and rest: "itemLabels t' = itemLabels t" "bucketHome t' = bucketHome t" "labelHome t' = labelHome t"
  shows "state_ok h t'"
proof -
  have "tree_ok h (items t')" using ok f unfolding rows by (intro same_place_tree_ok) (auto simp: state_ok_def)
  moreover have "same_home (items t')"
    using ok f by (auto simp: rows state_ok_def same_home_def same_place_def)
  moreover have "buckets_home t'" using f bucket by (auto simp: buckets_home_def rows rest)
  moreover have "labels_home t'" using ok f by (fastforce simp: state_ok_def labels_home_def rows rest same_place_def)
  ultimately show ?thesis using ok by (simp add: state_ok_def rest)
qed

lemma movePerform_ok:
  assumes ok: "state_ok h t" and h: "NewHierarchy inForce system = Inr h"
    and move: "movePerform g inForce system t cmd now = Inr (t', after)"
  shows "state_ok h t'"
proof -
  obtain plan spot orderKey where decide: "moveDecide g inForce system t cmd = Inr (plan, spot, orderKey)"
    and stored: "moveWrite t (plan, spot, orderKey) now = Inr (t', after)"
    using move by (auto simp: movePerform_def go_result)
  note d = moveDecide_Inr [OF decide h] and w = moveWrite_Inr [OF stored]
  note bucket = landedBucket_home [OF ok d(1,3)]
  show ?thesis
  proof (cases "reparents plan")
    case True
    then show ?thesis using w by (intro reparent_ok [OF ok d(1,2) bucket refl]) auto
  next
    case False
    then have "ContID (plDestination plan) = CollectionID (plItem plan)"
      using moveRead_Inr(3) [OF d(1)] by (simp add: reparents_def)
    moreover have "r = plItem plan" if "r \<in> set (items t)" "ItemID r = ItemID (plItem plan)" for r
      using tree_ok_ids [of h "items t" r "plItem plan"] moveRead_Inr(1) [OF d(1)] that ok by (simp add: state_ok_def)
    ultimately have "resolves (bucketHome t) (CollectionID r) (BucketID (if ItemID r = ItemID (plItem plan)
        then r\<lparr>OrderKey := orderKey, BucketID := landedBucket plan, UpdatedAt := now, Version := Version r + 1\<rparr> else r))"
      if "r \<in> set (items t)" for r
      using bucket ok that by (auto simp: state_ok_def buckets_home_def)
    then show ?thesis
      using w False by (intro in_place_ok [OF ok, of t' "\<lambda>r. if ItemID r = ItemID (plItem plan)
        then r\<lparr>OrderKey := orderKey, BucketID := landedBucket plan, UpdatedAt := now, Version := Version r + 1\<rparr> else r"])
        (auto simp: same_place_def)
  qed
qed

text \<open>A whole subtree lives in one collection.\<close>

lemma subtree_home:
  assumes "tree_ok h rows" "same_home rows" "a \<in> set rows" "r \<in> set rows" "Contains a r"
  shows "CollectionID r = CollectionID a"
proof -
  have "(a, r) \<in> (parent_of rows)\<^sup>*"
    using prefix_ancestor [OF assms(1,3,4)] assms(5) by (simp add: Contains_def hasPrefix_prefix)
  then show ?thesis
    by (induction rule: rtrancl_induct) (use assms(2) in \<open>auto simp: parent_of_def same_home_def\<close>)
qed

section \<open>Completing and labelling\<close>

definition in_place :: "WorkItem list \<Rightarrow> WorkItem list \<Rightarrow> bool" where
  "in_place rows rows' \<longleftrightarrow> (\<exists>f. rows' = map f rows
     \<and> (\<forall>r. same_place r (f r) \<and> CollectionID (f r) = CollectionID r \<and> BucketID (f r) = BucketID r))"

lemma in_place_refl [simp]: "in_place rows rows"
  by (auto simp: in_place_def intro!: exI [of _ id])

lemma in_place_trans: "in_place rows rows' \<Longrightarrow> in_place rows' rows'' \<Longrightarrow> in_place rows rows''"
  unfolding in_place_def by (clarify, rule_tac x = "fa \<circ> f" in exI) (auto simp: same_place_def)

lemma writeCompletion_in_place: "writeCompletion rows wanted expected = Inr rows' \<Longrightarrow> in_place rows rows'"
  by (auto simp: writeCompletion_def in_place_def SetWorkItemCompletion_def same_place_def split: if_splits
      intro!: exI [of _ "\<lambda>row. if ItemID row = ItemID wanted then SetWorkItemCompletion row wanted else row"])

lemma rollUp_in_place:
  "rollUp fuel profileFor policy actor now rows parentID = Some (Inr rows') \<Longrightarrow> in_place rows rows'"
proof (induction fuel arbitrary: rows parentID)
  case 0
  then show ?case by (simp split: if_splits)
next
  case (Suc fuel)
  have step: "in_place rows rows'"
    if "(case writeCompletion rows wanted v of Inl e \<Rightarrow> Some (Inl e)
       | Inr rows'' \<Rightarrow> rollUp fuel profileFor policy actor now rows'' up) = Some (Inr rows')" for wanted v up
    using that by (auto split: sum.splits intro: in_place_trans [OF writeCompletion_in_place Suc.IH])
  show ?case
    using Suc.prems by (auto simp: Let_def split: if_splits option.splits ParentEffect.splits intro: step)
qed

lemma setCompletion_ok:
  assumes ok: "state_ok h t" and set: "setCompletion g fuel profileFor policy want actor i v now t = Some (Inr t')"
  shows "state_ok h t'"
proof -
  have "t' = t \<or> (\<exists>wanted expected rows up rows'. writeCompletion (items t) wanted expected = Inr rows
      \<and> rollUp fuel profileFor policy actor now rows up = Some (Inr rows') \<and> t' = t\<lparr>items := rows'\<rparr>)"
    using set unfolding setCompletion_def Let_def by (auto simp: go_result split: sum.split_asm if_split_asm) blast+
  then have "\<exists>rows'. in_place (items t) rows' \<and> t' = t\<lparr>items := rows'\<rparr>"
    using writeCompletion_in_place rollUp_in_place in_place_trans by (metis in_place_refl tree.surjective tree.update_convs(2))
  then obtain rows' where "in_place (items t) rows'" and t': "t' = t\<lparr>items := rows'\<rparr>" by blast
  then obtain f where "rows' = map f (items t)"
    "\<And>r. same_place r (f r) \<and> CollectionID (f r) = CollectionID r \<and> BucketID (f r) = BucketID r"
    unfolding in_place_def by blast
  then show ?thesis
    using ok by (intro in_place_ok [OF ok, of _ f]) (auto simp: t' state_ok_def buckets_home_def)
qed

lemma changeLabel_ok:
  assumes ok: "state_ok h t" and change: "changeLabel g planned t itemID labelID want tag = Inr (t', moved)"
  shows "state_ok h t'"
proof -
  obtain item where item: "findItem t itemID = Inr item" "ensureLabelInCollection g t item labelID = None"
    and t': "applyLabel t itemID labelID want tag = (t', moved)"
    using change by (auto simp: changeLabel_def go_result split: if_splits)
  have "map_of (labelHome t) labelID = Some (CollectionID item)"
    using item(2) by (auto simp: ensureLabelInCollection_def split: option.splits if_splits)
  then have "labels_home t'"
    using ok t' findItem_Inr [OF item(1)]
    by (auto simp: applyLabel_def addItemLabel_def removeItemLabel_def labels_home_def state_ok_def split: if_splits)
  moreover have "items t' = items t" "bucketHome t' = bucketHome t" "labelHome t' = labelHome t"
    using t' by (auto simp: applyLabel_def addItemLabel_def removeItemLabel_def split: if_splits)
  ultimately show ?thesis using ok by (simp add: state_ok_def buckets_home_def)
qed

section \<open>Reachable states\<close>

text \<open>
  The states the use cases lead to.  A workspace starts without items; identifiers are those of the generator
  or of a client, which the door has parsed; an edit is one step of an item's life, whose column the use case
  checked; and the vocabulary, the collections with the columns and labels they own, may grow and change at any
  time, but no column or label changes the collection it belongs to.  The profiles are fixed.
\<close>

inductive reachable :: "gates \<Rightarrow> CapabilityProfile list \<Rightarrow> CapabilityProfile list \<Rightarrow> normalizer \<Rightarrow> tree \<Rightarrow> bool"
  for g inForce system form where
  empty: "items t = [] \<Longrightarrow> itemLabels t = [] \<Longrightarrow> reachable g inForce system form t"
| created: "reachable g inForce system form t \<Longrightarrow> createItem g inForce system form newID t actor cmd now = Inr (t', item) \<Longrightarrow>
    looksLikeUUID newID \<Longrightarrow> IsZero (CreateID cmd) \<or> looksLikeUUID (CreateID cmd) \<Longrightarrow> reachable g inForce system form t'"
| moved: "reachable g inForce system form t \<Longrightarrow> moveItem g inForce system planned t move now = Inr (t', item) \<Longrightarrow>
    reachable g inForce system form t'"
| reordered: "reachable g inForce system form t \<Longrightarrow>
    reorderItem g inForce system planned t itemID beforeID key expected now = Inr (t', item) \<Longrightarrow> reachable g inForce system form t'"
| completed: "reachable g inForce system form t \<Longrightarrow>
    setCompletion g fuel profileFor policy want account i expected now t = Some (Inr t') \<Longrightarrow> reachable g inForce system form t'"
| labelled: "reachable g inForce system form t \<Longrightarrow> changeLabel g planned t itemID labelID want' tag = Inr (t', changed) \<Longrightarrow>
    reachable g inForce system form t'"
| edited: "reachable g inForce system form t \<Longrightarrow> findRow (items t) i = Some row \<Longrightarrow> item_step instant row row' \<Longrightarrow>
    BucketID row' = BucketID row \<or> IsZero (BucketID row') \<or> ensureBucketOnBoard g t (CollectionID row) (BucketID row') = None \<Longrightarrow>
    t' = t\<lparr>items := map (\<lambda>r. if ItemID r = i then row'\<lparr>Version := Version r + 1\<rparr> else r) (items t)\<rparr> \<Longrightarrow>
    reachable g inForce system form t'"
| vocabulary: "reachable g inForce system form t \<Longrightarrow> map_of (bucketHome t) \<subseteq>\<^sub>m map_of buckets \<Longrightarrow>
    map_of (labelHome t) \<subseteq>\<^sub>m map_of labels \<Longrightarrow>
    reachable g inForce system form (t\<lparr>collections := cs, bucketHome := buckets, labelHome := labels\<rparr>)"

lemma edited_ok:
  assumes ok: "state_ok h t" and row: "findRow (items t) i = Some row" and step: "item_step instant row row'"
    and bucket: "BucketID row' = BucketID row \<or> IsZero (BucketID row') \<or> ensureBucketOnBoard g t (CollectionID row) (BucketID row') = None"
  shows "state_ok h (t\<lparr>items := map (\<lambda>r. if ItemID r = i then row'\<lparr>Version := Version r + 1\<rparr> else r) (items t)\<rparr>)"
proof -
  have in_rows: "row \<in> set (items t)" "ItemID row = i" using findRow_Some [OF row] by auto
  have same: "ItemID row' = ItemID row" "ParentID row' = ParentID row" "ItemPath row' = ItemPath row" "Depth row' = Depth row"
    "Type row' = Type row" "CollectionID row' = CollectionID row"
    using item_step_identity [OF step] by (simp_all add: identity_of_def)
  have only: "r = row" if "r \<in> set (items t)" "ItemID r = i" for r
    using tree_ok_ids [of h "items t" r row] ok that in_rows by (simp add: state_ok_def)
  have "resolves (bucketHome t) (CollectionID row) (BucketID row')"
    using bucket ok in_rows ensureBucketOnBoard_home by (auto simp: state_ok_def buckets_home_def IsZero_def)
  then show ?thesis
    using ok only same
    by (intro in_place_ok [OF ok, of _ "\<lambda>r. if ItemID r = i then row'\<lparr>Version := Version r + 1\<rparr> else r"])
       (auto simp: same_place_def state_ok_def buckets_home_def)
qed

lemma vocabulary_ok:
  assumes "state_ok h t" "map_of (bucketHome t) \<subseteq>\<^sub>m map_of buckets" "map_of (labelHome t) \<subseteq>\<^sub>m map_of labels"
  shows "state_ok h (t\<lparr>collections := cs, bucketHome := buckets, labelHome := labels\<rparr>)"
proof -
  have b: "map_of buckets i = Some c" if "map_of (bucketHome t) i = Some c" for i c
    using that assms(2) by (metis domI map_le_def)
  have l: "map_of labels i = Some c" if "map_of (labelHome t) i = Some c" for i c
    using that assms(3) by (metis domI map_le_def)
  have "buckets_home (t\<lparr>collections := cs, bucketHome := buckets, labelHome := labels\<rparr>)"
    using assms(1) b by (auto simp: state_ok_def buckets_home_def resolves_def)
  moreover have "labels_home (t\<lparr>collections := cs, bucketHome := buckets, labelHome := labels\<rparr>)"
    using assms(1) l by (fastforce simp: state_ok_def labels_home_def)
  ultimately show ?thesis using assms(1) by (simp add: state_ok_def)
qed

lemma reachable_state_ok:
  assumes "reachable g inForce system form t" "NewHierarchy inForce system = Inr h"
  shows "state_ok h t"
  using assms(1)
proof (induction rule: reachable.induct)
  case (empty t)
  then show ?case by (simp add: state_ok_def tree_ok_def same_home_def buckets_home_def labels_home_def)
next
  case created
  then show ?case using createItem_ok [OF _ assms(2)] by blast
next
  case moved
  then show ?case using movePerform_ok [OF _ assms(2)] by (auto simp: moveItem_def go_result split: if_split_asm)
next
  case reordered
  then show ?case using movePerform_ok [OF _ assms(2)] by (auto simp: reorderItem_def go_result split: if_split_asm)
next
  case completed
  then show ?case using setCompletion_ok by blast
next
  case labelled
  then show ?case using changeLabel_ok by blast
next
  case edited
  then show ?case using edited_ok by blast
next
  case vocabulary
  then show ?case using vocabulary_ok by blast
qed

end
