(* ===== verification/Completion_Laws.thy ===== *)
theory Completion_Laws
  imports Placement_Laws
begin

text \<open>
  The roll-up of a completion over the parents of an item: it always ends, never conflicts with itself, and
  leaves every parent in the state its children imply.
\<close>

section \<open>Settled parents\<close>

definition settled :: "CompletionPolicy \<Rightarrow> WorkItem list \<Rightarrow> WorkItem \<Rightarrow> bool" where
  "settled policy rows p \<longleftrightarrow> RollUp policy (ItemCompletion p) (ChildCompletionOf rows (ItemID p)) = ParentUnchanged"

lemma ChildCompletionOf_map:
  assumes "\<And>r. r \<in> set rows \<Longrightarrow> ParentID (f r) = ParentID r \<and> DeletedAt (f r) = DeletedAt r"
    and "\<And>r. r \<in> set rows \<Longrightarrow> ParentID r = q \<Longrightarrow> f r = r"
  shows "ChildCompletionOf (map f rows) q = ChildCompletionOf rows q"
proof -
  have "filter (\<lambda>r. ParentID r = q \<and> \<not> IsTrashed r) (map f rows) = filter (\<lambda>r. ParentID r = q \<and> \<not> IsTrashed r) rows"
    using assms by (induction rows) (auto simp: IsTrashed_def)
  then show ?thesis by (simp add: ChildCompletionOf_def)
qed

lemma RollUp_settles:
  "RollUp policy c n = ParentComplete \<Longrightarrow> IsCompleted d \<Longrightarrow> CompletedChildren n \<le> Total n \<Longrightarrow> RollUp policy d n = ParentUnchanged"
  "RollUp policy c n = ParentReopen \<Longrightarrow> \<not> IsCompleted d \<Longrightarrow> RollUp policy d n = ParentUnchanged"
  by (auto simp: RollUp_def AllCompleted_def AnyOpen_def split: if_splits)

lemma written_row:
  assumes "tree_ok h rows" "p \<in> set rows" "ItemID wanted = ItemID p"
  shows "writeCompletion rows wanted (Version p) =
    Inr (map (\<lambda>row. if ItemID row = ItemID p then SetWorkItemCompletion row wanted else row) rows)"
  using assms by (auto simp: writeCompletion_def list_ex_iff)

lemma findRow_unique: "tree_ok h rows \<Longrightarrow> p \<in> set rows \<Longrightarrow> findRow rows (ItemID p) = Some p"
  using tree_ok_ids [of h rows] findRow_Some findRow_None by (metis imageI option.exhaust)

text \<open>One level: the parent's row is written, and only the level above can be left unsettled.\<close>

lemma settle_level:
  assumes ok: "tree_ok h rows" and p: "p \<in> set rows"
    and others: "\<forall>r \<in> set rows. r \<noteq> p \<longrightarrow> settled policy rows r"
    and wanted: "ItemID wanted = ItemID p" "RollUp policy (ItemCompletion wanted) (ChildCompletionOf rows (ItemID p)) = ParentUnchanged"
    and rows': "rows' = map (\<lambda>row. if ItemID row = ItemID p then SetWorkItemCompletion row wanted else row) rows"
  shows "tree_ok h rows'" and "\<And>r. r \<in> set rows' \<Longrightarrow> ItemID r \<noteq> ParentID p \<Longrightarrow> settled policy rows' r"
proof -
  let ?f = "\<lambda>row. if ItemID row = ItemID p then SetWorkItemCompletion row wanted else row"
  show "tree_ok h rows'"
    unfolding rows' by (rule same_place_tree_ok [OF ok]) (simp add: same_place_def SetWorkItemCompletion_def)
  show "settled policy rows' r" if r: "r \<in> set rows'" "ItemID r \<noteq> ParentID p" for r
  proof -
    obtain s where s: "s \<in> set rows" "r = ?f s" using r(1) by (auto simp: rows')
    have "x = p" if "x \<in> set rows" "ItemID x = ItemID p" for x using tree_ok_ids [OF ok that(1) p that(2)] .
    then have "ItemID x \<noteq> ItemID p" if "x \<in> set rows" "ParentID x = ItemID r" for x using r(2) that by metis
    then have same: "ChildCompletionOf rows' (ItemID r) = ChildCompletionOf rows (ItemID r)"
      unfolding rows' by (intro ChildCompletionOf_map) (auto simp: SetWorkItemCompletion_def)
    show ?thesis
    proof (cases "ItemID s = ItemID p")
      case True
      then show ?thesis using s wanted same by (simp add: settled_def SetWorkItemCompletion_def)
    next
      case False
      then have "settled policy rows s" using others s(1) by auto
      with False s same show ?thesis by (simp add: settled_def)
    qed
  qed
qed

lemma ChildCompletionOf_le: "CompletedChildren (ChildCompletionOf rows q) \<le> Total (ChildCompletionOf rows q)"
  by (simp add: ChildCompletionOf_def Let_def del: filter_filter)

lemma completable_kept:
  assumes "\<And>r w. profileFor (SetWorkItemCompletion r w) = profileFor r"
  shows "completable profileFor (SetWorkItemCompletion r w) = None \<longleftrightarrow> completable profileFor r = None"
  using assms by (simp add: completable_def EnsureCompletable_def Require_andThen EnsureEditable_None IsTrashed_def IsArchived_def
      SetWorkItemCompletion_def split: sum.splits)

section \<open>The walk\<close>

lemma rollUp_settles:
  assumes profiles: "\<And>r w. profileFor (SetWorkItemCompletion r w) = profileFor r"
  shows "tree_ok h rows \<Longrightarrow> (\<And>r. r \<in> set rows \<Longrightarrow> completable profileFor r = None) \<Longrightarrow>
    (\<And>r. r \<in> set rows \<Longrightarrow> ItemID r \<noteq> parentID \<Longrightarrow> settled policy rows r) \<Longrightarrow>
    parentID = '''' \<or> (\<exists>p \<in> set rows. ItemID p = parentID \<and> Depth p \<le> int fuel) \<Longrightarrow>
    \<exists>rows'. rollUp fuel profileFor policy actor now rows parentID = Some (Inr rows') \<and> (\<forall>r \<in> set rows'. settled policy rows' r)"
proof (induction fuel arbitrary: rows parentID)
  case 0
  have "Depth p \<ge> 1" if "p \<in> set rows" for p using row_ids [OF 0(1) that] by auto
  with 0 have "parentID = ''''" by fastforce
  moreover have "ItemID r \<noteq> ''''" if "r \<in> set rows" for r using tree_okD(1) [OF 0(1) that] looksLikeUUID_nonempty by auto
  ultimately show ?case using 0(3) by (auto simp: IsZero_def)
next
  case (Suc fuel)
  note ok = Suc.prems(1)
  have ids: "ItemID r \<noteq> ''''" if "r \<in> set rows" for r using tree_okD(1) [OF ok that] looksLikeUUID_nonempty by auto
  show ?case
  proof (cases "parentID = ''''")
    case True
    then show ?thesis using Suc.prems(3) ids by (auto simp: IsZero_def)
  next
    case False
    then obtain p where p: "p \<in> set rows" "ItemID p = parentID" "Depth p \<le> int (Suc fuel)" using Suc.prems(4) by auto
    have found: "findRow rows parentID = Some p" using findRow_unique [OF ok p(1)] p(2) by simp
    have others: "\<forall>r \<in> set rows. r \<noteq> p \<longrightarrow> settled policy rows r"
      using Suc.prems(3) tree_ok_ids [OF ok _ p(1)] p(2) by blast
    have up: "\<exists>rows''. rollUp fuel profileFor policy actor now rows' (ParentID p) = Some (Inr rows'') \<and> (\<forall>r \<in> set rows''. settled policy rows'' r)"
      if w: "ItemID wanted = ItemID p" "RollUp policy (ItemCompletion wanted) (ChildCompletionOf rows (ItemID p)) = ParentUnchanged"
        and rows': "rows' = map (\<lambda>row. if ItemID row = ItemID p then SetWorkItemCompletion row wanted else row) rows"
      for wanted rows'
    proof (rule Suc.IH)
      note level = settle_level [OF ok p(1) others w rows']
      show "tree_ok h rows'" by (rule level(1))
      show "completable profileFor r = None" if "r \<in> set rows'" for r
        using that Suc.prems(2) completable_kept [OF profiles] by (auto simp: rows')
      show "settled policy rows' r" if "r \<in> set rows'" "ItemID r \<noteq> ParentID p" for r by (rule level(2) [OF that])
      show "ParentID p = '''' \<or> (\<exists>q \<in> set rows'. ItemID q = ParentID p \<and> Depth q \<le> int fuel)"
      proof (cases rule: parent_cases [OF ok p(1)])
        case (2 q)
        have "q \<noteq> p" using 2(4) by auto
        then have "ItemID q \<noteq> ItemID p" using tree_ok_ids [OF ok 2(1) p(1)] by blast
        then have "q \<in> set rows'" using 2(1) by (force simp: rows')
        then show ?thesis using 2 p(3) by auto
      qed simp
    qed
    show ?thesis
    proof (cases "RollUp policy (ItemCompletion p) (ChildCompletionOf rows parentID)")
      case ParentUnchanged
      then have "settled policy rows r" if "r \<in> set rows" for r using others that p(2) by (auto simp: settled_def)
      then show ?thesis using False found ParentUnchanged Suc.prems(2) [OF p(1)] by (simp add: IsZero_def)
    next
      case ParentComplete
      have "RollUp policy (ItemCompletion (Completed p actor now)) (ChildCompletionOf rows (ItemID p)) = ParentUnchanged"
        using RollUp_settles(1) [OF ParentComplete _ ChildCompletionOf_le] p(2) by (simp add: Completed_def)
      from up [OF _ this refl] show ?thesis
        using False found ParentComplete Suc.prems(2) [OF p(1)] written_row [OF ok p(1), of "Completed p actor now"] p(2)
        by (simp add: IsZero_def Completed_def)
    next
      case ParentReopen
      have "RollUp policy (ItemCompletion (Reopened p now)) (ChildCompletionOf rows (ItemID p)) = ParentUnchanged"
        using RollUp_settles(2) [OF ParentReopen] p(2) by (simp add: Reopened_def noCompletion_def)
      from up [OF _ this refl] show ?thesis
        using False found ParentReopen Suc.prems(2) [OF p(1)] written_row [OF ok p(1), of "Reopened p now"] p(2)
        by (simp add: IsZero_def Reopened_def)
    qed
  qed
qed

text \<open>The walk only touches rows above: a row at least as deep as its start is never written.\<close>

lemma rollUp_keeps_below:
  "tree_ok h rows \<Longrightarrow> rollUp fuel profileFor policy actor now rows parentID = Some (Inr rows') \<Longrightarrow>
   (\<And>p. p \<in> set rows \<Longrightarrow> ItemID p = parentID \<Longrightarrow> Depth p < d) \<Longrightarrow> r \<in> set rows \<Longrightarrow> d \<le> Depth r \<Longrightarrow> r \<in> set rows'"
proof (induction fuel arbitrary: rows parentID)
  case 0
  then show ?case by (simp split: if_split_asm)
next
  case (Suc fuel)
  note ok = Suc.prems(1)
  have step: "r \<in> set rows'"
    if p: "findRow rows parentID = Some p"
      and run: "(case writeCompletion rows wanted (Version p) of Inl e \<Rightarrow> Some (Inl e)
        | Inr rows'' \<Rightarrow> rollUp fuel profileFor policy actor now rows'' (ParentID p)) = Some (Inr rows')"
      and w: "ItemID wanted = ItemID p" for p wanted
  proof -
    have in_rows: "p \<in> set rows" "ItemID p = parentID" using findRow_Some [OF p] by auto
    let ?rows = "map (\<lambda>row. if ItemID row = ItemID p then SetWorkItemCompletion row wanted else row) rows"
    have run': "rollUp fuel profileFor policy actor now ?rows (ParentID p) = Some (Inr rows')"
      using run written_row [OF ok in_rows(1) w] by simp
    have ok': "tree_ok h ?rows"
      by (rule same_place_tree_ok [OF ok]) (simp add: same_place_def SetWorkItemCompletion_def)
    have "Depth p < d" using Suc.prems(3) in_rows by blast
    then have "ItemID r \<noteq> ItemID p" using tree_ok_ids [OF ok Suc.prems(4) in_rows(1)] Suc.prems(5) by auto
    then have r: "r \<in> set ?rows" using Suc.prems(4) by force
    have above: "Depth q < d" if q: "q \<in> set ?rows" "ItemID q = ParentID p" for q
    proof -
      obtain s where s: "s \<in> set rows" "ItemID s = ParentID p" "Depth q = Depth s"
        using q by (auto simp: SetWorkItemCompletion_def split: if_splits)
      then have "(s, p) \<in> parent_of rows" using in_rows by (simp add: parent_of_def)
      from parent_of_step(2) [OF ok this] \<open>Depth p < d\<close> s(3) show ?thesis by simp
    qed
    show ?thesis by (rule Suc.IH [OF ok' run' above r Suc.prems(5)])
  qed
  show ?case
    using Suc.prems(2,4) step
    by (auto simp: Let_def Completed_def Reopened_def split: if_split_asm option.split_asm ParentEffect.split_asm)
qed

text \<open>An item without children is settled in either state.\<close>

lemma childless_settled: "Total (ChildCompletionOf rows q) = 0 \<Longrightarrow> RollUp policy c (ChildCompletionOf rows q) = ParentUnchanged"
  using ChildCompletionOf_le [of rows q] by (auto simp: RollUp_def AllCompleted_def AnyOpen_def ChildCompletionOf_def Let_def)

text \<open>A written completion of a childless item, and the walk after it.\<close>

lemma written_settles:
  assumes ok: "tree_ok h rows" and item: "item \<in> set rows" "Total (ChildCompletionOf rows (ItemID item)) = 0"
    and completable: "\<forall>r \<in> set rows. completable profileFor r = None"
    and profiles: "\<And>r w. profileFor (SetWorkItemCompletion r w) = profileFor r"
    and settled: "\<forall>r \<in> set rows. settled policy rows r" and fuel: "\<forall>r \<in> set rows. Depth r \<le> int fuel"
    and wanted: "ItemID wanted = ItemID item"
  shows "\<exists>rows1 rows2. writeCompletion rows wanted (Version item) = Inr rows1
    \<and> rollUp fuel profileFor policy actor now rows1 (ParentID item) = Some (Inr rows2)
    \<and> (\<forall>r \<in> set rows2. settled policy rows2 r) \<and> SetWorkItemCompletion item wanted \<in> set rows2"
proof -
  let ?f = "\<lambda>row. if ItemID row = ItemID item then SetWorkItemCompletion row wanted else row"
  let ?rows = "map ?f rows"
  have others: "\<forall>r \<in> set rows. r \<noteq> item \<longrightarrow> settled policy rows r" using settled by blast
  note level = settle_level [OF ok item(1) others wanted childless_settled [OF item(2)] refl]
  have place: "same_place r (?f r)" for r by (simp add: same_place_def SetWorkItemCompletion_def)
  have up: "ParentID item = '''' \<or> (\<exists>q \<in> set ?rows. ItemID q = ParentID item \<and> Depth q \<le> int fuel)"
  proof (cases rule: parent_cases [OF ok item(1)])
    case (2 q)
    have "?f q \<in> set ?rows" using 2(1) by simp
    moreover have "ItemID (?f q) = ParentID item" "Depth (?f q) \<le> int fuel"
      using place [of q] 2 fuel unfolding same_place_def by auto
    ultimately show ?thesis by blast
  qed simp
  have "completable profileFor r = None" if "r \<in> set ?rows" for r
    using that completable completable_kept [OF profiles] by auto
  then obtain rows2 where run: "rollUp fuel profileFor policy actor now ?rows (ParentID item) = Some (Inr rows2)"
    and settled2: "\<forall>r \<in> set rows2. settled policy rows2 r"
    using rollUp_settles [where rows = ?rows and profileFor = profileFor and policy = policy and fuel = fuel,
        OF profiles level(1) _ level(2) up] by blast
  have above: "Depth p < Depth item" if "p \<in> set ?rows" "ItemID p = ParentID item" for p
  proof -
    obtain s where s: "s \<in> set rows" "p = ?f s" using \<open>p \<in> set ?rows\<close> by auto
    then have "(s, item) \<in> parent_of rows" "Depth p = Depth s"
      using \<open>ItemID p = ParentID item\<close> item(1) place [of s] unfolding same_place_def parent_of_def by auto
    then show ?thesis using parent_of_step(2) [OF ok] by simp
  qed
  have stored: "SetWorkItemCompletion item wanted \<in> set ?rows" using item(1) by force
  have "Depth item \<le> Depth (SetWorkItemCompletion item wanted)" by (simp add: SetWorkItemCompletion_def)
  with stored have "SetWorkItemCompletion item wanted \<in> set rows2"
    by (intro rollUp_keeps_below [OF level(1) run, where d = "Depth item"] above) assumption+
  then show ?thesis using written_row [OF ok item(1) wanted] run settled2 by blast
qed

end
