(* ===== verification/Workspace_Example.thy ===== *)
theory Workspace_Example
  imports Placements
begin

text \<open>
  A small workspace, built by the use cases themselves: two collections, the profiles of the three levels, and
  gates that refuse nothing.  The properties of the tree of items are applied to it.
\<close>

definition levelProfile :: "ItemType \<Rightarrow> ItemType list \<Rightarrow> int \<Rightarrow> CapabilityProfile" where
  "levelProfile t children depth = \<lparr>ProfileType = t, Capabilities = [CapabilityCompletion, CapabilityLabels],
     AllowedChildTypes = children, MaxDepth = depth, Hidden = []\<rparr>"

definition levelProfiles :: "CapabilityProfile list" where
  "levelProfiles = [levelProfile ItemTask [ItemWorkPackage] 3, levelProfile ItemWorkPackage [ItemActivity] 2,
     levelProfile ItemActivity [] 1]"

definition openGates :: gates where
  "openGates = \<lparr>authorize = (\<lambda>_ _. None), requireLevel = (\<lambda>_ _ _ _. None), narrow = (\<lambda>_ _ p. p), admitsUnder = (\<lambda>_ _. None),
     keepsType = (\<lambda>_ _ _. None), bucketEditable = (\<lambda>_. None), mayEnter = (\<lambda>_ _ _. None), chooseEntryType = (\<lambda>_ _ p. Inr p),
     amountOffered = (\<lambda>_ _. None), landingColumn = (\<lambda>_. Inr ''''), requireShown = (\<lambda>_ _. None),
     assignmentAllowed = (\<lambda>_. None), itemsQuota = None,
     gatedProfileFor = (\<lambda>_. Inr (levelProfile ItemTask [ItemWorkPackage] 3)), labelEditable = (\<lambda>_. None)\<rparr>"

definition uid :: "char \<Rightarrow> ID" where
  "uid c = ''00000000-0000-7000-8000-00000000000'' @ [c]"

definition someCollection :: "ID \<Rightarrow> Container" where
  "someCollection i = \<lparr>ContID = i, ContTenantID = uid (CHR ''0''), ContType = ContainerCollection, ContParentID = uid (CHR ''f''),
     ContName = ''Work'', ContDescription = '''', ContIcon = '''', ContColorToken = '''', ContOrderKey = ''a0'',
     ContArchivedAt = None, ContDeletedAt = None, ContDeletedBy = nobody, ParentArchivedAt = None, ContTrashBatchID = '''',
     ContCreatedBy = uid (CHR ''9''), ContCreatedAt = 1, ContUpdatedAt = 1, ContVersion = 1, Private = False, Handle = '''',
     KeyPrefix = ''''\<rparr>"

definition firstTree :: tree where
  "firstTree = \<lparr>collections = [someCollection (uid (CHR ''c'')), someCollection (uid (CHR ''d''))], items = [], bucketHome = [],
     labelHome = [(uid (CHR ''b''), uid (CHR ''c''))], itemLabels = [], labelTags = []\<rparr>"

definition someActor :: Actor where
  "someActor = \<lparr>ActorTenantID = uid (CHR ''0''), ActorAccountID = uid (CHR ''9''), Locale = ''en''\<rparr>"

definition creating :: "ItemType \<Rightarrow> ID \<Rightarrow> string \<Rightarrow> CreateWorkItemCommand" where
  "creating itemType parent title = \<lparr>CreateID = '''', CreateType = itemType, CreateCollectionID = (if parent = '''' then uid (CHR ''c'') else ''''),
     CreateParentID = parent, CreateTitle = title, CreateNotes = '''', CreateAmount = '''', CreateBucketID = '''',
     CreateContentLanguage = '''', CreateStartAt = None, CreateCalendarUID = '''', CreateBeforeItemID = ''''\<rparr>"

definition someItem :: "char \<Rightarrow> ItemType \<Rightarrow> ID \<Rightarrow> string \<Rightarrow> int \<Rightarrow> string \<Rightarrow> WorkItem" where
  "someItem c itemType parent path depth key = \<lparr>ItemID = uid c, TenantID = uid (CHR ''0''), CollectionID = uid (CHR ''c''), Type = itemType,
     ParentID = parent, ItemPath = path @ uid c @ ''/'', Depth = depth, Title = ''x'', Amount = '''', Notes = '''', ItemCompletion = noCompletion,
     CompletionCount = 0, StartAt = None, Due = None, BucketID = '''', OrderKey = key, AssigneeID = '''', ItemCover = None, CustomFields = [],
     ContentLanguage = ''en'', CalendarUID = '''', ArchivedAt = None, DeletedAt = None, DeletedBy = nobody, TrashBatchID = '''',
     CreatedBy = uid (CHR ''9''), CreatedAt = 5, UpdatedAt = 5, Version = 1\<rparr>"

definition reading :: "time \<Rightarrow> HLC" where
  "reading at = \<lparr>Physical = at, Counter = 0, Device = ''server''\<rparr>"

text \<open>Two tasks; two packages below the first, and an activity below the second of them.\<close>

definition task1 :: WorkItem where "task1 = someItem (CHR ''1'') ItemTask '''' ''/'' 1 ''a0''"
definition task2 :: WorkItem where "task2 = someItem (CHR ''2'') ItemTask '''' ''/'' 1 ''a1''"
definition package1 :: WorkItem where
  "package1 = someItem (CHR ''3'') ItemWorkPackage (ItemID task1) (ItemPath task1) 2 ''a0''"
definition package2 :: WorkItem where
  "package2 = someItem (CHR ''4'') ItemWorkPackage (ItemID task1) (ItemPath task1) 2 ''a1''"
definition activity :: WorkItem where
  "activity = someItem (CHR ''5'') ItemActivity (ItemID package2) (ItemPath package2) 3 ''a0''"

definition treeOf :: "WorkItem list \<Rightarrow> tree" where
  "treeOf rows = firstTree\<lparr>items := rows\<rparr>"

lemma create_task1:
  "createItem openGates levelProfiles levelProfiles None (ItemID task1) (treeOf []) someActor (creating ItemTask '''' ''x'') 5
     = Inr (treeOf [task1], task1)"
  by code_simp

lemma create_task2:
  "createItem openGates levelProfiles levelProfiles None (ItemID task2) (treeOf [task1]) someActor (creating ItemTask '''' ''x'') 5
     = Inr (treeOf [task1, task2], task2)"
  by code_simp

lemma create_package1:
  "createItem openGates levelProfiles levelProfiles None (ItemID package1) (treeOf [task1, task2]) someActor
     (creating ItemWorkPackage (ItemID task1) ''x'') 5 = Inr (treeOf [task1, task2, package1], package1)"
  by code_simp

lemma create_package2:
  "createItem openGates levelProfiles levelProfiles None (ItemID package2) (treeOf [task1, task2, package1]) someActor
     (creating ItemWorkPackage (ItemID task1) ''x'') 5 = Inr (treeOf [task1, task2, package1, package2], package2)"
  by code_simp

lemma create_activity:
  "createItem openGates levelProfiles levelProfiles None (ItemID activity) (treeOf [task1, task2, package1, package2]) someActor
     (creating ItemActivity (ItemID package2) ''x'') 5 = Inr (treeOf [task1, task2, package1, package2, activity], activity)"
  by code_simp

end
