(* ===== verification/Placement_Properties.thy ===== *)
theory Placement_Properties
  imports Completion_Laws Workspace_Example
begin

text \<open>
  What the use cases over the tree of items guarantee together, applied to the example workspace, and two
  places where they do not: a move decided on a tree that another move changed in between, and a label changed
  inside an archived collection.
\<close>

section \<open>The example is reachable\<close>

definition sampleTree :: tree where
  "sampleTree = treeOf [task1, task2, package1, package2, activity]"

definition sampleHierarchy :: Hierarchy where
  "sampleHierarchy = \<lparr>profiles = [(ItemActivity, levelProfile ItemActivity [] 1),
     (ItemWorkPackage, levelProfile ItemWorkPackage [ItemActivity] 2), (ItemTask, levelProfile ItemTask [ItemWorkPackage] 3)],
     roots = [ItemTask]\<rparr>"

lemma sample_hierarchy: "NewHierarchy levelProfiles levelProfiles = Inr sampleHierarchy"
  by code_simp

abbreviation reached :: "tree \<Rightarrow> bool" where
  "reached \<equiv> reachable openGates levelProfiles levelProfiles None"

lemma sample_ids:
  "looksLikeUUID (ItemID task1)" "looksLikeUUID (ItemID task2)" "looksLikeUUID (ItemID package1)"
  "looksLikeUUID (ItemID package2)" "looksLikeUUID (ItemID activity)"
  by code_simp+

lemma reached_created:
  assumes "reached t" "createItem openGates levelProfiles levelProfiles None newID t someActor (creating itemType parent title) 5 = Inr (t', item)"
    and "looksLikeUUID newID"
  shows "reached t'"
  by (rule reachable.created [OF assms]) (simp add: creating_def IsZero_def)

lemma sample_reached: "reached sampleTree"
proof -
  have "reached (treeOf [])" by (rule reachable.empty) (simp_all add: treeOf_def firstTree_def)
  note this [THEN reached_created, OF create_task1 sample_ids(1)]
  note this [THEN reached_created, OF create_task2 sample_ids(2)]
  note this [THEN reached_created, OF create_package1 sample_ids(3)]
  note this [THEN reached_created, OF create_package2 sample_ids(4)]
  note this [THEN reached_created, OF create_activity sample_ids(5)]
  then show ?thesis by (simp add: sampleTree_def)
qed

lemma sample_rows: "items sampleTree = [task1, task2, package1, package2, activity]"
  by (simp add: sampleTree_def treeOf_def)

section \<open>The tree\<close>

text \<open>
  C32.  However items are created, moved, reordered, completed, labelled and edited, the stored tree stays
  consistent: every item's path and depth continue those of its parent, it sits where its type may sit, it lives
  in the collection of its parent, and its column and its labels belong to that collection.
\<close>

theorem reachable_ok:
  assumes "reachable g inForce system form t" "NewHierarchy inForce system = Inr h"
  shows "tree_ok h (items t) \<and> same_home (items t) \<and> buckets_home t \<and> labels_home t"
  using reachable_state_ok [OF assms] by (simp add: state_ok_def)

theorem reachable_ok_witness: "tree_ok sampleHierarchy (items sampleTree) \<and> same_home (items sampleTree)"
  using reachable_ok [OF sample_reached sample_hierarchy] by blast

text \<open>
  C33.  In every reachable tree the prefix test on paths is exactly the test for an ancestor: an item contains
  another when a chain of parents leads from the one to the other, nothing is its own ancestor, the
  path spells the chain, and every row passes the check that its creation made.
\<close>

theorem path_is_ancestry:
  assumes "reachable g inForce system form t" "NewHierarchy inForce system = Inr h" "a \<in> set (items t)" "r \<in> set (items t)"
  shows "(Contains a r \<longleftrightarrow> (a, r) \<in> (parent_of (items t))\<^sup>*) \<and> (r, r) \<notin> (parent_of (items t))\<^sup>+
    \<and> checkPlacement (ItemID r) (ParentID r) (ItemPath r) (Depth r) = None
    \<and> last (PathIDs (ItemPath r)) = ItemID r \<and> int (length (PathIDs (ItemPath r))) = Depth r"
proof -
  have ok: "tree_ok h (items t)" using reachable_state_ok [OF assms(1,2)] by (simp add: state_ok_def)
  have "Contains a r \<longleftrightarrow> (a, r) \<in> (parent_of (items t))\<^sup>*"
    using prefix_ancestor [OF ok assms(3,4)] ancestor_prefix [OF ok] by (auto simp: Contains_def hasPrefix_prefix)
  moreover have "(r, r) \<notin> (parent_of (items t))\<^sup>+" using ancestor_deeper [OF ok] by blast
  moreover obtain segs where "ItemPath r = path_of (segs @ [ItemID r])" "list_all looksLikeUUID (segs @ [ItemID r])"
    "Depth r = int (length segs) + 1" using row_ids [OF ok assms(4)] by blast
  ultimately show ?thesis using row_placement(1) [OF ok assms(4)] PathIDs_path by simp
qed

theorem path_is_ancestry_witness: "(activity, activity) \<notin> (parent_of (items sampleTree))\<^sup>+"
  using path_is_ancestry [OF sample_reached sample_hierarchy, of activity activity] by (simp add: sample_rows)

text \<open>
  C34.  No reachable tree is deeper than the profiles allow: an item sits so high that its type's own depth
  still fits below it inside the depth of some root type, and so never deeper than that root allows.
\<close>

theorem depth_bounded:
  assumes "reachable g inForce system form t" "NewHierarchy inForce system = Inr h" "r \<in> set (items t)"
  shows "\<exists>c u w. Profile h (Type r) = Inr c \<and> IsRoot h u \<and> Profile h u = Inr w \<and> 1 \<le> Depth r
    \<and> Depth r - 1 + MaxDepth c \<le> MaxDepth w \<and> Depth r \<le> MaxDepth w"
proof -
  have ok: "tree_ok h (items t)" using reachable_state_ok [OF assms(1,2)] by (simp add: state_ok_def)
  obtain c where c: "Profile h (Type r) = Inr c" "1 \<le> MaxDepth c" using tree_okD(3) [OF ok assms(3)] by (auto simp: nested_def)
  obtain u w where "IsRoot h u" "Profile h u = Inr w" "Depth r - 1 + MaxDepth c \<le> MaxDepth w"
    using depth_fits [OF ok assms(3) c(1)] by blast
  moreover have "1 \<le> Depth r" using row_ids [OF ok assms(3)] by auto
  ultimately show ?thesis using c by fastforce
qed

theorem depth_bounded_witness: "\<exists>u w. IsRoot sampleHierarchy u \<and> Profile sampleHierarchy u = Inr w \<and> Depth activity \<le> MaxDepth w"
  using depth_bounded [OF sample_reached sample_hierarchy, of activity] by (auto simp: sample_rows)

section \<open>What a move changes\<close>

lemma moveWrite_version:
  assumes ok: "state_ok h t" and m: "plItem plan \<in> set (items t)"
    and stored: "moveWrite t (plan, spot, orderKey) now = Inr (t', after)"
  shows "after = (afterMove plan spot orderKey now)\<lparr>Version := Version (plItem plan) + 1\<rparr>"
proof -
  let ?e = "if ExpectedVersion (plCommand plan) = 0 then Version (plItem plan) else ExpectedVersion (plCommand plan)"
  have only: "r = plItem plan" if "r \<in> set (items t)" "ItemID r = ItemID (plItem plan)" for r
    using tree_ok_ids [of h "items t" r "plItem plan"] ok that m by (simp add: state_ok_def)
  have "\<exists>r \<in> set (items t). ItemID r = ItemID (plItem plan) \<and> Version r = ?e"
    using stored
    by (auto simp: moveWrite_def Let_def go_result writeMove_def SetOrderKey_def afterMove_def clearForeignReferences_simps
        list_ex_iff cleared_def split: if_split_asm)
  then have "Version (plItem plan) = ?e" using only by metis
  moreover have "after = (afterMove plan spot orderKey now)\<lparr>Version := ?e + 1\<rparr>"
    using stored by (auto simp: moveWrite_def Let_def go_result)
  ultimately show ?thesis by simp
qed

lemma stays_put:
  assumes ok: "state_ok h t" and read: "moveRead t cmd = Inr plan" and move: "Move h (plItem plan) (plParent plan) = Inr spot"
    and "\<not> reparents plan"
  shows "PlaceParentID spot = ParentID (plItem plan)" "SubtreePathUnder (plItem plan) (ParentPath spot) = ItemPath (plItem plan)"
    "PlaceDepth spot = Depth (plItem plan)" "ContID (plDestination plan) = CollectionID (plItem plan)"
proof -
  have tree: "tree_ok h (items t)" using ok by (simp add: state_ok_def)
  note m = moveRead_Inr(1) [OF read]
  have target: "TargetParentID (plCommand plan) = ParentID (plItem plan)" using assms(4) by (simp add: reparents_def)
  show "ContID (plDestination plan) = CollectionID (plItem plan)"
    using assms(4) moveRead_Inr(3) [OF read] by (simp add: reparents_def)
  have "PlaceParentID spot = ParentID (plItem plan) \<and> SubtreePathUnder (plItem plan) (ParentPath spot) = ItemPath (plItem plan)
    \<and> PlaceDepth spot = Depth (plItem plan)"
  proof (cases "plParent plan")
    case None
    then have "ParentID (plItem plan) = ''''" using moveRead_Inr(4) [OF read] target by simp
    then show ?thesis
      using Place_Inr [OF Move_Inr(1) [OF move]] None
      by (cases rule: parent_cases [OF tree m]) (auto simp: SubtreePathUnder_def ParentPath_def path_of_def)
  next
    case (Some p)
    then have p: "p \<in> set (items t)" "ItemID p = ParentID (plItem plan)" using moveRead_Inr(5) [OF read] target by auto
    then have "(p, plItem plan) \<in> parent_of (items t)" using m by (simp add: parent_of_def)
    from parent_of_step [OF tree this] show ?thesis
      using Place_Inr [OF Move_Inr(1) [OF move]] Some p path_nonempty [OF tree p(1)]
      by (auto simp: SubtreePathUnder_def ParentPath_def)
  qed
  then show "PlaceParentID spot = ParentID (plItem plan)" "SubtreePathUnder (plItem plan) (ParentPath spot) = ItemPath (plItem plan)"
    "PlaceDepth spot = Depth (plItem plan)" by auto
qed

definition carried_along :: "WorkItem \<Rightarrow> WorkItem \<Rightarrow> WorkItem \<Rightarrow> WorkItem \<Rightarrow> bool" where
  "carried_along m after r r' \<longleftrightarrow> ItemID r' = ItemID r \<and> Title r' = Title r \<and> ItemCompletion r' = ItemCompletion r
     \<and> CollectionID r' = CollectionID after \<and> ItemPath r' = ItemPath after @ drop (length (ItemPath m)) (ItemPath r)
     \<and> Depth r' = Depth r + (Depth after - Depth m)"

lemma move_effect:
  assumes ok: "state_ok h t" and h: "NewHierarchy inForce system = Inr h"
    and move: "movePerform g inForce system t cmd now = Inr (t', after)"
  shows "\<exists>m \<in> set (items t). ItemID m = MoveItemID cmd \<and> ItemID after = ItemID m \<and> Version after = Version m + 1
    \<and> after \<in> set (items t') \<and> list_all2 (\<lambda>r r'. if Contains m r then carried_along m after r r' else r' = r) (items t) (items t')"
proof -
  obtain plan spot orderKey where decide: "moveDecide g inForce system t cmd = Inr (plan, spot, orderKey)"
    and stored: "moveWrite t (plan, spot, orderKey) now = Inr (t', after)"
    using move by (auto simp: movePerform_def go_result)
  let ?m = "plItem plan"
  note d = moveDecide_Inr [OF decide h] and w = moveWrite_Inr [OF stored]
  have m: "?m \<in> set (items t)" "ItemID ?m = MoveItemID cmd" using moveRead_Inr [OF d(1)] by auto
  note v = moveWrite_version [OF ok m(1) stored]
  have tree: "tree_ok h (items t)" using ok by (simp add: state_ok_def)
  have only: "r = ?m" if "r \<in> set (items t)" "ItemID r = ItemID ?m" for r using tree_ok_ids [OF tree that(1) m(1) that(2)] .
  obtain f where f: "items t' = map f (items t)" "f ?m = after"
    "\<And>r. r \<in> set (items t) \<Longrightarrow> if Contains ?m r then carried_along ?m after r (f r) else f r = r"
  proof (cases "reparents plan")
    case True
    let ?f = "\<lambda>r. moved_row ?m spot (ContID (plDestination plan)) orderKey (landedBucket plan) now
             (cleared t (ItemPath ?m) (ContID (plDestination plan)) r)"
    show ?thesis
    proof (rule that)
      show "items t' = map ?f (items t)" using w True by simp
      show "?f ?m = after"
        by (simp add: v afterMove_def moved_row_def SetWorkItemPlacement_def cleared_def Let_def)
      show "if Contains ?m r then carried_along ?m after r (?f r) else ?f r = r" if "r \<in> set (items t)" for r
      proof (cases "r = ?m")
        case True
        then show ?thesis
          by (simp add: v afterMove_def moved_row_def SetWorkItemPlacement_def cleared_def Let_def Contains_def hasPrefix_prefix carried_along_def)
      next
        case False
        then have "ItemID r \<noteq> ItemID ?m" using only that by blast
        then show ?thesis
          by (simp add: v afterMove_def moved_row_def MoveWorkItemSubtree_def cleared_def Let_def Contains_def carried_along_def)
      qed
    qed
  next
    case False
    note s = stays_put [OF ok d(1,2) False]
    let ?f = "\<lambda>r. if ItemID r = ItemID ?m
        then r\<lparr>OrderKey := orderKey, BucketID := landedBucket plan, UpdatedAt := now, Version := Version r + 1\<rparr> else r"
    have after: "after = ?m\<lparr>OrderKey := orderKey, BucketID := landedBucket plan, UpdatedAt := now, Version := Version ?m + 1\<rparr>"
      unfolding v afterMove_def s by (cases ?m) simp
    show ?thesis
    proof (rule that)
      show "items t' = map ?f (items t)" using w False by simp
      show "?f ?m = after" by (simp add: after)
      show "if Contains ?m r then carried_along ?m after r (?f r) else ?f r = r" if "r \<in> set (items t)" for r
      proof -
        have "CollectionID r = CollectionID ?m" if "Contains ?m r"
          using subtree_home [OF tree _ m(1) \<open>r \<in> set (items t)\<close>] ok that by (simp add: state_ok_def)
        then show ?thesis
          using only [OF that] by (auto simp: after carried_along_def Contains_def hasPrefix_prefix prefix_def)
      qed
    qed
  qed
  have "list_all2 (\<lambda>r r'. if Contains ?m r then carried_along ?m after r r' else r' = r) (items t) (items t')"
    unfolding f(1) list_all2_map2 by (rule list.rel_refl_strong) (rule f(3))
  moreover have "after \<in> set (items t')" using f(1,2) m(1) by (metis image_eqI list.set_map)
  moreover have "ItemID after = ItemID ?m" "Version after = Version ?m + 1" by (simp_all add: v afterMove_def)
  ultimately show ?thesis using m by blast
qed


definition moving :: "ID \<Rightarrow> ID \<Rightarrow> MoveWorkItemCommand" where
  "moving i parent = \<lparr>MoveItemID = i, TargetParentID = parent, ParentGiven = True, TargetCollectionID = '''', BeforeItemID = '''',
     MoveOrderKey = '''', TargetBucketID = '''', BucketGiven = False, ExpectedVersion = 0\<rparr>"

definition package2_moved :: WorkItem where
  "package2_moved = package2\<lparr>ParentID := ItemID task2, ItemPath := ItemPath task2 @ ItemID package2 @ ''/'', OrderKey := ''a0'',
     UpdatedAt := 7, Version := 2\<rparr>"

definition activity_moved :: WorkItem where
  "activity_moved = activity\<lparr>ItemPath := ItemPath package2_moved @ ItemID activity @ ''/'', UpdatedAt := 7, Version := 2\<rparr>"

lemma sample_move:
  "moveItem openGates levelProfiles levelProfiles sampleTree sampleTree (moving (ItemID package2) (ItemID task2)) 7
     = Inr (treeOf [task1, task2, package1, package2_moved, activity_moved], package2_moved)"
  by code_simp


section \<open>Two moves at once\<close>

definition race_plan :: "placement \<times> Placement \<times> string" where
  "race_plan = (\<lparr>plItem = activity, plParent = Some package1, plSource = someCollection (uid (CHR ''c'')),
     plDestination = someCollection (uid (CHR ''c'')), plCommand = moving (ItemID activity) (ItemID package1)\<rparr>,
     \<lparr>PlaceParentID = ItemID package1, PlaceDepth = 3, parentPath = ItemPath package1\<rparr>, ''a0'')"

definition package1_moved :: WorkItem where
  "package1_moved = package1\<lparr>ParentID := ItemID task2, ItemPath := ItemPath task2 @ ItemID package1 @ ''/'', UpdatedAt := 7, Version := 2\<rparr>"

definition activity_lost :: WorkItem where
  "activity_lost = activity\<lparr>ParentID := ItemID package1, ItemPath := ItemPath package1 @ ItemID activity @ ''/'', UpdatedAt := 8, Version := 2\<rparr>"

lemma race_decided:
  "moveDecide openGates levelProfiles levelProfiles sampleTree (moving (ItemID activity) (ItemID package1)) = Inr race_plan"
  by code_simp

lemma race_between:
  "movePerform openGates levelProfiles levelProfiles sampleTree (moving (ItemID package1) (ItemID task2)) 7
     = Inr (treeOf [task1, task2, package1_moved, package2, activity], package1_moved)"
  by code_simp

lemma race_written:
  "moveWrite (treeOf [task1, task2, package1_moved, package2, activity]) race_plan 8
     = Inr (treeOf [task1, task2, package1_moved, package2, activity_lost], activity_lost)"
  by code_simp

lemma race_lost: "\<not> row_ok [task1, task2, package1_moved, package2, activity_lost] activity_lost"
  by code_simp


section \<open>Completion\<close>


abbreviation sampleProfile :: "WorkItem \<Rightarrow> CapabilityProfile result" where
  "sampleProfile \<equiv> gatedProfileFor openGates"

lemma sample_completable:
  "list_all (\<lambda>r. completable sampleProfile r = None \<and> settled CompletionRollup (items sampleTree) r \<and> Depth r \<le> int 3) (items sampleTree)"
  by code_simp

lemma sample_completing:
  "findCollection sampleTree (CollectionID activity) = Inr (someCollection (uid (CHR ''c'')))"
  "EnsureAcceptsItems (someCollection (uid (CHR ''c''))) = None"
  "requireShown openGates (someCollection (uid (CHR ''c''))) activity = None"
  "Total (ChildCompletionOf (items sampleTree) (ItemID activity)) = 0"
  by code_simp+


section \<open>Read-only collections\<close>

definition archivedTree :: tree where
  "archivedTree = sampleTree\<lparr>collections := map (\<lambda>c. c\<lparr>ContArchivedAt := Some 6\<rparr>) (collections sampleTree)\<rparr>"

lemma archived_completion:
  "setCompletion openGates 3 sampleProfile CompletionRollup completing (uid (CHR ''9'')) (ItemID activity) 0 9 archivedTree
     = Some (Inl (Failure (WithParams (WithDetail ErrConflict ''items.collection_archived'')
         [(''collection_id'', uid (CHR ''c'')), (''archived_id'', uid (CHR ''c''))])))"
  by code_simp

lemma archived_label:
  "changeLabel openGates archivedTree archivedTree (ItemID activity) (uid (CHR ''b'')) adding (reading 7)
     = Inr (addItemLabel archivedTree (ItemID activity) (uid (CHR ''b'')) (reading 7), True)"
  by code_simp

text \<open>
  An item inside an archived collection cannot be completed, the collection being read-only; a label of
  that collection can nevertheless be put on it, because labelling looks at the item alone.
\<close>

theorem archived_collection_takes_labels:
  "\<exists>t c e t'. findCollection t (CollectionID activity) = Inr c \<and> Container_IsArchived c
     \<and> setCompletion openGates 3 sampleProfile CompletionRollup completing (uid (CHR ''9'')) (ItemID activity) 0 9 t = Some (Inl e)
     \<and> changeLabel openGates t t (ItemID activity) (uid (CHR ''b'')) adding (reading 7) = Inr (t', True)
     \<and> (ItemID activity, uid (CHR ''b'')) \<in> set (itemLabels t')"
proof -
  have "findCollection archivedTree (CollectionID activity) = Inr ((someCollection (uid (CHR ''c'')))\<lparr>ContArchivedAt := Some 6\<rparr>)"
    by code_simp
  then show ?thesis using archived_completion archived_label by (fastforce simp: Container_IsArchived_def addItemLabel_def)
qed

end
