(* ===== verification/Label_Laws.thy ===== *)
theory Label_Laws
  imports Placement_Properties
begin

text \<open>
  The labels an item carries and the tags a synchronisation merges on.  A label change keeps the two in step; a
  move to another collection, which drops the labels that collection does not define, does not.
\<close>

section \<open>Rows and tags\<close>

definition tags_agree :: "tree \<Rightarrow> bool" where
  "tags_agree t \<longleftrightarrow> (\<forall>i l. (i, l) \<in> set (itemLabels t) \<longleftrightarrow> presentIn (labelElements t i) l)"

lemma addItemLabel_rows:
  "set (itemLabels (addItemLabel t i l tag)) = insert (i, l) (set (itemLabels t))"
  by (auto simp: addItemLabel_def)

lemma removeItemLabel_rows:
  "set (itemLabels (fst (removeItemLabel t i l tag))) = set (itemLabels t) - {(i, l)}"
  by (auto simp: removeItemLabel_def)

lemma addItemLabel_tags:
  assumes "\<not> HLC_IsZero tag"
  shows "presentIn (labelElements (addItemLabel t i l tag) j) k \<longleftrightarrow> (j, k) = (i, l) \<or> presentIn (labelElements t j) k"
  using assms
  by (auto simp: addItemLabel_def labelElements_def update_conv presentIn_tags RecordSetElementAdded_tags IsPresent_def)

lemma removeItemLabel_tags:
  assumes "\<not> HLC_IsZero tag" "list_all (\<lambda>e. \<not> After (AddedAt e) tag) (labelElements t i)"
  shows "presentIn (labelElements (fst (removeItemLabel t i l tag)) j) k
    \<longleftrightarrow> (j, k) \<noteq> (i, l) \<and> presentIn (labelElements t j) k"
proof -
  have "\<not> After (AddedAt e) tag" if "tags_of (labelElements t i) l = Some e" for e
    using assms(2) tags_of_SomeD [OF that] by (auto simp: list_all_iff)
  then show ?thesis
    using assms(1)
    by (auto simp: removeItemLabel_def labelElements_def update_conv presentIn_tags RecordSetElementRemoved_tags IsPresent_def
        split: option.splits)
qed


section \<open>A label on the second task\<close>

definition labelledTree :: tree where
  "labelledTree = addItemLabel sampleTree (ItemID task2) (uid (CHR ''b'')) (reading 6)"

lemma sample_agrees: "tags_agree sampleTree"
  by (simp add: tags_agree_def sampleTree_def treeOf_def firstTree_def labelElements_def)

lemma sample_labelled:
  "changeLabel openGates sampleTree sampleTree (ItemID task2) (uid (CHR ''b'')) adding (reading 6) = Inr (labelledTree, True)"
  by code_simp


section \<open>A move away and back\<close>

definition moving_to :: "char \<Rightarrow> MoveWorkItemCommand" where
  "moving_to c = (moving (ItemID task2) '''')\<lparr>TargetCollectionID := uid c\<rparr>"

definition labelGone :: tree where
  "labelGone = labelledTree\<lparr>itemLabels := [], items := [task1, task2\<lparr>CollectionID := uid (CHR ''d''), OrderKey := ''a0'', UpdatedAt := 7,
     Version := 2\<rparr>, package1, package2, activity]\<rparr>"

definition labelLost :: tree where
  "labelLost = labelGone\<lparr>items := [task1, task2\<lparr>UpdatedAt := 8, Version := 3\<rparr>, package1, package2, activity]\<rparr>"

lemma moved_away:
  "moveItem openGates levelProfiles levelProfiles labelledTree labelledTree (moving_to (CHR ''d'')) 7
     = Inr (labelGone, (items labelGone) ! 1)"
  by code_simp

lemma moved_back:
  "moveItem openGates levelProfiles levelProfiles labelGone labelGone (moving_to (CHR ''c'')) 8
     = Inr (labelLost, (items labelLost) ! 1)"
  by code_simp

lemma addition_ignored:
  "pushSet (labelElements labelLost (ItemID task2)) SetAddition (uid (CHR ''b'')) (reading 9) = labelElements labelLost (ItemID task2)"
  by code_simp

lemma lost_label: "(ItemID task2, uid (CHR ''b'')) \<notin> set (itemLabels labelLost)"
  by (simp add: labelLost_def labelGone_def)

text \<open>
  A move to another collection drops the labels of the one it leaves but writes no removal tag.  Moved away
  and back, the item no longer carries its label, while its tags say that it does: a device that puts the label
  on it again, at a later reading, changes nothing.
\<close>

theorem moved_label_cannot_return:
  "\<exists>t t1 a1 t2 a2. reached t \<and> (ItemID task2, uid (CHR ''b'')) \<in> set (itemLabels t)
     \<and> moveItem openGates levelProfiles levelProfiles t t (moving_to (CHR ''d'')) 7 = Inr (t1, a1)
     \<and> moveItem openGates levelProfiles levelProfiles t1 t1 (moving_to (CHR ''c'')) 8 = Inr (t2, a2)
     \<and> (ItemID task2, uid (CHR ''b'')) \<notin> set (itemLabels t2)
     \<and> pushSet (labelElements t2 (ItemID task2)) SetAddition (uid (CHR ''b'')) (reading 9) = labelElements t2 (ItemID task2)"
proof -
  have "reached labelledTree" by (rule reachable.labelled [OF sample_reached sample_labelled])
  moreover have "(ItemID task2, uid (CHR ''b'')) \<in> set (itemLabels labelledTree)" by (simp add: labelledTree_def addItemLabel_rows)
  ultimately show ?thesis using moved_away moved_back lost_label addition_ignored by blast
qed

end
