(* ===== verification/Schedule.thy ===== *)
theory Schedule
  imports Ids
begin

text \<open>
  The scheduler of a plan, \<^verbatim>\<open>core/domain/model/planning/Schedule.go\<close>: entries on an axis of working days, a
  topological order of their dependencies, a forward pass that places the automatic entries, the roll-up of
  summaries, a backward pass that measures the float.  A day is counted from 1970-01-01, and a calendar is what
  its \<^verbatim>\<open>WorksOn\<close> says of the civil date of a day.  The axis keeps the days it has found; an axis of any age answers
  alike (\<open>axisDay_cached\<close> in \<open>Schedule_Laws\<close>), so the passes ask a new one.  Tasks are a list, what points to a
  task is its position.
\<close>

section \<open>Modes, dependencies, entries\<close>

datatype Mode = Manual | Automatic | OtherMode string

definition Mode_Valid :: "Mode \<Rightarrow> bool" where
  "Mode_Valid m \<longleftrightarrow> m = Manual \<or> m = Automatic"

datatype DependencyKind = FinishToStart | StartToStart | FinishToFinish | StartToFinish | NoKind | OtherKind string

definition Dependency_Valid :: "DependencyKind \<Rightarrow> bool" where
  "Dependency_Valid k \<longleftrightarrow> k = FinishToStart \<or> k = StartToStart \<or> k = FinishToFinish \<or> k = StartToFinish"

definition MaxLagDays :: int where "MaxLagDays = 999"
definition MaxEntries :: nat where "MaxEntries = 2000"
definition maxReachDays :: int where "maxReachDays = 40 * 366"
definition backwardRoom :: int where "backwardRoom = 3 * 366"
definition minPlanLength :: int where "minPlanLength = 1"

record Timing =
  TimingKind :: DependencyKind
  LagDays :: int

definition planningInvalid :: "string \<Rightarrow> string \<Rightarrow> failure" where
  "planningInvalid path code = Failure (WithFields (WithDetail ErrValidation code) [field_error path code])"

definition NewTiming :: "DependencyKind \<Rightarrow> int \<Rightarrow> Timing result" where
  "NewTiming kind lagDays =
     (let kind = (if kind = NoKind then FinishToStart else kind) in
      if \<not> Dependency_Valid kind then Inl (planningInvalid ''/dependency_kind'' ''planning.dependency_kind_unknown'')
      else if lagDays < - MaxLagDays \<or> lagDays > MaxLagDays
      then Inl (Failure (WithFields (WithParams (WithDetail ErrValidation ''planning.lag_out_of_range'')
        [(''maximum'', ''999'')]) [field_error ''/lag_days'' ''planning.lag_out_of_range'']))
      else Inr \<lparr>TimingKind = kind, LagDays = lagDays\<rparr>)"

type_synonym Day = int
type_synonym Workdays = "Day \<Rightarrow> bool"

record PlanEntry =
  EntryID :: ID
  EntryParentID :: ID
  EntryMode :: Mode
  EntryMilestone :: bool
  EntryDone :: bool
  EntryStart :: "Day option"
  EntryFinish :: "Day option"

record Dependency =
  Predecessor :: ID
  Successor :: ID
  DepTiming :: Timing

record Plan =
  PlanEntries :: "PlanEntry list"
  PlanDependencies :: "Dependency list"
  PlanCalendar :: "Workdays option"

record PlanPlacement =
  PlacedID :: ID
  PlacedStart :: Day
  PlacedFinish :: Day
  PlacedDuration :: int
  PlacedMoved :: bool
  TotalFloat :: int
  FreeFloat :: int
  Critical :: bool
  PlacedSummary :: bool

record Conflict =
  ConflictPredecessor :: ID
  ConflictSuccessor :: ID
  ConflictKind :: DependencyKind
  ConflictEarliest :: Day

record ScheduleResult =
  Placements :: "PlanPlacement list"
  Unscheduled :: "ID list"
  Conflicts :: "Conflict list"
  ResultFinish :: Day
  CriticalPath :: "ID list"

definition Moves :: "ScheduleResult \<Rightarrow> PlanPlacement list" where
  "Moves r = filter PlacedMoved (Placements r)"

record task =
  tEntry :: PlanEntry
  tS :: int
  tE :: int
  tD :: int
  tLS :: int
  tLE :: int
  tPreds :: "nat list"
  tSuccs :: "nat list"
  tSummary :: bool
  tOriginalStart :: Day
  tOriginalEnd :: Day

section \<open>The axis of working days\<close>

record axis =
  axisCalendar :: Workdays
  axisOrigin :: Day
  axisDays :: "Day list"

definition newAxis :: "Workdays \<Rightarrow> Day \<Rightarrow> axis" where
  "newAxis calendar origin = \<lparr>axisCalendar = calendar, axisOrigin = origin, axisDays = []\<rparr>"

definition tooFar :: failure where
  "tooFar = Failure (WithDetail ErrValidation ''planning.too_far'')"

text \<open>The loop of \<^verbatim>\<open>day\<close>: grow the days until there is one at the index, or the axis is at its end.\<close>

function axisGrow :: "Workdays \<Rightarrow> Day \<Rightarrow> nat \<Rightarrow> Day list \<Rightarrow> Day \<Rightarrow> Day list option" where
  "axisGrow calendar origin i days next =
     (if i < length days then Some days
      else if next - origin > maxReachDays then None
      else axisGrow calendar origin i (if calendar next then days @ [next] else days) (next + 1))"
  by pat_completeness auto
termination
  by (relation "measure (\<lambda>(calendar, origin, i, days, next). nat (maxReachDays + 1 - (next - origin)))") auto

declare axisGrow.simps [simp del]

definition axisDay :: "axis \<Rightarrow> int \<Rightarrow> (axis \<times> Day) result" where
  "axisDay a i =
     (if i < 0 then Inl tooFar
      else case axisGrow (axisCalendar a) (axisOrigin a) (nat i) (axisDays a)
                  (if axisDays a = [] then axisOrigin a else last (axisDays a) + 1) of
             None \<Rightarrow> Inl tooFar
           | Some days \<Rightarrow> Inr (a\<lparr>axisDays := days\<rparr>, days ! nat i))"

definition dayAt :: "Workdays \<Rightarrow> Day \<Rightarrow> int \<Rightarrow> Day result" where
  "dayAt calendar origin i = rbind (axisDay (newAxis calendar origin) i) (\<lambda>(a, day). Inr day)"

text \<open>The days found are distinct and none lies past the end of the axis, so the index is bounded.\<close>

lemma axisGrow_length:
  "axisGrow calendar origin i days at = Some days' \<Longrightarrow> int (length days) \<le> at - origin \<Longrightarrow>
   int (length days) \<le> maxReachDays + 1 \<Longrightarrow> int (length days') \<le> maxReachDays + 1"
proof (induction calendar origin i days at rule: axisGrow.induct)
  case (1 calendar origin i days at)
  show ?case using 1(2-) axisGrow.simps [of calendar origin i days at] 1(1) by (auto split: if_splits)
qed

lemma axisGrow_enough: "axisGrow calendar origin i days at = Some days' \<Longrightarrow> i < length days'"
proof (induction calendar origin i days at rule: axisGrow.induct)
  case (1 calendar origin i days at)
  show ?case using 1(2) axisGrow.simps [of calendar origin i days at] 1(1) by (auto split: if_splits)
qed

lemma dayAt_bound:
  assumes "dayAt calendar origin i = Inr day"
  shows "0 \<le> i \<and> i \<le> maxReachDays"
proof -
  obtain days where "0 \<le> i" "axisGrow calendar origin (nat i) [] origin = Some days"
    using assms by (auto simp: dayAt_def axisDay_def newAxis_def go_result split: if_splits option.splits)
  then show ?thesis
    using axisGrow_enough [of calendar origin "nat i" "[]" origin days] axisGrow_length [of calendar origin "nat i" "[]" origin days]
    by (auto simp: maxReachDays_def)
qed

function atOrAfterFrom :: "Workdays \<Rightarrow> Day \<Rightarrow> Day \<Rightarrow> int \<Rightarrow> int result" where
  "atOrAfterFrom calendar origin target i =
     (case dayAt calendar origin i of
        Inl e \<Rightarrow> Inl e
      | Inr day \<Rightarrow> if day \<ge> target then Inr i else atOrAfterFrom calendar origin target (i + 1))"
  by pat_completeness auto
termination
  by (relation "measure (\<lambda>(calendar, origin, target, i). nat (maxReachDays + 1 - i))") (auto dest: dayAt_bound)

declare atOrAfterFrom.simps [simp del]

definition atOrAfter :: "Workdays \<Rightarrow> Day \<Rightarrow> Day \<Rightarrow> int result" where
  "atOrAfter calendar origin target = atOrAfterFrom calendar origin target 0"

definition atOrBefore :: "Workdays \<Rightarrow> Day \<Rightarrow> Day \<Rightarrow> int result" where
  "atOrBefore calendar origin target =
     rbind (atOrAfter calendar origin target) (\<lambda>i.
       Inr (case dayAt calendar origin i of Inl _ \<Rightarrow> i | Inr day \<Rightarrow> if day > target then i - 1 else i))"

definition AddWorkdays :: "Workdays \<Rightarrow> Day \<Rightarrow> int \<Rightarrow> Day result" where
  "AddWorkdays calendar from n =
     (if n < - maxReachDays \<or> n > maxReachDays then Inl tooFar
      else let origin = from - backwardRoom - max (- n) 0 * 2 in
        rbind (atOrAfter calendar origin from) (\<lambda>i. dayAt calendar origin (i + n)))"

definition WorkdaysBetween :: "Workdays \<Rightarrow> Day \<Rightarrow> Day \<Rightarrow> int result" where
  "WorkdaysBetween calendar from to =
     (if to < from then Inr 0
      else if to - from > maxReachDays then Inl tooFar
      else Inr (int (length (filter calendar [from..to]))))"

section \<open>Collecting the tasks\<close>

type_synonym index = "ID \<rightharpoonup> nat"

text \<open>The days an entry spans, as they were read: a missing start is the finish, a finish before the start is the start.\<close>

definition entrySpan :: "PlanEntry \<Rightarrow> (Day \<times> Day) option" where
  "entrySpan entry =
     (if EntryStart entry = None \<and> EntryFinish entry = None then None
      else let start = (case EntryStart entry of None \<Rightarrow> the (EntryFinish entry) | Some day \<Rightarrow> day);
               finish = (case EntryFinish entry of None \<Rightarrow> start | Some day \<Rightarrow> if day < start then start else day)
           in Some (if EntryMilestone entry then finish else start, finish))"

definition collectEntry :: "(ID \<Rightarrow> bool) \<Rightarrow> index \<times> task list \<times> ID list \<times> Day option \<Rightarrow> PlanEntry
    \<Rightarrow> index \<times> task list \<times> ID list \<times> Day option" where
  "collectEntry parents state entry =
     (let (index, tasks, unscheduled, origin) = state in
      if index (EntryID entry) \<noteq> None then state
      else case entrySpan entry of
             None \<Rightarrow> (index, tasks, unscheduled @ [EntryID entry], origin)
           | Some (start, finish) \<Rightarrow>
               (index(EntryID entry \<mapsto> length tasks),
                tasks @ [\<lparr>tEntry = entry, tS = 0, tE = 0, tD = 0, tLS = 0, tLE = 0, tPreds = [], tSuccs = [],
                          tSummary = parents (EntryID entry), tOriginalStart = start, tOriginalEnd = finish\<rparr>],
                unscheduled,
                Some (case origin of None \<Rightarrow> start | Some first \<Rightarrow> if start < first then start else first)))"

definition collect :: "PlanEntry list \<Rightarrow> index \<times> task list \<times> ID list \<times> Day option" where
  "collect entries =
     foldl (collectEntry (\<lambda>i. list_ex (\<lambda>entry. \<not> IsZero (EntryParentID entry) \<and> EntryParentID entry = i) entries))
       (Map.empty, [], [], None) entries"

definition placeTask :: "Workdays \<Rightarrow> Day \<Rightarrow> task \<Rightarrow> task result" where
  "placeTask calendar origin t =
     rbind (atOrAfter calendar origin (tOriginalStart t)) (\<lambda>s.
     rbind (atOrBefore calendar origin (tOriginalEnd t)) (\<lambda>last.
       let (s, d) = (if EntryMilestone (tEntry t) then (last + 1, 0) else (s, max (last - s + 1) minPlanLength))
       in Inr (t\<lparr>tS := s, tD := d, tE := s + d\<rparr>)))"

fun placeTasks :: "Workdays \<Rightarrow> Day \<Rightarrow> task list \<Rightarrow> task list result" where
  "placeTasks calendar origin [] = Inr []"
| "placeTasks calendar origin (t # ts) =
     rbind (placeTask calendar origin t) (\<lambda>t'. rbind (placeTasks calendar origin ts) (\<lambda>ts'. Inr (t' # ts')))"

text \<open>A lookup in a Go map answers the zero value for a missing key.\<close>

definition indexOf :: "index \<Rightarrow> ID \<Rightarrow> nat" where
  "indexOf index i = (case index i of None \<Rightarrow> 0 | Some k \<Rightarrow> k)"

definition linkDep :: "index \<Rightarrow> task list \<times> Dependency list \<Rightarrow> Dependency \<Rightarrow> task list \<times> Dependency list" where
  "linkDep index state dep =
     (let (tasks, deps) = state in
      case (index (Predecessor dep), index (Successor dep)) of
        (Some p, Some s) \<Rightarrow>
          if p = s \<or> tSummary (tasks ! p) \<or> tSummary (tasks ! s) then state
          else let dep' = (if TimingKind (DepTiming dep) = NoKind
                           then dep\<lparr>DepTiming := (DepTiming dep)\<lparr>TimingKind := FinishToStart\<rparr>\<rparr> else dep);
                   tasks = tasks[p := (tasks ! p)\<lparr>tSuccs := tSuccs (tasks ! p) @ [length deps]\<rparr>]
               in (tasks[s := (tasks ! s)\<lparr>tPreds := tPreds (tasks ! s) @ [length deps]\<rparr>], deps @ [dep'])
      | _ \<Rightarrow> state)"

section \<open>The order of the dependencies\<close>

text \<open>One entry leaves the queue: its successors wait for one dependency less, and the last one releases them.\<close>

fun release :: "int list \<Rightarrow> nat list \<Rightarrow> nat list \<Rightarrow> int list \<times> nat list" where
  "release waiting queue [] = (waiting, queue)"
| "release waiting queue (s # ss) =
     (if s < length waiting
      then let n = waiting ! s - 1 in release (waiting[s := n]) (if n = 0 then queue @ [s] else queue) ss
      else release waiting queue ss)"

definition positives :: "int list \<Rightarrow> nat" where
  "positives waiting = length (filter (\<lambda>n. 0 < n) waiting)"

lemma positives_update: "s < length waiting \<Longrightarrow> waiting ! s = 1 \<Longrightarrow> Suc (positives (waiting[s := 0])) = positives waiting"
  by (induction waiting arbitrary: s) (auto simp: positives_def nth_Cons split: nat.splits)

lemma positives_decrease:
  "s < length waiting \<Longrightarrow> positives (waiting[s := waiting ! s - 1]) \<le> positives waiting"
  by (induction waiting arbitrary: s) (auto simp: positives_def nth_Cons le_SucI split: nat.splits)

lemma release_measure:
  "release waiting queue ss = (waiting', queue') \<Longrightarrow> length queue' + positives waiting' \<le> length queue + positives waiting"
proof (induction waiting queue ss rule: release.induct)
  case (2 waiting queue s ss)
  show ?case
  proof (cases "s < length waiting")
    case True
    have "(if waiting ! s - 1 = 0 then Suc (length queue) else length queue) + positives (waiting[s := waiting ! s - 1])
        \<le> length queue + positives waiting"
      using positives_update [OF True] positives_decrease [OF True] by auto
    then show ?thesis using 2(1) [OF True refl] 2(3) True by (auto simp: Let_def split: if_splits)
  qed (use 2 in auto)
qed simp

function topoLoop :: "(nat \<Rightarrow> nat list) \<Rightarrow> int list \<Rightarrow> nat list \<Rightarrow> nat list \<Rightarrow> nat list" where
  "topoLoop successors waiting [] order = order"
| "topoLoop successors waiting (i # queue) order =
     (let (waiting', queue') = release waiting queue (successors i) in topoLoop successors waiting' queue' (order @ [i]))"
  by pat_completeness auto
termination
proof (relation "measure (\<lambda>(successors, waiting, queue, order). length queue + positives waiting)", goal_cases)
  case (2 successors waiting i queue order r waiting' queue')
  then show ?case using release_measure [of waiting queue "successors i" waiting' queue'] by simp
qed simp

definition topological :: "task list \<Rightarrow> Dependency list \<Rightarrow> index \<Rightarrow> nat list result" where
  "topological tasks deps index =
     (let waiting = map (\<lambda>t. int (length (tPreds t))) tasks;
          queue = filter (\<lambda>i. waiting ! i = 0) [0..<length tasks];
          order = topoLoop (\<lambda>i. map (\<lambda>k. indexOf index (Successor (deps ! k))) (tSuccs (tasks ! i))) waiting queue []
      in if length order \<noteq> length tasks then Inl (Failure (WithDetail ErrConflict ''planning.cycle'')) else Inr order)"

section \<open>The passes\<close>

definition earliestStart :: "task \<Rightarrow> task \<Rightarrow> Timing \<Rightarrow> int" where
  "earliestStart pred succ timing =
     (case TimingKind timing of
        StartToStart \<Rightarrow> tS pred + LagDays timing
      | FinishToFinish \<Rightarrow> tE pred + LagDays timing - tD succ
      | StartToFinish \<Rightarrow> tS pred + LagDays timing - tD succ
      | _ \<Rightarrow> tE pred + LagDays timing)"

definition latestEnd :: "task \<Rightarrow> task \<Rightarrow> Timing \<Rightarrow> int" where
  "latestEnd pred succ timing =
     (case TimingKind timing of
        StartToStart \<Rightarrow> tLS succ - LagDays timing + tD pred
      | FinishToFinish \<Rightarrow> tLE succ - LagDays timing
      | StartToFinish \<Rightarrow> tLE succ - LagDays timing + tD pred
      | _ \<Rightarrow> tLS succ - LagDays timing)"

definition slack :: "task \<Rightarrow> task \<Rightarrow> Timing \<Rightarrow> int" where
  "slack pred succ timing = tS succ - earliestStart pred succ timing"

definition predecessor :: "index \<Rightarrow> Dependency list \<Rightarrow> nat \<Rightarrow> nat" where
  "predecessor index deps k = indexOf index (Predecessor (deps ! k))"

definition successor :: "index \<Rightarrow> Dependency list \<Rightarrow> nat \<Rightarrow> nat" where
  "successor index deps k = indexOf index (Successor (deps ! k))"

definition needOf :: "index \<Rightarrow> Dependency list \<Rightarrow> task list \<Rightarrow> task \<Rightarrow> nat \<Rightarrow> int" where
  "needOf index deps tasks t k = earliestStart (tasks ! predecessor index deps k) t (DepTiming (deps ! k))"

definition movable :: "task \<Rightarrow> bool" where
  "movable t \<longleftrightarrow> EntryMode (tEntry t) = Automatic \<and> \<not> EntryDone (tEntry t) \<and> \<not> tSummary t"

fun reportConflicts :: "Workdays \<Rightarrow> Day \<Rightarrow> index \<Rightarrow> Dependency list \<Rightarrow> task list \<Rightarrow> task \<Rightarrow> nat list \<Rightarrow> Conflict list result" where
  "reportConflicts calendar origin index deps tasks t [] = Inr []"
| "reportConflicts calendar origin index deps tasks t (k # ks) =
     (let need = needOf index deps tasks t k; dep = deps ! k; kind = TimingKind (DepTiming dep) in
      if tS t \<ge> need then reportConflicts calendar origin index deps tasks t ks
      else rbind (dayAt calendar origin (max (if kind = FinishToFinish \<or> kind = StartToFinish then need + tD t - 1 else need) 0)) (\<lambda>day.
           rbind (reportConflicts calendar origin index deps tasks t ks) (\<lambda>rest.
             Inr (\<lparr>ConflictPredecessor = Predecessor dep, ConflictSuccessor = Successor dep, ConflictKind = kind,
                   ConflictEarliest = day\<rparr> # rest))))"

definition forwardStep :: "Workdays \<Rightarrow> Day \<Rightarrow> index \<Rightarrow> Dependency list \<Rightarrow> task list \<times> Conflict list \<Rightarrow> nat
    \<Rightarrow> (task list \<times> Conflict list) result" where
  "forwardStep calendar origin index deps state i =
     (let (tasks, conflicts) = state; t = tasks ! i in
      case map (needOf index deps tasks t) (tPreds t) of
        [] \<Rightarrow> Inr state
      | need # needs \<Rightarrow>
          let earliest = foldl max need needs in
          if movable t then Inr (tasks[i := t\<lparr>tS := earliest, tE := earliest + tD t\<rparr>], conflicts)
          else if tS t < earliest
          then rbind (reportConflicts calendar origin index deps tasks t (tPreds t)) (\<lambda>found. Inr (tasks, conflicts @ found))
          else Inr state)"

fun forwardPass :: "Workdays \<Rightarrow> Day \<Rightarrow> index \<Rightarrow> Dependency list \<Rightarrow> nat list \<Rightarrow> task list \<times> Conflict list
    \<Rightarrow> (task list \<times> Conflict list) result" where
  "forwardPass calendar origin index deps [] state = Inr state"
| "forwardPass calendar origin index deps (i # order) state =
     rbind (forwardStep calendar origin index deps state i) (forwardPass calendar origin index deps order)"

definition childrenSpan :: "task list \<Rightarrow> index \<Rightarrow> task \<Rightarrow> (int \<times> int) option" where
  "childrenSpan tasks index t =
     (case filter (\<lambda>child. EntryParentID (tEntry child) = EntryID (tEntry t) \<and> index (EntryID (tEntry child)) \<noteq> None) tasks of
        [] \<Rightarrow> None
      | child # children \<Rightarrow> Some (foldl min (tS child) (map tS children), foldl max (tE child) (map tE children)))"

definition rollUpTask :: "index \<Rightarrow> task list \<times> bool \<Rightarrow> nat \<Rightarrow> task list \<times> bool" where
  "rollUpTask index state i =
     (let (tasks, changed) = state; t = tasks ! i in
      if \<not> tSummary t then state
      else case childrenSpan tasks index t of
             None \<Rightarrow> state
           | Some (s, e) \<Rightarrow>
               if (tS t \<noteq> s \<or> tE t \<noteq> e) \<and> EntryMode (tEntry t) = Automatic \<and> \<not> EntryDone (tEntry t)
               then (tasks[i := t\<lparr>tS := s, tE := e, tD := e - s\<rparr>], True)
               else state)"

fun rollUpRounds :: "nat \<Rightarrow> index \<Rightarrow> task list \<Rightarrow> task list" where
  "rollUpRounds 0 index tasks = tasks"
| "rollUpRounds (Suc n) index tasks =
     (let (tasks', changed) = foldl (rollUpTask index) (tasks, False) [0..<length tasks]
      in if changed then rollUpRounds n index tasks' else tasks')"

definition rollUpSpans :: "task list \<Rightarrow> index \<Rightarrow> task list" where
  "rollUpSpans tasks index = rollUpRounds (length tasks) index tasks"

definition planEnd :: "task list \<Rightarrow> int" where
  "planEnd tasks = foldl max (tE (tasks ! 0)) (map tE tasks)"

definition backwardStep :: "index \<Rightarrow> Dependency list \<Rightarrow> int \<Rightarrow> task list \<Rightarrow> nat \<Rightarrow> task list" where
  "backwardStep index deps finish tasks i =
     (let t = tasks ! i;
          le = foldl (\<lambda>le k. min le (latestEnd t (tasks ! successor index deps k) (DepTiming (deps ! k)))) finish (tSuccs t)
      in tasks[i := t\<lparr>tLE := le, tLS := le - tD t\<rparr>])"

definition backwardPass :: "index \<Rightarrow> Dependency list \<Rightarrow> int \<Rightarrow> nat list \<Rightarrow> task list \<Rightarrow> task list" where
  "backwardPass index deps finish order tasks = foldl (backwardStep index deps finish) tasks (rev order)"

section \<open>The answer\<close>

text \<open>The first and the last day of a task; a milestone is the end of the working day before it.\<close>

definition taskDays :: "Workdays \<Rightarrow> Day \<Rightarrow> task \<Rightarrow> (Day \<times> Day) result" where
  "taskDays calendar origin t =
     rbind (dayAt calendar origin (tS t)) (\<lambda>start.
       if tD t > 0 then rbind (dayAt calendar origin (tE t - 1)) (\<lambda>finish. Inr (start, finish))
       else rbind (dayAt calendar origin (tS t - 1)) (\<lambda>finish. Inr (finish, finish)))"

definition freeFloat :: "index \<Rightarrow> Dependency list \<Rightarrow> int \<Rightarrow> task list \<Rightarrow> task \<Rightarrow> int" where
  "freeFloat index deps finish tasks t =
     foldl (\<lambda>free k. min free (slack t (tasks ! successor index deps k) (DepTiming (deps ! k)))) (finish - tE t) (tSuccs t)"

definition placementOf :: "Workdays \<Rightarrow> Day \<Rightarrow> index \<Rightarrow> Dependency list \<Rightarrow> int \<Rightarrow> task list \<Rightarrow> task \<Rightarrow> PlanPlacement result" where
  "placementOf calendar origin index deps finish tasks t =
     rbind (taskDays calendar origin t) (\<lambda>(start, last).
       let total = tLS t - tS t in
       Inr \<lparr>PlacedID = EntryID (tEntry t), PlacedStart = start, PlacedFinish = last, PlacedDuration = tD t,
            PlacedMoved = (EntryMode (tEntry t) = Automatic \<and> \<not> EntryDone (tEntry t)
              \<and> (start \<noteq> tOriginalStart t \<or> last \<noteq> tOriginalEnd t)),
            TotalFloat = total, FreeFloat = freeFloat index deps finish tasks t,
            Critical = (total \<le> 0 \<and> \<not> tSummary t), PlacedSummary = tSummary t\<rparr>)"

fun placementsOf :: "Workdays \<Rightarrow> Day \<Rightarrow> index \<Rightarrow> Dependency list \<Rightarrow> int \<Rightarrow> task list \<Rightarrow> task list \<Rightarrow> PlanPlacement list result" where
  "placementsOf calendar origin index deps finish tasks [] = Inr []"
| "placementsOf calendar origin index deps finish tasks (t # ts) =
     rbind (placementOf calendar origin index deps finish tasks t) (\<lambda>p.
     rbind (placementsOf calendar origin index deps finish tasks ts) (\<lambda>ps. Inr (p # ps)))"

text \<open>What the passes leave: the tasks with their early and late dates, and the conflicts.\<close>

record run =
  runOrigin :: Day
  runIndex :: index
  runDeps :: "Dependency list"
  runTasks :: "task list"
  runEnd :: int
  runConflicts :: "Conflict list"

definition runPasses :: "Workdays \<Rightarrow> Day \<Rightarrow> index \<Rightarrow> task list \<Rightarrow> Dependency list \<Rightarrow> run result" where
  "runPasses calendar origin index tasks dependencies =
     rbind (placeTasks calendar origin tasks) (\<lambda>tasks.
       let (tasks, deps) = foldl (linkDep index) (tasks, []) dependencies in
       rbind (topological tasks deps index) (\<lambda>order.
       rbind (forwardPass calendar origin index deps order (tasks, [])) (\<lambda>(tasks, conflicts).
         let tasks = rollUpSpans tasks index; finish = planEnd tasks in
         Inr \<lparr>runOrigin = origin, runIndex = index, runDeps = deps, runTasks = backwardPass index deps finish order tasks,
              runEnd = finish, runConflicts = conflicts\<rparr>)))"

definition Schedule :: "Plan \<Rightarrow> ScheduleResult result" where
  "Schedule plan =
     (if length (PlanEntries plan) > MaxEntries
      then Inl (Failure (WithParams (WithDetail ErrValidation ''planning.too_many_entries'') [(''maximum'', ''2000'')]))
      else case PlanCalendar plan of
        None \<Rightarrow> Inl (Failure (WithDetail ErrInternal ''planning.calendar_missing''))
      | Some calendar \<Rightarrow>
          let (index, tasks, unscheduled, origin) = collect (PlanEntries plan) in
          case origin of
            None \<Rightarrow> Inr \<lparr>Placements = [], Unscheduled = unscheduled, Conflicts = [], ResultFinish = 0, CriticalPath = []\<rparr>
          | Some first \<Rightarrow>
              rbind (runPasses calendar (first - backwardRoom) index tasks (PlanDependencies plan)) (\<lambda>r.
              rbind (placementsOf calendar (runOrigin r) index (runDeps r) (runEnd r) (runTasks r) (runTasks r)) (\<lambda>placements.
              rbind (dayAt calendar (runOrigin r) (runEnd r - 1)) (\<lambda>finish.
                Inr \<lparr>Placements = placements, Unscheduled = unscheduled, Conflicts = runConflicts r, ResultFinish = finish,
                     CriticalPath = map PlacedID (filter Critical (sort_key PlacedStart placements))\<rparr>))))"

end
