(* ===== verification/Schedule_Order.thy ===== *)
theory Schedule_Order
  imports Schedule
begin

text \<open>
  The order in which the scheduler visits the entries of a plan.  The queue of \<^verbatim>\<open>topological\<close> is followed over a
  graph of numbered edges; the links that the dependencies of a plan leave in its tasks are such a graph.
\<close>

section \<open>Counting edges\<close>

definition into :: "(nat \<Rightarrow> nat) \<Rightarrow> nat \<Rightarrow> nat \<Rightarrow> nat list" where
  "into tgt m i = filter (\<lambda>k. tgt k = i) [0..<m]"

lemma set_into [simp]: "set (into tgt m i) = {k. k < m \<and> tgt k = i}"
  by (auto simp: into_def)

lemma into_Suc: "into tgt (Suc m) i = into tgt m i @ (if tgt m = i then [m] else [])"
  by (simp add: into_def)

lemma into_cong: "(\<And>k. k < m \<Longrightarrow> tgt k = tgt' k) \<Longrightarrow> into tgt m i = into tgt' m i"
  unfolding into_def by (rule filter_cong) auto

definition waits :: "(nat \<Rightarrow> nat) \<Rightarrow> (nat \<Rightarrow> nat) \<Rightarrow> nat \<Rightarrow> nat set \<Rightarrow> nat \<Rightarrow> nat" where
  "waits src tgt m done i = length (filter (\<lambda>k. src k \<notin> done) (into tgt m i))"

lemma waits_0: "waits src tgt m done i = 0 \<longleftrightarrow> (\<forall>k < m. tgt k = i \<longrightarrow> src k \<in> done)"
  by (auto simp: waits_def filter_empty_conv)

lemma count_map: "count_list (map f xs) y = length (filter (\<lambda>x. f x = y) xs)"
  by (induction xs) auto

lemma waits_insert:
  assumes "i \<notin> done"
  shows "waits src tgt m done s = waits src tgt m (insert i done) s + count_list (map tgt (into src m i)) s"
proof -
  have "length (filter (\<lambda>k. src k \<notin> done) ks)
      = length (filter (\<lambda>k. src k \<notin> insert i done) ks) + length (filter (\<lambda>k. src k = i) ks)" for ks
    using assms by (induction ks) auto
  moreover have "count_list (map tgt (into src m i)) s = length (filter (\<lambda>k. src k = i) (into tgt m s))"
    by (simp add: into_def count_map conj_commute)
  ultimately show ?thesis unfolding waits_def by presburger
qed

section \<open>The queue\<close>

lemma release_counts:
  assumes "release waiting queue ss = (waiting', queue')" "\<forall>s \<in> set ss. s < length waiting"
    and "\<forall>s < length waiting. int (count_list ss s) \<le> waiting ! s"
  shows "length waiting' = length waiting \<and> (\<forall>s < length waiting. waiting' ! s = waiting ! s - int (count_list ss s))
    \<and> (\<exists>new. queue' = queue @ new \<and> distinct new \<and> set new = {s \<in> set ss. waiting ! s = int (count_list ss s)})"
  using assms
proof (induction waiting queue ss arbitrary: waiting' queue' rule: release.induct)
  case (2 waiting queue s ss)
  let ?w = "waiting[s := waiting ! s - 1]" and ?q = "if waiting ! s - 1 = 0 then queue @ [s] else queue"
  have s: "s < length waiting" using 2(4) by simp
  have least: "\<forall>x < length ?w. int (count_list ss x) \<le> ?w ! x"
  proof (intro allI impI)
    fix x assume "x < length ?w"
    then show "int (count_list ss x) \<le> ?w ! x" using 2(5) [rule_format, of x] s by (cases "x = s") auto
  qed
  from 2(1) [OF s refl, of waiting' queue'] 2(3,4) s least obtain new where
    len: "length waiting' = length waiting" and
    counts: "\<forall>x < length waiting. waiting' ! x = ?w ! x - int (count_list ss x)" and
    new: "queue' = ?q @ new" "distinct new" "set new = {x \<in> set ss. ?w ! x = int (count_list ss x)}"
    by (auto simp: Let_def)
  have "\<forall>x < length waiting. waiting' ! x = waiting ! x - int (count_list (s # ss) x)"
    using counts by (auto simp: nth_list_update)
  moreover have "\<exists>new'. queue' = queue @ new' \<and> distinct new' \<and> set new' = {x \<in> set (s # ss). waiting ! x = int (count_list (s # ss) x)}"
  proof (cases "waiting ! s = 1")
    case True
    then have "count_list ss s = 0" using 2(5) s by force
    then have "s \<notin> set ss" by (simp add: count_list_0_iff)
    then have same: "?w ! x = waiting ! x \<and> count_list (s # ss) x = count_list ss x" if "x \<in> set ss" for x using that by auto
    have "set new = {x \<in> set ss. waiting ! x = int (count_list (s # ss) x)}" unfolding new(3) by (rule Collect_cong) (use same in metis)
    then have "set (s # new) = {x \<in> set (s # ss). waiting ! x = int (count_list (s # ss) x)}" using True \<open>count_list ss s = 0\<close> by auto
    moreover have "distinct (s # new)" using new(2,3) \<open>s \<notin> set ss\<close> by simp
    moreover have "queue' = queue @ s # new" using new(1) True by simp
    ultimately show ?thesis by blast
  next
    case False
    have "s \<in> set ss" if "waiting ! s = int (count_list (s # ss) s)"
    proof (rule ccontr)
      assume "s \<notin> set ss"
      then show False using that False by (simp add: count_notin)
    qed
    then have "{x \<in> set ss. ?w ! x = int (count_list ss x)} = {x \<in> set (s # ss). waiting ! x = int (count_list (s # ss) x)}"
      using s by (auto simp: nth_list_update)
    moreover have "?q = queue" using False by simp
    ultimately show ?thesis using new by (intro exI [of _ new]) simp
  qed
  ultimately show ?case using len by blast
qed auto

definition visited_before :: "(nat \<Rightarrow> nat) \<Rightarrow> (nat \<Rightarrow> nat) \<Rightarrow> nat \<Rightarrow> nat list \<Rightarrow> bool" where
  "visited_before src tgt m order \<longleftrightarrow> (\<forall>xs i ys. order = xs @ i # ys \<longrightarrow> (\<forall>k < m. tgt k = i \<longrightarrow> src k \<in> set xs))"

lemma visited_before_Nil [simp]: "visited_before src tgt m []"
  by (simp add: visited_before_def)

lemma visited_before_snoc:
  assumes "visited_before src tgt m order" "\<forall>k < m. tgt k = i \<longrightarrow> src k \<in> set order"
  shows "visited_before src tgt m (order @ [i])"
  unfolding visited_before_def
proof (intro allI impI)
  fix xs j ys k
  assume split: "order @ [i] = xs @ j # ys" and k: "k < m" "tgt k = j"
  show "src k \<in> set xs"
  proof (cases ys rule: rev_cases)
    case Nil
    then show ?thesis using split k assms(2) by simp
  next
    case (snoc zs z)
    then have "order = xs @ j # zs" using split by simp
    then show ?thesis using assms(1) k by (auto simp: visited_before_def)
  qed
qed

definition topo_ok :: "nat \<Rightarrow> (nat \<Rightarrow> nat) \<Rightarrow> (nat \<Rightarrow> nat) \<Rightarrow> nat \<Rightarrow> int list \<Rightarrow> nat list \<Rightarrow> nat list \<Rightarrow> bool" where
  "topo_ok n src tgt m waiting queue order \<longleftrightarrow> length waiting = n \<and> distinct (order @ queue) \<and> set (order @ queue) \<subseteq> {..<n}
     \<and> (\<forall>i < n. waiting ! i = int (waits src tgt m (set order) i))
     \<and> (\<forall>i < n. waits src tgt m (set order) i = 0 \<longleftrightarrow> i \<in> set (order @ queue)) \<and> visited_before src tgt m order"

lemma topo_step:
  assumes edges: "\<forall>k < m. tgt k < n" and ok: "topo_ok n src tgt m waiting (i # queue) order"
    and release: "release waiting queue (map tgt (into src m i)) = (waiting', queue')"
  shows "topo_ok n src tgt m waiting' queue' (order @ [i])"
proof -
  let ?ss = "map tgt (into src m i)" and ?done = "set order"
  note o = ok [unfolded topo_ok_def]
  have i: "i \<notin> ?done" "i < n" using o by auto
  note split = waits_insert [OF i(1), of src tgt m]
  have "\<forall>s \<in> set ?ss. s < length waiting" "\<forall>s < length waiting. int (count_list ?ss s) \<le> waiting ! s" using o edges split by auto
  note r = release_counts [OF release this]
  have n: "length waiting = n" using o by blast
  obtain new where len: "length waiting' = n" and
    counts: "\<forall>s < n. waiting' ! s = waiting ! s - int (count_list ?ss s)" and
    new: "queue' = queue @ new" "distinct new" "set new = {s \<in> set ?ss. waiting ! s = int (count_list ?ss s)}"
    using r unfolding n by blast
  have fresh: "s \<notin> set (order @ i # queue)" if "s \<in> set new" for s
  proof
    assume "s \<in> set (order @ i # queue)"
    moreover have "s < n" "count_list ?ss s \<noteq> 0" "waits src tgt m ?done s = count_list ?ss s"
      using that new(3) o edges by (auto simp: count_list_0_iff)
    ultimately show False using o by auto
  qed
  have zero: "waits src tgt m (insert i ?done) s = 0 \<longleftrightarrow> s \<in> set ((order @ [i]) @ queue')" if "s < n" for s
  proof -
    have "waits src tgt m (insert i ?done) s = 0 \<longleftrightarrow> waits src tgt m ?done s = count_list ?ss s" using split [of s] by simp
    also have "\<dots> \<longleftrightarrow> waits src tgt m ?done s = 0 \<or> s \<in> set new"
      using new(3) o that split [of s] by (auto simp: count_list_0_iff)
    also have "\<dots> \<longleftrightarrow> s \<in> set ((order @ [i]) @ queue')" using o that new(1) by auto
    finally show ?thesis .
  qed
  have "waits src tgt m ?done i = 0" using o i by auto
  then have "visited_before src tgt m (order @ [i])" using o by (intro visited_before_snoc) (auto simp: waits_0)
  moreover have "distinct (order @ i # queue)" "set (order @ i # queue) \<subseteq> {..<n}" using o by blast+
  moreover from this have "distinct ((order @ [i]) @ queue')" using new(1,2) fresh by auto
  moreover have "set new \<subseteq> {..<n}" using new(3) edges by auto
  moreover from calculation have "set ((order @ [i]) @ queue') \<subseteq> {..<n}" using new(1) by auto
  moreover have "\<forall>s < n. waiting' ! s = int (waits src tgt m (insert i ?done) s)" using counts o split by auto
  ultimately show ?thesis using len zero by (simp add: topo_ok_def)
qed

lemma topoLoop_ok:
  assumes "\<forall>k < m. tgt k < n" "\<forall>i < n. successors i = map tgt (into src m i)" "topo_ok n src tgt m waiting queue order"
  shows "\<exists>waiting'. topo_ok n src tgt m waiting' [] (topoLoop successors waiting queue order)"
  using assms
proof (induction successors waiting queue order rule: topoLoop.induct)
  case (2 successors waiting i queue order)
  obtain waiting' queue' where r: "release waiting queue (successors i) = (waiting', queue')" by force
  have "i < n" using 2(4) by (auto simp: topo_ok_def)
  then have "topo_ok n src tgt m waiting' queue' (order @ [i])" using topo_step [OF 2(2,4)] 2(3) r by simp
  then show ?case using 2(1) [OF r [symmetric] refl] 2(2,3) r by simp
qed auto

text \<open>When the queue runs dry, what was not visited has a predecessor that was not visited either: a loop.\<close>

lemma takeWhile_first: "x \<notin> set xs \<Longrightarrow> takeWhile (\<lambda>y. y \<noteq> x) (xs @ x # ys) = xs"
  by (induction xs) auto

lemma topo_end:
  assumes ok: "topo_ok n src tgt m waiting [] order" and edges: "\<forall>k < m. src k < n \<and> tgt k < n"
  shows "length order = n \<longleftrightarrow> acyclic {(src k, tgt k) | k. k < m}"
proof
  let ?E = "{(src k, tgt k) | k. k < m}"
  note o = ok [unfolded topo_ok_def, simplified]
  assume "length order = n"
  then have all: "set order = {..<n}"
    using o by (metis card_lessThan card_subset_eq distinct_card finite_lessThan)
  define place where "place i = length (takeWhile (\<lambda>j. j \<noteq> i) order)" for i
  have "place (src k) < place (tgt k)" if "k < m" for k
  proof -
    have "tgt k \<in> set order" using all edges that by simp
    then obtain xs ys where xs: "order = xs @ tgt k # ys" "tgt k \<notin> set xs" by (blast dest: split_list_first)
    moreover have "visited_before src tgt m order" using o by blast
    ultimately have "src k \<in> set xs" using that unfolding visited_before_def by blast
    then obtain as bs where "xs = as @ src k # bs" "src k \<notin> set as" by (blast dest: split_list_first)
    then have "place (src k) = length as" "place (tgt k) = length as + Suc (length bs)"
      using xs takeWhile_first [of "src k" as "bs @ tgt k # ys"] takeWhile_first [of "tgt k" xs ys] by (simp_all add: place_def)
    then show ?thesis by simp
  qed
  then have "?E \<subseteq> measure place" by auto
  then show "acyclic ?E" by (meson acyclic_subset wf_acyclic wf_measure)
next
  let ?E = "{(src k, tgt k) | k. k < m}"
  note o = ok [unfolded topo_ok_def, simplified]
  assume "acyclic ?E"
  moreover have "finite ?E" by (rule finite_subset [of _ "(\<lambda>k. (src k, tgt k)) ` {..<m}"]) auto
  ultimately have wf: "wf ?E" by (simp add: finite_acyclic_wf)
  have "i \<in> set order" if "i < n" for i
    using wf that
  proof (induction i rule: wf_induct_rule)
    case (less i)
    have "src k \<in> set order" if "k < m" "tgt k = i" for k using less edges that by blast
    then have "waits src tgt m (set order) i = 0" by (simp add: waits_0)
    then show ?case using o less(2) by auto
  qed
  then have "set order = {..<n}" using o by auto
  then show "length order = n" using o by (metis card_lessThan distinct_card)
qed

section \<open>The links of a plan\<close>

text \<open>The index leads to the tasks and back.\<close>

definition indexed :: "index \<Rightarrow> task list \<Rightarrow> bool" where
  "indexed index tasks \<longleftrightarrow> (\<forall>p < length tasks. index (EntryID (tEntry (tasks ! p))) = Some p)
     \<and> (\<forall>i p. index i = Some p \<longrightarrow> p < length tasks \<and> EntryID (tEntry (tasks ! p)) = i)"

definition linked :: "index \<Rightarrow> task list \<Rightarrow> Dependency list \<Rightarrow> bool" where
  "linked index tasks deps \<longleftrightarrow>
     (\<forall>k < length deps. predecessor index deps k < length tasks \<and> successor index deps k < length tasks
        \<and> \<not> tSummary (tasks ! predecessor index deps k) \<and> \<not> tSummary (tasks ! successor index deps k)
        \<and> index (Predecessor (deps ! k)) \<noteq> None \<and> index (Successor (deps ! k)) \<noteq> None)
     \<and> (\<forall>i < length tasks. tPreds (tasks ! i) = into (successor index deps) (length deps) i
        \<and> tSuccs (tasks ! i) = into (predecessor index deps) (length deps) i)"

definition unlinked :: "task \<Rightarrow> task" where
  "unlinked t = t\<lparr>tPreds := [], tSuccs := []\<rparr>"

lemma edges_append:
  "k < length deps \<Longrightarrow> predecessor index (deps @ [dep]) k = predecessor index deps k"
  "k < length deps \<Longrightarrow> successor index (deps @ [dep]) k = successor index deps k"
  "predecessor index (deps @ [dep]) (length deps) = indexOf index (Predecessor dep)"
  "successor index (deps @ [dep]) (length deps) = indexOf index (Successor dep)"
  by (simp_all add: predecessor_def successor_def nth_append)

lemma linkDep_linked:
  assumes ix: "\<forall>i p. index i = Some p \<longrightarrow> p < length tasks" and ok: "linked index tasks deps"
    and link: "linkDep index (tasks, deps) dep = (tasks', deps')"
  shows "linked index tasks' deps' \<and> map unlinked tasks' = map unlinked tasks"
proof (cases "(tasks', deps') = (tasks, deps)")
  case False
  then obtain p s where ps: "index (Predecessor dep) = Some p" "index (Successor dep) = Some s" "p \<noteq> s"
    "\<not> tSummary (tasks ! p)" "\<not> tSummary (tasks ! s)"
    using link by (auto simp: linkDep_def split: option.splits if_splits)
  define dep' where "dep' = (if TimingKind (DepTiming dep) = NoKind
     then dep\<lparr>DepTiming := (DepTiming dep)\<lparr>TimingKind := FinishToStart\<rparr>\<rparr> else dep)"
  have ends: "Predecessor dep' = Predecessor dep" "Successor dep' = Successor dep" by (simp_all add: dep'_def)
  have in_range: "p < length tasks" "s < length tasks" using ix ps by blast+
  have deps': "deps' = deps @ [dep']" and
    tasks': "tasks' = tasks[p := (tasks ! p)\<lparr>tSuccs := tSuccs (tasks ! p) @ [length deps]\<rparr>,
      s := (tasks ! s)\<lparr>tPreds := tPreds (tasks ! s) @ [length deps]\<rparr>]"
    using link ps by (auto simp: linkDep_def dep'_def Let_def)
  have new: "predecessor index deps' (length deps) = p" "successor index deps' (length deps) = s"
    using ps by (simp_all add: deps' edges_append ends indexOf_def)
  have old: "predecessor index deps' k = predecessor index deps k" "successor index deps' k = successor index deps k"
    "deps' ! k = deps ! k" if "k < length deps" for k
    using that by (simp_all add: deps' edges_append nth_append)
  have at: "tasks' ! i = (tasks ! i)\<lparr>tPreds := tPreds (tasks ! i) @ (if i = s then [length deps] else []),
      tSuccs := tSuccs (tasks ! i) @ (if i = p then [length deps] else [])\<rparr>" if "i < length tasks" for i
    using that ps(3) in_range by (auto simp: tasks' nth_list_update)
  have len: "length tasks' = length tasks" by (simp add: tasks')
  have same: "into (successor index deps') (length deps) i = into (successor index deps) (length deps) i"
    "into (predecessor index deps') (length deps) i = into (predecessor index deps) (length deps) i" for i
    by (auto intro: into_cong simp: old)
  have "length deps' = Suc (length deps)" by (simp add: deps')
  then have lists: "tPreds (tasks' ! i) = into (successor index deps') (length deps') i"
    "tSuccs (tasks' ! i) = into (predecessor index deps') (length deps') i" if "i < length tasks" for i
    using that ok at [OF that] by (auto simp: linked_def same into_Suc new)
  have "predecessor index deps' k < length tasks \<and> successor index deps' k < length tasks
      \<and> \<not> tSummary (tasks' ! predecessor index deps' k) \<and> \<not> tSummary (tasks' ! successor index deps' k)
      \<and> index (Predecessor (deps' ! k)) \<noteq> None \<and> index (Successor (deps' ! k)) \<noteq> None" if "k < length deps'" for k
  proof (cases "k = length deps")
    case True
    then show ?thesis using new in_range ps at ends by (simp add: deps')
  next
    case False
    then have "k < length deps" using that by (simp add: deps')
    then show ?thesis using ok at by (auto simp: linked_def old)
  qed
  moreover have "map unlinked tasks' = map unlinked tasks"
    by (rule nth_equalityI) (auto simp: len at unlinked_def)
  ultimately show ?thesis using lists len by (auto simp: linked_def)
qed (use ok in auto)

lemma link_linked:
  assumes "\<forall>i p. index i = Some p \<longrightarrow> p < length tasks" "linked index tasks deps"
    and "foldl (linkDep index) (tasks, deps) dependencies = (tasks', deps')"
  shows "linked index tasks' deps' \<and> map unlinked tasks' = map unlinked tasks"
  using assms
proof (induction dependencies arbitrary: tasks deps)
  case (Cons dep dependencies)
  obtain tasks1 deps1 where step: "linkDep index (tasks, deps) dep = (tasks1, deps1)" by force
  have first: "linked index tasks1 deps1 \<and> map unlinked tasks1 = map unlinked tasks"
    using linkDep_linked [of index tasks deps dep tasks1 deps1] Cons.prems(1,2) step by blast
  have "length tasks1 = length tasks" using first by (metis length_map)
  then show ?case using Cons.IH [of tasks1 deps1] Cons.prems(1,3) step first by auto
qed auto

lemma unlinked_start: "(\<And>t. t \<in> set tasks \<Longrightarrow> tPreds t = [] \<and> tSuccs t = []) \<Longrightarrow> linked index tasks []"
  by (simp add: linked_def into_def)

section \<open>The order\<close>

definition dependency_edges :: "index \<Rightarrow> Dependency list \<Rightarrow> (nat \<times> nat) set" where
  "dependency_edges index deps = {(predecessor index deps k, successor index deps k) | k. k < length deps}"

lemma topological_order:
  assumes ok: "linked index tasks deps"
  shows "if acyclic (dependency_edges index deps)
    then \<exists>order. topological tasks deps index = Inr order \<and> distinct order \<and> set order = {..<length tasks}
      \<and> visited_before (predecessor index deps) (successor index deps) (length deps) order
    else topological tasks deps index = Inl (Failure (WithDetail ErrConflict ''planning.cycle''))"
proof -
  let ?n = "length tasks" and ?m = "length deps" and ?src = "predecessor index deps" and ?tgt = "successor index deps"
  let ?waiting = "map (\<lambda>t. int (length (tPreds t))) tasks"
  let ?queue = "filter (\<lambda>i. ?waiting ! i = 0) [0..<?n]"
  let ?successors = "\<lambda>i. map (\<lambda>k. indexOf index (Successor (deps ! k))) (tSuccs (tasks ! i))"
  have edges: "\<forall>k < ?m. ?src k < ?n \<and> ?tgt k < ?n" using ok by (simp add: linked_def)
  have succs: "\<forall>i < ?n. ?successors i = map ?tgt (into ?src ?m i)"
    using ok by (simp add: linked_def successor_def)
  have "topo_ok ?n ?src ?tgt ?m ?waiting ?queue []"
    using ok by (auto simp: topo_ok_def linked_def waits_def)
  then obtain waiting' where final: "topo_ok ?n ?src ?tgt ?m waiting' [] (topoLoop ?successors ?waiting ?queue [])"
    using topoLoop_ok [OF _ succs] edges by blast
  let ?order = "topoLoop ?successors ?waiting ?queue []"
  have ends: "length ?order = ?n \<longleftrightarrow> acyclic (dependency_edges index deps)"
    using topo_end [OF final] edges by (simp add: dependency_edges_def)
  have result: "topological tasks deps index
      = (if length ?order \<noteq> ?n then Inl (Failure (WithDetail ErrConflict ''planning.cycle'')) else Inr ?order)"
    by (simp add: topological_def Let_def)
  have order: "distinct ?order" "set ?order \<subseteq> {..<?n}" "visited_before ?src ?tgt ?m ?order"
    using final by (simp_all add: topo_ok_def)
  then have "set ?order = {..<?n}" if "length ?order = ?n"
    using that by (metis card_lessThan card_subset_eq distinct_card finite_lessThan)
  then show ?thesis using ends result order by auto
qed

end
