(* ===== verification/Schedule_Laws.thy ===== *)
theory Schedule_Laws
  imports Schedule_Order
begin

text \<open>
  What the passes of the scheduler establish: the axis numbers the working days in order, the forward pass keeps
  every dependency or reports it, the roll-up touches summaries only, the backward pass measures the float.
\<close>

section \<open>The axis\<close>

definition workdays :: "Workdays \<Rightarrow> Day \<Rightarrow> Day \<Rightarrow> Day list" where
  "workdays calendar origin until = filter calendar [origin..until - 1]"

lemma workdays_next:
  "origin \<le> at \<Longrightarrow> workdays calendar origin (at + 1) = workdays calendar origin at @ (if calendar at then [at] else [])"
  by (simp add: workdays_def upto_rec2)

lemma workdays_sorted: "sorted_wrt (<) (workdays calendar origin until)"
  by (simp add: workdays_def sorted_wrt_filter sorted_wrt_upto)

lemma take_sorted:
  fixes xs :: "int list"
  assumes "sorted_wrt (<) xs" "i < length xs"
  shows "set (take i xs) = {x \<in> set xs. x < xs ! i}"
proof (intro set_eqI iffI)
  fix x assume "x \<in> set (take i xs)"
  then obtain j where "j < i" "x = xs ! j" using assms(2) by (auto simp: in_set_conv_nth)
  then show "x \<in> {x \<in> set xs. x < xs ! i}" using assms by (auto simp: sorted_wrt_iff_nth_less)
next
  fix x assume "x \<in> {x \<in> set xs. x < xs ! i}"
  then obtain j where j: "j < length xs" "x = xs ! j" "xs ! j < xs ! i" by (auto simp: in_set_conv_nth)
  then have "j < i" using assms by (metis linorder_neqE_nat not_less_iff_gr_or_eq sorted_wrt_iff_nth_less)
  then show "x \<in> set (take i xs)" using j(1,2) by (auto simp: in_set_conv_nth intro!: exI [of _ j])
qed

lemma workdays_nth:
  assumes "i < length (workdays calendar origin until)"
  shows "workdays calendar origin (workdays calendar origin until ! i) = take i (workdays calendar origin until)"
proof (rule strict_sorted_unique)
  let ?xs = "workdays calendar origin until"
  have "?xs ! i \<in> set ?xs" using assms by simp
  then have "?xs ! i < until" by (auto simp: workdays_def)
  then show "set (workdays calendar origin (?xs ! i)) = set (take i ?xs)"
    by (subst take_sorted [OF workdays_sorted assms]) (auto simp: workdays_def)
qed (simp_all add: workdays_sorted sorted_wrt_take)

lemma axisGrow_workdays:
  "axisGrow calendar origin i (workdays calendar origin at) at = Some days \<Longrightarrow> origin \<le> at \<Longrightarrow> at \<le> origin + maxReachDays + 1 \<Longrightarrow>
   \<exists>until. until \<le> origin + maxReachDays + 1 \<and> days = workdays calendar origin until \<and> i < length days"
proof (induction "nat (origin + maxReachDays + 1 - at)" arbitrary: at rule: less_induct)
  case less
  have "axisGrow calendar origin i (workdays calendar origin at) at =
      (if i < length (workdays calendar origin at) then Some (workdays calendar origin at)
       else if at - origin > maxReachDays then None
       else axisGrow calendar origin i (workdays calendar origin (at + 1)) (at + 1))"
    using less.prems(2) by (subst axisGrow.simps) (simp add: workdays_next)
  then show ?case using less.prems less.hyps [of "at + 1"] by (auto split: if_splits)
qed

lemma dayAt_workday:
  assumes "dayAt calendar origin i = Inr day"
  shows "calendar day \<and> origin \<le> day \<and> day \<le> origin + maxReachDays \<and> i = int (length (workdays calendar origin day))"
proof -
  obtain days where i: "0 \<le> i" "axisGrow calendar origin (nat i) (workdays calendar origin origin) origin = Some days"
    "day = days ! nat i"
    using assms by (auto simp: dayAt_def axisDay_def newAxis_def workdays_def go_result split: if_splits option.splits)
  from axisGrow_workdays [OF i(2)] obtain until where
    u: "until \<le> origin + maxReachDays + 1" "days = workdays calendar origin until" "nat i < length days"
    by (auto simp: maxReachDays_def)
  then have "day \<in> set (workdays calendar origin until)" using i(3) by simp
  then show ?thesis using u i workdays_nth [of "nat i" calendar origin until] by (auto simp: workdays_def)
qed

lemma dayAt_mono:
  assumes "dayAt calendar origin i = Inr x" "dayAt calendar origin j = Inr y"
  shows "x < y \<longleftrightarrow> i < j"
proof -
  have less: "a < b" if "dayAt calendar origin a = Inr u" "dayAt calendar origin b = Inr v" "u < v" for a b u v
  proof -
    note u = dayAt_workday [OF that(1)] and v = dayAt_workday [OF that(2)]
    have "set (workdays calendar origin u) \<subset> set (workdays calendar origin v)" using u v that(3) by (auto simp: workdays_def)
    moreover have "card (set (workdays calendar origin d)) = length (workdays calendar origin d)" for d
      using workdays_sorted by (metis distinct_card strict_sorted_iff)
    ultimately show ?thesis using u v by (metis List.finite_set of_nat_less_iff psubset_card_mono)
  qed
  show ?thesis
  proof (cases x y rule: linorder_cases)
    case equal
    then have "i = j" using dayAt_workday [OF assms(1)] dayAt_workday [OF assms(2)] by simp
    with equal show ?thesis by simp
  qed (use less [OF assms] less [OF assms(2,1)] in auto)
qed

lemma axisGrow_later:
  assumes "origin \<le> at" "at \<le> origin + maxReachDays + 1"
  shows "\<exists>u. origin \<le> u \<and> u \<le> at \<and> axisGrow calendar origin i [] origin = axisGrow calendar origin i (workdays calendar origin u) u
    \<and> (u = at \<or> i < length (workdays calendar origin u))"
  using assms
proof (induction at rule: int_ge_induct)
  case base
  then show ?case by (auto simp: workdays_def)
next
  case (step at)
  then obtain u where u: "origin \<le> u" "u \<le> at" "axisGrow calendar origin i [] origin = axisGrow calendar origin i (workdays calendar origin u) u"
    "u = at \<or> i < length (workdays calendar origin u)" by auto
  show ?case
  proof (cases "i < length (workdays calendar origin u)")
    case True
    then show ?thesis using u by (intro exI [of _ u]) auto
  next
    case False
    then have "u = at" using u by simp
    moreover have "axisGrow calendar origin i (workdays calendar origin at) at
        = axisGrow calendar origin i (workdays calendar origin (at + 1)) (at + 1)"
      using False step.prems step.hyps \<open>u = at\<close> by (subst axisGrow.simps) (simp add: workdays_next)
    ultimately show ?thesis using u step.hyps by (intro exI [of _ "at + 1"]) auto
  qed
qed

lemma workdays_split:
  "origin \<le> u \<Longrightarrow> u \<le> v \<Longrightarrow> workdays calendar origin v = workdays calendar origin u @ filter calendar [u..v - 1]"
  using upto_split1 [of origin u "v - 1"] by (cases "u = v") (simp_all add: workdays_def)

lemma sorted_last: "sorted_wrt (<) xs \<Longrightarrow> x \<in> set xs \<Longrightarrow> x \<le> last xs" for xs :: "int list"
  by (cases xs rule: rev_cases) (auto simp: sorted_wrt_append less_imp_le)

lemma workdays_trim:
  assumes "workdays calendar origin until \<noteq> []"
  shows "workdays calendar origin (last (workdays calendar origin until) + 1) = workdays calendar origin until"
proof (rule strict_sorted_unique)
  let ?xs = "workdays calendar origin until"
  have "last ?xs \<in> set ?xs" using assms by simp
  then have "last ?xs < until" by (auto simp: workdays_def)
  then show "set (workdays calendar origin (last ?xs + 1)) = set ?xs"
    using sorted_last [OF workdays_sorted, of _ calendar origin until] by (auto simp: workdays_def)
qed (simp_all add: workdays_sorted)

text \<open>An axis that has already found the working days up to some day answers as a new one does.\<close>

lemma axisDay_cached:
  assumes "axisDays a = workdays (axisCalendar a) (axisOrigin a) until" "until \<le> axisOrigin a + maxReachDays + 1"
  shows "rbind (axisDay a i) (\<lambda>(a', day). Inr day) = dayAt (axisCalendar a) (axisOrigin a) i"
proof (cases "i < 0 \<or> axisDays a = []")
  case True
  then show ?thesis by (auto simp: dayAt_def axisDay_def newAxis_def split: option.splits)
next
  case False
  let ?c = "axisCalendar a" and ?o = "axisOrigin a" and ?at = "last (axisDays a) + 1"
  have "last (axisDays a) \<in> set (axisDays a)" using False by simp
  then have last: "?o \<le> last (axisDays a)" "last (axisDays a) < until" by (auto simp: assms(1) workdays_def)
  have days: "axisDays a = workdays ?c ?o ?at" using workdays_trim [of ?c ?o until] assms(1) False by simp
  obtain u where u: "?o \<le> u" "u \<le> ?at" "axisGrow ?c ?o (nat i) [] ?o = axisGrow ?c ?o (nat i) (workdays ?c ?o u) u"
    "u = ?at \<or> nat i < length (workdays ?c ?o u)"
    using axisGrow_later [of ?o ?at ?c "nat i"] last assms(2) by auto
  show ?thesis
  proof (cases "u = ?at")
    case True
    then show ?thesis using False u(3) days by (auto simp: dayAt_def axisDay_def newAxis_def split: option.splits)
  next
    case before: False
    then have short: "nat i < length (workdays ?c ?o u)" using u by simp
    obtain more where "axisDays a = workdays ?c ?o u @ more" using workdays_split [OF u(1,2)] days by metis
    then have "nat i < length (axisDays a)" "axisDays a ! nat i = workdays ?c ?o u ! nat i"
      using short by (simp_all add: nth_append)
    then show ?thesis
      using u(3) short False
      by (simp add: dayAt_def axisDay_def newAxis_def axisGrow.simps [of ?c ?o "nat i" "axisDays a"]
          axisGrow.simps [of ?c ?o "nat i" "workdays ?c ?o u" u])
  qed
qed

text \<open>An index is on the axis exactly when there is a working day with as many before it.\<close>

lemma dayAt_iff:
  "dayAt calendar origin i = Inr day \<longleftrightarrow>
     calendar day \<and> origin \<le> day \<and> day \<le> origin + maxReachDays \<and> i = int (length (workdays calendar origin day))"
proof (intro iffI dayAt_workday)
  assume day: "calendar day \<and> origin \<le> day \<and> day \<le> origin + maxReachDays \<and> i = int (length (workdays calendar origin day))"
  let ?days = "workdays calendar origin"
  obtain u where u: "origin \<le> u" "u \<le> day" "axisGrow calendar origin (nat i) [] origin = axisGrow calendar origin (nat i) (?days u) u"
    "u = day \<or> nat i < length (?days u)" using axisGrow_later [of origin day calendar "nat i"] day by auto
  have "length (?days u) \<le> length (?days day)" using workdays_split [OF u(1,2), of calendar] by simp
  then have "u = day" using u(4) day by simp
  moreover have "axisGrow calendar origin (nat i) (?days day) day = Some (?days day @ [day])"
    using day by (subst axisGrow.simps, subst axisGrow.simps) simp
  ultimately show "dayAt calendar origin i = Inr day" using u(3) day by (simp add: dayAt_def axisDay_def newAxis_def nth_append)
qed

section \<open>A calendar without days off\<close>

lemma everyday_day: "0 \<le> i \<Longrightarrow> i \<le> maxReachDays \<Longrightarrow> dayAt (\<lambda>_. True) origin i = Inr (origin + i)"
  by (simp add: dayAt_iff workdays_def)

lemma everyday_after: "origin \<le> target \<Longrightarrow> target \<le> origin + maxReachDays \<Longrightarrow> atOrAfter (\<lambda>_. True) origin target = Inr (target - origin)"
proof -
  assume t: "origin \<le> target" "target \<le> origin + maxReachDays"
  have "atOrAfterFrom (\<lambda>_. True) origin target i = Inr (target - origin)" if "0 \<le> i" "i \<le> target - origin" for i
    using that
  proof (induction "nat (target - origin - i)" arbitrary: i)
    case 0
    then show ?case using t everyday_day [of i origin] by (subst atOrAfterFrom.simps) simp
  next
    case (Suc n)
    then show ?case using t everyday_day [of i origin] by (subst atOrAfterFrom.simps) simp
  qed
  then show ?thesis using t by (simp add: atOrAfter_def)
qed

lemma everyday_before: "origin \<le> target \<Longrightarrow> target \<le> origin + maxReachDays \<Longrightarrow> atOrBefore (\<lambda>_. True) origin target = Inr (target - origin)"
  using everyday_day [of "target - origin" origin] by (simp add: atOrBefore_def everyday_after)

end
