(* ===== verification/Schedule_Passes.thy ===== *)
theory Schedule_Passes
  imports Schedule_Laws
begin

text \<open>
  The passes over a linked plan, visited in an order in which predecessors come first: the forward pass keeps
  every dependency or reports it, the roll-up touches summaries only, the backward pass measures the float.
\<close>

section \<open>Folds over a list\<close>

lemma foldl_max:
  fixes a :: "'a::linorder"
  shows "a \<le> foldl max a xs" "x \<in> set xs \<Longrightarrow> x \<le> foldl max a xs" "foldl max a xs = a \<or> foldl max a xs \<in> set xs"
proof (induction xs arbitrary: a)
  case (Cons y ys)
  { case 1 show ?case using Cons(1) [of "max a y"] by simp }
  { case 2 then show ?case using Cons(1) [of "max a y"] Cons(2) [of "max a y"] by auto }
  { case 3 show ?case using Cons(3) [of "max a y"] by (auto simp: max_def split: if_splits) }
qed auto

lemma foldl_min:
  fixes a :: "'a::linorder"
  shows "foldl (\<lambda>m k. min m (f k)) a ks \<le> a" "k \<in> set ks \<Longrightarrow> foldl (\<lambda>m k. min m (f k)) a ks \<le> f k"
    "b \<le> a \<Longrightarrow> (\<And>k. k \<in> set ks \<Longrightarrow> b \<le> f k) \<Longrightarrow> b \<le> foldl (\<lambda>m k. min m (f k)) a ks"
proof (induction ks arbitrary: a)
  case (Cons j ks)
  { case 1 show ?case using Cons(1) [of "min a (f j)"] by simp }
  { case 2 then show ?case using Cons(1) [of "min a (f j)"] Cons(2) [of "min a (f j)"] by auto }
  { case 3 then show ?case using Cons(3) [of "min a (f j)"] by auto }
qed auto

section \<open>Forward\<close>

text \<open>What the forward pass leaves of a task.\<close>

definition unplaced :: "task \<Rightarrow> task" where
  "unplaced t = t\<lparr>tS := 0, tE := 0\<rparr>"

definition kept :: "index \<Rightarrow> Dependency list \<Rightarrow> task list \<Rightarrow> nat \<Rightarrow> bool" where
  "kept index deps tasks k \<longleftrightarrow>
     0 \<le> slack (tasks ! predecessor index deps k) (tasks ! successor index deps k) (DepTiming (deps ! k))"

definition reports :: "Dependency \<Rightarrow> Conflict \<Rightarrow> bool" where
  "reports dep c \<longleftrightarrow> ConflictPredecessor c = Predecessor dep \<and> ConflictSuccessor c = Successor dep
     \<and> ConflictKind c = TimingKind (DepTiming dep)"

lemma reportConflicts_Cons:
  assumes "reportConflicts calendar origin index deps tasks t (k # ks) = Inr found"
  shows "if tS t < needOf index deps tasks t k
    then \<exists>c rest. found = c # rest \<and> reports (deps ! k) c \<and> reportConflicts calendar origin index deps tasks t ks = Inr rest
    else reportConflicts calendar origin index deps tasks t ks = Inr found"
  using assms by (auto simp: Let_def go_result reports_def split: if_split_asm)

lemma reportConflicts_found:
  assumes "reportConflicts calendar origin index deps tasks t ks = Inr found"
  shows "(\<forall>k \<in> set ks. tS t < needOf index deps tasks t k \<longrightarrow> (\<exists>c \<in> set found. reports (deps ! k) c))
    \<and> (\<forall>c \<in> set found. \<exists>k \<in> set ks. tS t < needOf index deps tasks t k \<and> reports (deps ! k) c)"
  using assms
proof (induction ks arbitrary: found)
  case (Cons k ks)
  show ?case
  proof (cases "tS t < needOf index deps tasks t k")
    case True
    then obtain c rest where "found = c # rest" "reports (deps ! k) c" "reportConflicts calendar origin index deps tasks t ks = Inr rest"
      using reportConflicts_Cons [OF Cons.prems] by auto
    with True Cons.IH show ?thesis by auto
  next
    case False
    then show ?thesis using reportConflicts_Cons [OF Cons.prems] Cons.IH by auto
  qed
qed simp

lemma earliestStart_cong:
  "tS p = tS p' \<Longrightarrow> tE p = tE p' \<Longrightarrow> tD s = tD s' \<Longrightarrow> earliestStart p s timing = earliestStart p' s' timing"
  by (simp add: earliestStart_def split: DependencyKind.splits)

definition forward_ok :: "index \<Rightarrow> Dependency list \<Rightarrow> task list \<Rightarrow> nat set \<Rightarrow> task list \<Rightarrow> Conflict list \<Rightarrow> bool" where
  "forward_ok index deps start seen tasks conflicts \<longleftrightarrow> map unplaced tasks = map unplaced start
     \<and> (\<forall>t \<in> set tasks. tE t = tS t + tD t)
     \<and> (\<forall>i < length tasks. movable (tasks ! i) \<or> tasks ! i = start ! i)
     \<and> (\<forall>k < length deps. successor index deps k \<in> seen \<longrightarrow> predecessor index deps k \<in> seen
          \<and> (kept index deps tasks k \<or> \<not> movable (tasks ! successor index deps k) \<and> (\<exists>c \<in> set conflicts. reports (deps ! k) c)))
     \<and> (\<forall>c \<in> set conflicts. \<exists>k < length deps. successor index deps k \<in> seen \<and> \<not> kept index deps tasks k \<and> reports (deps ! k) c)"

lemma unplaced_fields:
  assumes "map unplaced tasks = map unplaced start" "i < length tasks"
  shows "tEntry (tasks ! i) = tEntry (start ! i)" "tD (tasks ! i) = tD (start ! i)" "tPreds (tasks ! i) = tPreds (start ! i)"
    "tSuccs (tasks ! i) = tSuccs (start ! i)" "tSummary (tasks ! i) = tSummary (start ! i)"
proof -
  have same: "unplaced (tasks ! i) = unplaced (start ! i)" using assms by (metis length_map nth_map)
  show "tEntry (tasks ! i) = tEntry (start ! i)" "tD (tasks ! i) = tD (start ! i)" "tPreds (tasks ! i) = tPreds (start ! i)"
    "tSuccs (tasks ! i) = tSuccs (start ! i)" "tSummary (tasks ! i) = tSummary (start ! i)"
    using arg_cong [OF same, of tEntry] arg_cong [OF same, of tD] arg_cong [OF same, of tPreds] arg_cong [OF same, of tSuccs] arg_cong [OF same, of tSummary]
    by (simp_all add: unplaced_def)
qed

text \<open>Placing one task leaves the dependencies between the others as they were.\<close>

lemma kept_elsewhere:
  assumes "predecessor index deps k \<noteq> i" "successor index deps k \<noteq> i"
  shows "kept index deps (tasks[i := t]) k = kept index deps tasks k"
  using assms by (simp add: kept_def)

lemma linked_preds: "linked index tasks deps \<Longrightarrow> i < length tasks \<Longrightarrow> set (tPreds (tasks ! i)) = {k. k < length deps \<and> successor index deps k = i}"
  unfolding linked_def by simp

lemma forwardStep_ok:
  assumes linked: "linked index start deps" and ok: "forward_ok index deps start seen tasks conflicts"
    and i: "i < length tasks" "i \<notin> seen" and before: "\<forall>k < length deps. successor index deps k = i \<longrightarrow> predecessor index deps k \<in> seen"
    and step: "forwardStep calendar origin index deps (tasks, conflicts) i = Inr (tasks', conflicts')"
  shows "forward_ok index deps start (insert i seen) tasks' conflicts'"
proof -
  let ?t = "tasks ! i" and ?need = "needOf index deps tasks (tasks ! i)"
  note o = ok [unfolded forward_ok_def]
  have same: "map unplaced tasks = map unplaced start" using o by blast
  have len: "length start = length tasks" using same by (metis length_map)
  have preds: "set (tPreds ?t) = {k. k < length deps \<and> successor index deps k = i}"
    using linked_preds [OF linked, of i] i(1) unplaced_fields(3) [OF same i(1)] len by simp
  have away: "predecessor index deps k \<noteq> i" if "k \<in> set (tPreds ?t)" for k
  proof -
    have "k < length deps" "successor index deps k = i" using that unfolding preds by simp_all
    then have "predecessor index deps k \<in> seen" using before by blast
    then show ?thesis using i(2) by metis
  qed
  have kept_i: "kept index deps tasks k \<longleftrightarrow> ?need k \<le> tS ?t" if "k \<in> set (tPreds ?t)" for k
    using that preds by (simp add: kept_def slack_def needOf_def)
  have seen_away: "predecessor index deps k \<noteq> i \<and> successor index deps k \<noteq> i" if "k < length deps" "successor index deps k \<in> seen" for k
    using that o i(2) by metis
  consider (none) "tPreds ?t = []" "(tasks', conflicts') = (tasks, conflicts)"
    | (place) earliest where "movable ?t" "\<forall>k \<in> set (tPreds ?t). ?need k \<le> earliest"
        "tasks' = tasks[i := ?t\<lparr>tS := earliest, tE := earliest + tD ?t\<rparr>]" "conflicts' = conflicts"
    | (report) found where "\<not> movable ?t" "reportConflicts calendar origin index deps tasks ?t (tPreds ?t) = Inr found"
        "tasks' = tasks" "conflicts' = conflicts @ found"
    | (fits) "\<forall>k \<in> set (tPreds ?t). ?need k \<le> tS ?t" "(tasks', conflicts') = (tasks, conflicts)"
  proof (cases "tPreds ?t")
    case Nil
    then show ?thesis using none step by (simp add: forwardStep_def)
  next
    case (Cons k ks)
    let ?earliest = "foldl max (?need k) (map ?need ks)"
    have bound: "\<forall>k \<in> set (tPreds ?t). ?need k \<le> ?earliest" 
      using foldl_max(1) [of "?need k" "map ?need ks"] foldl_max(2) [of _ "map ?need ks" "?need k"] Cons by auto
    show ?thesis
    proof (cases "movable ?t")
      case True
      then show ?thesis using place [of ?earliest] bound step Cons by (simp add: forwardStep_def Let_def)
    next
      case False
      then show ?thesis
        using report fits bound step Cons by (fastforce simp: forwardStep_def Let_def go_result split: if_splits)
    qed
  qed
  then show ?thesis
  proof cases
    case none
    then have "successor index deps k \<noteq> i" if "k < length deps" for k using preds that by auto
    then show ?thesis using none o unfolding forward_ok_def by auto
  next
    case fits
    then show ?thesis using o kept_i preds before unfolding forward_ok_def by auto
  next
    case (report found)
    note r = reportConflicts_found [OF report(2), THEN conjunct1] reportConflicts_found [OF report(2), THEN conjunct2]
    have "kept index deps tasks k \<or> (\<exists>c \<in> set conflicts'. reports (deps ! k) c)" if "k \<in> set (tPreds ?t)" for k
      using that r(1) kept_i report(4) by force
    moreover have "\<exists>k < length deps. successor index deps k = i \<and> \<not> kept index deps tasks k \<and> reports (deps ! k) c" if "c \<in> set found" for c
      using that r(2) kept_i preds by force
    then have "\<forall>c \<in> set conflicts'. \<exists>k < length deps. successor index deps k \<in> insert i seen \<and> \<not> kept index deps tasks k
        \<and> reports (deps ! k) c" using o unfolding report(4) set_append by blast
    ultimately show ?thesis using o report(1,3,4) preds before unfolding forward_ok_def by auto
  next
    case (place earliest)
    let ?t' = "?t\<lparr>tS := earliest, tE := earliest + tD ?t\<rparr>"
    have new: "kept index deps tasks' k" if "k \<in> set (tPreds ?t)" for k
      using that preds away [OF that] place(2) i(1) earliestStart_cong [of _ _ ?t' ?t]
      by (simp add: kept_def slack_def needOf_def place(3))
    have old: "kept index deps tasks' k = kept index deps tasks k" if "k < length deps" "successor index deps k \<in> seen" for k
      using seen_away [OF that] by (simp add: place(3) kept_elsewhere)
    have other: "tasks' ! j = (if j = i then ?t' else tasks ! j)" if "j < length tasks" for j using that by (simp add: place(3))
    have "movable ?t'" using place(1) by (simp add: movable_def)
    have "map unplaced tasks' = map unplaced tasks" by (simp add: place(3) map_update unplaced_def list_update_same_conv i(1))
    moreover have "\<forall>t \<in> set tasks'. tE t = tS t + tD t" using o set_update_subset_insert [of tasks i ?t'] by (auto simp: place(3))
    moreover have "length tasks' = length tasks" by (simp add: place(3))
    then have "\<forall>j < length tasks'. movable (tasks' ! j) \<or> tasks' ! j = start ! j" using o other \<open>movable ?t'\<close> by auto
    moreover have "predecessor index deps k \<in> insert i seen \<and> (kept index deps tasks' k \<or> \<not> movable (tasks' ! successor index deps k)
        \<and> (\<exists>c \<in> set conflicts'. reports (deps ! k) c))" if k: "k < length deps" "successor index deps k \<in> insert i seen" for k
    proof (cases "successor index deps k = i")
      case True
      then show ?thesis using new preds k before by auto
    next
      case False
      then have "successor index deps k \<in> seen" using k by simp
      moreover have "tasks' ! successor index deps k = tasks ! successor index deps k" using False by (simp add: place(3))
      ultimately show ?thesis using o k(1) old by (auto simp: place(4))
    qed
    moreover have "\<forall>c \<in> set conflicts'. \<exists>k < length deps. successor index deps k \<in> insert i seen \<and> \<not> kept index deps tasks' k
        \<and> reports (deps ! k) c" using o old unfolding place(4) by blast
    ultimately show ?thesis using same unfolding forward_ok_def by auto
  qed
qed

lemma forwardPass_ok:
  assumes "linked index start deps" "visited_before (predecessor index deps) (successor index deps) (length deps) (xs @ order)"
    and "distinct (xs @ order)" "set (xs @ order) \<subseteq> {..<length start}" "forward_ok index deps start (set xs) tasks conflicts"
    and "forwardPass calendar origin index deps order (tasks, conflicts) = Inr (tasks', conflicts')"
  shows "forward_ok index deps start (set (xs @ order)) tasks' conflicts'"
  using assms
proof (induction order arbitrary: xs tasks conflicts)
  case (Cons i order)
  obtain tasks1 conflicts1 where step: "forwardStep calendar origin index deps (tasks, conflicts) i = Inr (tasks1, conflicts1)"
    "forwardPass calendar origin index deps order (tasks1, conflicts1) = Inr (tasks', conflicts')"
    using Cons.prems(6) by (auto simp: go_result)
  have "length tasks = length start" using Cons.prems(5) unfolding forward_ok_def by (metis length_map)
  moreover have "\<forall>k < length deps. successor index deps k = i \<longrightarrow> predecessor index deps k \<in> set xs"
    using Cons.prems(2) unfolding visited_before_def by blast
  ultimately have "forward_ok index deps start (insert i (set xs)) tasks1 conflicts1"
    using forwardStep_ok [OF Cons.prems(1,5) _ _ _ step(1)] Cons.prems(3,4) by auto
  then show ?case using Cons.IH [of "xs @ [i]" tasks1 conflicts1] Cons.prems(1-4) step(2) by simp
qed simp

section \<open>Summaries\<close>

definition span_ok :: "task \<Rightarrow> bool" where
  "span_ok t \<longleftrightarrow> tE t = tS t + tD t \<and> 0 \<le> tD t"

text \<open>A roll-up changes the span of summaries and nothing else.\<close>

definition unspanned :: "task \<Rightarrow> task" where
  "unspanned t = t\<lparr>tS := 0, tE := 0, tD := 0\<rparr>"

definition rolled :: "task list \<Rightarrow> task list \<Rightarrow> bool" where
  "rolled tasks tasks' \<longleftrightarrow> map unspanned tasks' = map unspanned tasks
     \<and> (\<forall>j < length tasks. tSummary (tasks ! j) \<or> tasks' ! j = tasks ! j)
     \<and> ((\<forall>t \<in> set tasks. span_ok t) \<longrightarrow> (\<forall>t \<in> set tasks'. span_ok t))"

lemma unspanned_fields:
  assumes "map unspanned tasks = map unspanned start" "i < length tasks"
  shows "tEntry (tasks ! i) = tEntry (start ! i)" "tPreds (tasks ! i) = tPreds (start ! i)"
    "tSuccs (tasks ! i) = tSuccs (start ! i)" "tSummary (tasks ! i) = tSummary (start ! i)"
proof -
  have same: "unspanned (tasks ! i) = unspanned (start ! i)" using assms by (metis length_map nth_map)
  show "tEntry (tasks ! i) = tEntry (start ! i)" "tPreds (tasks ! i) = tPreds (start ! i)"
    "tSuccs (tasks ! i) = tSuccs (start ! i)" "tSummary (tasks ! i) = tSummary (start ! i)"
    using arg_cong [OF same, of tEntry] arg_cong [OF same, of tPreds] arg_cong [OF same, of tSuccs] arg_cong [OF same, of tSummary]
    by (simp_all add: unspanned_def)
qed

lemma rolled_length: "rolled tasks tasks' \<Longrightarrow> length tasks' = length tasks"
  unfolding rolled_def by (metis length_map)

lemma rolled_refl: "rolled tasks tasks"
  by (simp add: rolled_def)

lemma rolled_trans:
  assumes "rolled a b" "rolled b c"
  shows "rolled a c"
proof -
  have "\<forall>j < length a. tSummary (a ! j) \<or> c ! j = a ! j"
  proof (intro allI impI)
    fix j assume "j < length a"
    moreover have "tSummary (b ! j) = tSummary (a ! j)"
      using unspanned_fields(4) [of b a j] rolled_length [OF assms(1)] assms(1) \<open>j < length a\<close> by (simp add: rolled_def)
    moreover have "tSummary (a ! j) \<or> b ! j = a ! j" using assms(1) \<open>j < length a\<close> by (simp add: rolled_def)
    moreover have "tSummary (b ! j) \<or> c ! j = b ! j" using assms(2) \<open>j < length a\<close> rolled_length [OF assms(1)] by (simp add: rolled_def)
    ultimately show "tSummary (a ! j) \<or> c ! j = a ! j" by metis
  qed
  moreover have "map unspanned c = map unspanned a" using assms by (simp add: rolled_def)
  moreover have "(\<forall>t \<in> set a. span_ok t) \<longrightarrow> (\<forall>t \<in> set c. span_ok t)" using assms unfolding rolled_def by blast
  ultimately show ?thesis unfolding rolled_def by blast
qed

lemma foldl_min_le: "foldl min a xs \<le> (a::int)"
proof (induction xs arbitrary: a)
  case (Cons x xs)
  show ?case using Cons [of "min a x"] by simp
qed simp

lemma childrenSpan_ok:
  assumes "\<forall>t \<in> set tasks. span_ok t" "childrenSpan tasks index t = Some (s, e)"
  shows "s \<le> e"
proof -
  obtain child children where c: "filter (\<lambda>child. EntryParentID (tEntry child) = EntryID (tEntry t) \<and> index (EntryID (tEntry child)) \<noteq> None) tasks
      = child # children" "s = foldl min (tS child) (map tS children)" "e = foldl max (tE child) (map tE children)"
    using assms(2) by (auto simp: childrenSpan_def split: list.splits)
  have "set (child # children) \<subseteq> set tasks" unfolding c(1) [symmetric] by (rule filter_is_subset)
  then have "child \<in> set tasks" by simp
  then have "tS child \<le> tE child" using assms(1) by (auto simp: span_ok_def)
  then show ?thesis using foldl_min_le [of "tS child" "map tS children"] foldl_max(1) [of "tE child" "map tE children"] c by simp
qed

lemma rollUpTask_rolled:
  assumes "rollUpTask index (tasks, changed) i = (tasks', changed')" "i < length tasks"
  shows "rolled tasks tasks'"
proof (cases "tasks' = tasks")
  case False
  then obtain s e where up: "tSummary (tasks ! i)" "childrenSpan tasks index (tasks ! i) = Some (s, e)"
    "tasks' = tasks[i := (tasks ! i)\<lparr>tS := s, tE := e, tD := e - s\<rparr>]"
    using assms(1) by (auto simp: rollUpTask_def Let_def split: if_splits option.splits)
  let ?t = "(tasks ! i)\<lparr>tS := s, tE := e, tD := e - s\<rparr>"
  have "\<forall>t \<in> set tasks'. span_ok t" if "\<forall>t \<in> set tasks. span_ok t"
    using that childrenSpan_ok [OF that up(2)] set_update_subset_insert [of tasks i ?t] by (auto simp: up(3) span_ok_def)
  moreover have "map unspanned tasks' = map unspanned tasks"
    using assms(2) by (simp add: up(3) map_update unspanned_def list_update_same_conv)
  moreover have "tSummary (tasks ! j) \<or> tasks' ! j = tasks ! j" for j using up(1,3) by (cases "j = i") simp_all
  ultimately show ?thesis by (simp add: rolled_def)
qed (simp add: rolled_refl)

lemma rollUp_round:
  assumes "foldl (rollUpTask index) (tasks, changed) is = (tasks', changed')" "set is \<subseteq> {..<length tasks}"
  shows "rolled tasks tasks'"
  using assms
proof (induction "is" arbitrary: tasks changed)
  case (Cons i "is")
  obtain tasks1 changed1 where step: "rollUpTask index (tasks, changed) i = (tasks1, changed1)" by force
  then have "rolled tasks tasks1" using rollUpTask_rolled Cons.prems(2) by simp
  moreover from this have "rolled tasks1 tasks'"
    using Cons.IH [of tasks1 changed1] Cons.prems step rolled_length by simp
  ultimately show ?case by (rule rolled_trans)
qed (simp add: rolled_refl)

lemma rollUpRounds_rolled: "rolled tasks (rollUpRounds n index tasks)"
proof (induction n arbitrary: tasks)
  case (Suc n)
  obtain tasks1 changed where "foldl (rollUpTask index) (tasks, False) [0..<length tasks] = (tasks1, changed)" by force
  moreover from rollUp_round [OF this] have "rolled tasks tasks1" by (simp add: atLeast0LessThan)
  ultimately show ?case using Suc [of tasks1] rolled_trans by (auto simp: Let_def)
qed (simp add: rolled_refl)

section \<open>Backward\<close>

definition undated :: "task \<Rightarrow> task" where
  "undated t = t\<lparr>tLS := 0, tLE := 0\<rparr>"

definition late_ok :: "index \<Rightarrow> Dependency list \<Rightarrow> int \<Rightarrow> task list \<Rightarrow> nat \<Rightarrow> bool" where
  "late_ok index deps finish tasks i \<longleftrightarrow> tLS (tasks ! i) = tLE (tasks ! i) - tD (tasks ! i) \<and> tE (tasks ! i) \<le> tLE (tasks ! i)
     \<and> tLE (tasks ! i) = foldl (\<lambda>le k. min le (latestEnd (tasks ! i) (tasks ! successor index deps k) (DepTiming (deps ! k)))) finish
         (tSuccs (tasks ! i))"

lemma latestEnd_slack:
  assumes "tE p = tS p + tD p" "tE s = tS s + tD s" "tLS s = tLE s - tD s" "tE s \<le> tLE s"
  shows "tE p + slack p s timing \<le> latestEnd p s timing"
  using assms by (auto simp: slack_def earliestStart_def latestEnd_def split: DependencyKind.splits)

lemma undated_fields:
  assumes "map undated tasks = map undated start" "i < length tasks"
  shows "tEntry (tasks ! i) = tEntry (start ! i)" "tS (tasks ! i) = tS (start ! i)" "tE (tasks ! i) = tE (start ! i)"
    "tD (tasks ! i) = tD (start ! i)" "tSuccs (tasks ! i) = tSuccs (start ! i)" "tSummary (tasks ! i) = tSummary (start ! i)" "tPreds (tasks ! i) = tPreds (start ! i)"
proof -
  have same: "undated (tasks ! i) = undated (start ! i)" using assms by (metis length_map nth_map)
  show "tEntry (tasks ! i) = tEntry (start ! i)" "tS (tasks ! i) = tS (start ! i)" "tE (tasks ! i) = tE (start ! i)"
    "tD (tasks ! i) = tD (start ! i)" "tSuccs (tasks ! i) = tSuccs (start ! i)" "tSummary (tasks ! i) = tSummary (start ! i)" "tPreds (tasks ! i) = tPreds (start ! i)"
    using arg_cong [OF same, of tEntry] arg_cong [OF same, of tS] arg_cong [OF same, of tE]
      arg_cong [OF same, of tD] arg_cong [OF same, of tSuccs] arg_cong [OF same, of tSummary] arg_cong [OF same, of tPreds]
    by (simp_all add: undated_def)
qed

lemma backwardStep_ok:
  assumes start: "map undated tasks = map undated start" and i: "i < length tasks" "i \<notin> seen"
    and succs: "\<forall>k \<in> set (tSuccs (start ! i)). successor index deps k \<in> seen \<and> predecessor index deps k = i \<and> kept index deps start k"
    and seen: "seen \<subseteq> {..<length tasks}" "\<forall>j \<in> seen. \<forall>k \<in> set (tSuccs (start ! j)). successor index deps k \<in> seen"
    and spans: "\<forall>t \<in> set start. tE t = tS t + tD t \<and> tE t \<le> finish"
    and ok: "\<forall>j \<in> seen. late_ok index deps finish tasks j"
  shows "map undated (backwardStep index deps finish tasks i) = map undated start
    \<and> (\<forall>j \<in> insert i seen. late_ok index deps finish (backwardStep index deps finish tasks i) j)"
proof -
  let ?t = "tasks ! i"
  let ?late = "\<lambda>k. latestEnd ?t (tasks ! successor index deps k) (DepTiming (deps ! k))"
  define le where "le = foldl (\<lambda>le k. min le (?late k)) finish (tSuccs ?t)"
  let ?t' = "?t\<lparr>tLE := le, tLS := le - tD ?t\<rparr>"
  have step: "backwardStep index deps finish tasks i = tasks[i := ?t']" by (simp add: backwardStep_def Let_def le_def)
  have len: "length start = length tasks" using start by (metis length_map)
  note f = undated_fields [OF start]
  have away: "successor index deps k \<noteq> i" if "k \<in> set (tSuccs (start ! j))" "j \<in> insert i seen" for j k
    using that succs seen(2) i(2) by blast
  have same: "map undated (tasks[i := ?t']) = map undated start"
    using i(1) start by (simp add: map_update undated_def list_update_same_conv flip: start)
  have "tE ?t + 0 \<le> ?late k" if "k \<in> set (tSuccs ?t)" for k
  proof -
    let ?s = "successor index deps k"
    have k: "k \<in> set (tSuccs (start ! i))" using that f(5) [OF i(1)] by simp
    then have s: "?s \<in> seen" "?s < length tasks" using succs seen(1) by auto
    have at: "tE (tasks ! j) = tS (tasks ! j) + tD (tasks ! j)" if "j < length tasks" for j
      using spans f(2-4) [OF that] that len by simp
    have "slack ?t (tasks ! ?s) timing = slack (start ! i) (start ! ?s) timing" for timing
      using f(2-4) [OF i(1)] f(2-4) [OF s(2)] by (simp add: slack_def earliestStart_def split: DependencyKind.splits)
    then have "0 \<le> slack ?t (tasks ! ?s) (DepTiming (deps ! k))" using succs k by (auto simp: kept_def)
    moreover have "late_ok index deps finish tasks ?s" using ok s by blast
    ultimately show ?thesis
      using latestEnd_slack [OF at [OF i(1)] at [OF s(2)], of "DepTiming (deps ! k)"] by (simp add: late_ok_def)
  qed
  moreover have "start ! i \<in> set start" using i(1) len by simp
  then have "tE ?t \<le> finish" using spans f(3) [OF i(1)] by metis
  ultimately have "tE ?t \<le> le" unfolding le_def by (intro foldl_min(3)) auto
  have late: "late_ok index deps finish (tasks[i := ?t']) j" if "j \<in> insert i seen" for j
  proof (cases "j = i")
    case True
    have "latestEnd ?t' s timing = latestEnd ?t s timing" for s timing
      by (simp add: latestEnd_def split: DependencyKind.splits)
    moreover have "tasks[i := ?t'] ! successor index deps k = tasks ! successor index deps k" if "k \<in> set (tSuccs ?t)" for k
      using away [of k i] that f(5) [OF i(1)] by simp
    ultimately have "le = foldl (\<lambda>le k. min le (latestEnd ?t' (tasks[i := ?t'] ! successor index deps k) (DepTiming (deps ! k)))) finish (tSuccs ?t)"
      unfolding le_def by (intro foldl_cong) simp_all
    then show ?thesis using True i(1) \<open>tE ?t \<le> le\<close> by (simp add: late_ok_def)
  next
    case False
    then have j: "j \<in> seen" "j < length tasks" using that seen(1) by auto
    have "tasks[i := ?t'] ! successor index deps k = tasks ! successor index deps k" if "k \<in> set (tSuccs (tasks ! j))" for k
      using away [of k j] that f(5) [OF j(2)] j(1) by simp
    then have "foldl (\<lambda>le k. min le (latestEnd (tasks ! j) (tasks[i := ?t'] ! successor index deps k) (DepTiming (deps ! k)))) finish (tSuccs (tasks ! j))
        = foldl (\<lambda>le k. min le (latestEnd (tasks ! j) (tasks ! successor index deps k) (DepTiming (deps ! k)))) finish (tSuccs (tasks ! j))"
      by (intro foldl_cong) simp_all
    moreover have "late_ok index deps finish tasks j" using ok j by blast
    ultimately show ?thesis using False by (simp add: late_ok_def)
  qed
  then show ?thesis using same by (simp add: step)
qed

text \<open>In an order with the predecessors first, the successors of a task come after it.\<close>

lemma successors_after:
  assumes "visited_before src tgt m (xs @ i # ys)" "distinct (xs @ i # ys)" "k < m" "src k = i" "tgt k \<in> set (xs @ i # ys)"
  shows "tgt k \<in> set ys"
proof (rule ccontr)
  assume "tgt k \<notin> set ys"
  then have "tgt k \<in> set (xs @ [i])" using assms(5) by auto
  then obtain us vs where "xs @ [i] = us @ tgt k # vs" by (meson split_list)
  then have whole: "xs @ i # ys = us @ tgt k # vs @ ys" by simp
  then have "i \<in> set us" using assms(1,3,4) unfolding visited_before_def by blast
  moreover have "set us \<subseteq> set xs" using \<open>xs @ [i] = us @ tgt k # vs\<close> by (metis butlast_append butlast_snoc in_set_butlastD list.discI set_append subsetI Un_upper1 subsetD)
  ultimately show False using assms(2) by auto
qed

lemma backwardPass_ok:
  assumes order: "visited_before (predecessor index deps) (successor index deps) (length deps) (xs @ ys)" "distinct (xs @ ys)"
      "set (xs @ ys) = {..<length start}"
    and links: "\<forall>i < length start. set (tSuccs (start ! i)) = {k. k < length deps \<and> predecessor index deps k = i}"
      "\<forall>k < length deps. successor index deps k < length start"
    and kept: "\<forall>k < length deps. kept index deps start k"
    and spans: "\<forall>t \<in> set start. tE t = tS t + tD t \<and> tE t \<le> finish"
  shows "map undated (backwardPass index deps finish ys start) = map undated start
    \<and> (\<forall>j \<in> set ys. late_ok index deps finish (backwardPass index deps finish ys start) j)"
  using order
proof (induction ys arbitrary: xs)
  case Nil
  then show ?case by (simp add: backwardPass_def)
next
  case (Cons i ys)
  let ?tasks = "backwardPass index deps finish ys start"
  have IH: "map undated ?tasks = map undated start" "\<forall>j \<in> set ys. late_ok index deps finish ?tasks j"
    using Cons.IH [of "xs @ [i]"] Cons.prems by simp_all
  have len: "length ?tasks = length start" using IH(1) by (metis length_map)
  have inside: "i < length start" "set ys \<subseteq> {..<length start}" "i \<notin> set ys" using Cons.prems(2,3) by auto
  have after: "successor index deps k \<in> set ys" if "k < length deps" "predecessor index deps k = i" for k
    using successors_after [OF Cons.prems(1,2) that] links(2) that(1) Cons.prems(3) by blast
  have later: "successor index deps k \<in> set ys" if "j \<in> set ys" "k \<in> set (tSuccs (start ! j))" for j k
  proof -
    obtain as bs where ys: "ys = as @ j # bs" using \<open>j \<in> set ys\<close> by (meson split_list)
    have k: "k < length deps" "predecessor index deps k = j" using links(1) that inside(2) by auto
    have "visited_before (predecessor index deps) (successor index deps) (length deps) ((xs @ i # as) @ j # bs)"
      "distinct ((xs @ i # as) @ j # bs)" "successor index deps k \<in> set ((xs @ i # as) @ j # bs)"
      using Cons.prems links(2) k(1) ys by simp_all
    then have "successor index deps k \<in> set bs" using successors_after k by blast
    then show ?thesis using ys by simp
  qed
  have "backwardPass index deps finish (i # ys) start = backwardStep index deps finish ?tasks i" by (simp add: backwardPass_def)
  moreover have "map undated (backwardStep index deps finish ?tasks i) = map undated start
    \<and> (\<forall>j \<in> insert i (set ys). late_ok index deps finish (backwardStep index deps finish ?tasks i) j)"
  proof (rule backwardStep_ok [OF IH(1) _ inside(3) _ _ _ spans IH(2)])
    show "\<forall>k \<in> set (tSuccs (start ! i)). successor index deps k \<in> set ys \<and> predecessor index deps k = i \<and> kept index deps start k"
      using links(1) inside(1) after kept by simp
  qed (use inside len later in auto)
  ultimately show ?case by simp
qed

section \<open>Float\<close>

lemma floats:
  assumes "\<forall>t \<in> set tasks. tE t = tS t + tD t \<and> tE t \<le> finish" "i < length tasks" "\<forall>j < length tasks. late_ok index deps finish tasks j"
    and "\<forall>k \<in> set (tSuccs (tasks ! i)). successor index deps k < length tasks \<and> predecessor index deps k = i \<and> kept index deps tasks k"
  shows "0 \<le> freeFloat index deps finish tasks (tasks ! i)"
    and "freeFloat index deps finish tasks (tasks ! i) \<le> tLS (tasks ! i) - tS (tasks ! i)"
proof -
  let ?t = "tasks ! i" and ?free = "freeFloat index deps finish tasks (tasks ! i)"
  let ?slack = "\<lambda>k. slack ?t (tasks ! successor index deps k) (DepTiming (deps ! k))"
  have at: "tE (tasks ! j) = tS (tasks ! j) + tD (tasks ! j)" "tE (tasks ! j) \<le> finish" if "j < length tasks" for j
    using assms(1) nth_mem [OF that] by blast+
  have "0 \<le> ?slack k" if "k \<in> set (tSuccs ?t)" for k using assms(4) that by (auto simp: kept_def)
  then show "0 \<le> ?free" unfolding freeFloat_def using at(2) [OF assms(2)] by (intro foldl_min(3)) auto
  have "tE ?t + ?free \<le> latestEnd ?t (tasks ! successor index deps k) (DepTiming (deps ! k))" if "k \<in> set (tSuccs ?t)" for k
  proof -
    have s: "successor index deps k < length tasks" using assms(4) that by blast
    then have "late_ok index deps finish tasks (successor index deps k)" using assms(3) by blast
    moreover have "?free \<le> ?slack k"
      unfolding freeFloat_def by (rule foldl_min(2) [OF that])
    ultimately show ?thesis
      using latestEnd_slack [OF at(1) [OF assms(2)] at(1) [OF s], of "DepTiming (deps ! k)"] by (simp add: late_ok_def)
  qed
  moreover have "tE ?t + ?free \<le> finish"
    using foldl_min(1) [of ?slack "finish - tE ?t" "tSuccs ?t"] by (simp add: freeFloat_def)
  moreover have late: "late_ok index deps finish tasks i" using assms(2,3) by blast
  ultimately have "tE ?t + ?free \<le> tLE ?t" unfolding late_ok_def by (auto intro: foldl_min(3))
  then show "?free \<le> tLS ?t - tS ?t" using late at(1) [OF assms(2)] by (simp add: late_ok_def)
qed

end
