(* ===== verification/Schedule_Properties.thy ===== *)
theory Schedule_Properties
  imports Schedule_Passes
begin

text \<open>
  The scheduler as a whole: the order of the entries, the dependencies it keeps or reports, and the float it
  measures, in terms of the plan it is given and the answer it returns.
\<close>

section \<open>Collected and placed tasks\<close>

definition fresh_task :: "task \<Rightarrow> bool" where
  "fresh_task t \<longleftrightarrow> tPreds t = [] \<and> tSuccs t = []"

lemma indexed_snoc:
  assumes "indexed index tasks" "index (EntryID (tEntry t)) = None"
  shows "indexed (index(EntryID (tEntry t) \<mapsto> length tasks)) (tasks @ [t])"
proof -
  have "index (EntryID (tEntry (tasks ! p))) = Some p" if "p < length tasks" for p using assms(1) that by (simp add: indexed_def)
  then have "EntryID (tEntry (tasks ! p)) \<noteq> EntryID (tEntry t)" if "p < length tasks" for p using assms(2) that by force
  then show ?thesis using assms(1) by (auto simp: indexed_def nth_append less_Suc_eq)
qed

lemma collectEntry_ok:
  assumes ok: "indexed index tasks \<and> list_all fresh_task tasks \<and> (origin = None \<longleftrightarrow> tasks = [])"
    and step: "collectEntry parents (index, tasks, unscheduled, origin) entry = (index', tasks', unscheduled', origin')"
  shows "indexed index' tasks' \<and> list_all fresh_task tasks' \<and> (origin' = None \<longleftrightarrow> tasks' = [])"
proof (cases "tasks' = tasks")
  case True
  then show ?thesis using assms by (auto simp: collectEntry_def split: if_splits option.splits prod.splits)
next
  case False
  then obtain first last where span: "index (EntryID entry) = None" "entrySpan entry = Some (first, last)"
    using step by (auto simp: collectEntry_def split: if_splits option.splits prod.splits)
  define t where "t = \<lparr>tEntry = entry, tS = 0, tE = 0, tD = 0, tLS = 0, tLE = 0, tPreds = [], tSuccs = [],
     tSummary = parents (EntryID entry), tOriginalStart = first, tOriginalEnd = last\<rparr>"
  have "index (EntryID (tEntry t)) = None" "fresh_task t" using span by (simp_all add: t_def fresh_task_def)
  moreover have "tasks' = tasks @ [t]" "index' = index(EntryID (tEntry t) \<mapsto> length tasks)" "origin' \<noteq> None"
    using step span by (auto simp: collectEntry_def t_def)
  ultimately show ?thesis using ok indexed_snoc [of index tasks t] by (simp del: append_Nil)
qed

lemma collect_ok:
  assumes "collect entries = (index, tasks, unscheduled, origin)"
  shows "indexed index tasks \<and> list_all fresh_task tasks \<and> (origin = None \<longleftrightarrow> tasks = [])"
proof -
  have "indexed index' tasks' \<and> list_all fresh_task tasks' \<and> (origin' = None \<longleftrightarrow> tasks' = [])"
    if "foldl (collectEntry parents) (index0, tasks0, unscheduled0, origin0) entries = (index', tasks', unscheduled', origin')"
      "indexed index0 tasks0 \<and> list_all fresh_task tasks0 \<and> (origin0 = None \<longleftrightarrow> tasks0 = [])"
    for parents index0 tasks0 unscheduled0 origin0 index' tasks' unscheduled' origin'
    using that
  proof (induction entries arbitrary: index0 tasks0 unscheduled0 origin0)
    case (Cons entry entries)
    obtain index1 tasks1 unscheduled1 origin1 where
      step: "collectEntry parents (index0, tasks0, unscheduled0, origin0) entry = (index1, tasks1, unscheduled1, origin1)"
      using prod_cases4 by blast
    show ?case using Cons.IH [of index1 tasks1 unscheduled1 origin1] collectEntry_ok [OF Cons.prems(2) step] Cons.prems(1) step by simp
  qed auto
  from this [OF assms [unfolded collect_def]] show ?thesis by (simp add: indexed_def)
qed

lemma placeTasks_spans:
  "placeTasks calendar origin tasks = Inr placed \<Longrightarrow>
   map unspanned placed = map unspanned tasks \<and> (\<forall>t \<in> set placed. span_ok t)"
  by (induction tasks arbitrary: placed)
    (auto simp: go_result placeTask_def unspanned_def span_ok_def minPlanLength_def Let_def split: if_splits)

section \<open>A run\<close>

lemma planEnd_bound: "t \<in> set tasks \<Longrightarrow> tE t \<le> planEnd tasks"
  unfolding planEnd_def by (intro foldl_max(2)) simp

text \<open>The dependencies of the plan that join two tasks, neither of them a summary, are those of the run.\<close>

definition started :: "Dependency \<Rightarrow> Dependency" where
  "started dep = (if TimingKind (DepTiming dep) = NoKind then dep\<lparr>DepTiming := (DepTiming dep)\<lparr>TimingKind := FinishToStart\<rparr>\<rparr> else dep)"

lemma linkDep_keeps: "linkDep index (tasks, deps) dep = (tasks', deps') \<Longrightarrow> set deps \<subseteq> set deps'"
  by (auto simp: linkDep_def Let_def split: option.splits if_splits)

lemma link_keeps: "foldl (linkDep index) (tasks, deps) dependencies = (tasks', deps') \<Longrightarrow> set deps \<subseteq> set deps'"
proof (induction dependencies arbitrary: tasks deps)
  case (Cons dep dependencies)
  obtain tasks1 deps1 where "linkDep index (tasks, deps) dep = (tasks1, deps1)" by force
  then show ?case using Cons.IH [of tasks1 deps1] Cons.prems linkDep_keeps by fastforce
qed simp

lemma unlinked_fields:
  assumes "map unlinked tasks = map unlinked start" "i < length tasks"
  shows "tEntry (tasks ! i) = tEntry (start ! i)" "tSummary (tasks ! i) = tSummary (start ! i)" "span_ok (tasks ! i) = span_ok (start ! i)"
proof -
  have same: "unlinked (tasks ! i) = unlinked (start ! i)" using assms by (metis length_map nth_map)
  show "tEntry (tasks ! i) = tEntry (start ! i)" "tSummary (tasks ! i) = tSummary (start ! i)" "span_ok (tasks ! i) = span_ok (start ! i)"
    using arg_cong [OF same, of tEntry] arg_cong [OF same, of tSummary] arg_cong [OF same, of span_ok] by (simp_all add: unlinked_def span_ok_def)
qed

lemma link_complete:
  assumes "\<forall>i p. index i = Some p \<longrightarrow> p < length tasks" "linked index tasks deps"
    and "foldl (linkDep index) (tasks, deps) dependencies = (tasks', deps')" "dep \<in> set dependencies"
    and "index (Predecessor dep) = Some p" "index (Successor dep) = Some s" "p \<noteq> s" "\<not> tSummary (tasks ! p)" "\<not> tSummary (tasks ! s)"
  shows "started dep \<in> set deps'"
  using assms
proof (induction dependencies arbitrary: tasks deps)
  case (Cons d dependencies)
  obtain tasks1 deps1 where step: "linkDep index (tasks, deps) d = (tasks1, deps1)" by force
  have first: "linked index tasks1 deps1 \<and> map unlinked tasks1 = map unlinked tasks"
    using linkDep_linked [of index tasks deps d] Cons.prems(1,2) step by blast
  have len: "length tasks1 = length tasks" using first by (metis length_map)
  have rest: "foldl (linkDep index) (tasks1, deps1) dependencies = (tasks', deps')" using Cons.prems(3) step by simp
  show ?case
  proof (cases "dep = d")
    case True
    then have "started dep \<in> set deps1" using step Cons.prems(5-9) by (auto simp: linkDep_def started_def Let_def)
    then show ?thesis using link_keeps [OF rest] by blast
  next
    case False
    moreover have "\<not> tSummary (tasks1 ! p)" "\<not> tSummary (tasks1 ! s)"
      using first len Cons.prems(1,5,6,8,9) unlinked_fields(2) [of tasks1 tasks] by auto
    ultimately show ?thesis using Cons.IH [OF _ _ rest] Cons.prems(1,4-7) first len by auto
  qed
qed simp

definition run_ok :: "index \<Rightarrow> run \<Rightarrow> bool" where
  "run_ok index r \<longleftrightarrow> indexed index (runTasks r) \<and> linked index (runTasks r) (runDeps r)
     \<and> (\<forall>t \<in> set (runTasks r). span_ok t \<and> tE t \<le> runEnd r)
     \<and> (\<forall>k < length (runDeps r). kept index (runDeps r) (runTasks r) k
          \<or> \<not> movable (runTasks r ! successor index (runDeps r) k) \<and> (\<exists>c \<in> set (runConflicts r). reports (runDeps r ! k) c))
     \<and> (\<forall>c \<in> set (runConflicts r). \<exists>k < length (runDeps r). \<not> kept index (runDeps r) (runTasks r) k \<and> reports (runDeps r ! k) c)
     \<and> (runConflicts r = [] \<longrightarrow> (\<forall>j < length (runTasks r). late_ok index (runDeps r) (runEnd r) (runTasks r) j))"

lemma linked_cong:
  assumes "linked index tasks deps" "length tasks' = length tasks"
    and "\<And>i. i < length tasks \<Longrightarrow> tPreds (tasks' ! i) = tPreds (tasks ! i) \<and> tSuccs (tasks' ! i) = tSuccs (tasks ! i)
      \<and> tSummary (tasks' ! i) = tSummary (tasks ! i)"
  shows "linked index tasks' deps"
  using assms unfolding linked_def by simp

lemma indexed_cong:
  assumes "indexed index tasks" "length tasks' = length tasks" "\<And>i. i < length tasks \<Longrightarrow> tEntry (tasks' ! i) = tEntry (tasks ! i)"
  shows "indexed index tasks'"
  unfolding indexed_def
proof (intro conjI allI impI)
  fix i p assume "index i = Some p"
  then have "p < length tasks" "EntryID (tEntry (tasks ! p)) = i" using assms(1) by (simp_all add: indexed_def)
  then show "p < length tasks'" "EntryID (tEntry (tasks' ! p)) = i" using assms(2,3) by simp_all
qed (use assms in \<open>simp add: indexed_def\<close>)

lemma kept_cong:
  assumes "linked index tasks deps" "k < length deps"
    and "\<And>i. i < length tasks \<Longrightarrow> \<not> tSummary (tasks ! i) \<Longrightarrow> tS (tasks' ! i) = tS (tasks ! i) \<and> tE (tasks' ! i) = tE (tasks ! i)
      \<and> tD (tasks' ! i) = tD (tasks ! i)"
  shows "kept index deps tasks' k = kept index deps tasks k"
  using assms by (simp add: linked_def kept_def slack_def earliestStart_def split: DependencyKind.splits)

lemma backward_undated: "map undated (backwardPass index deps finish order tasks) = map undated tasks"
proof -
  have "map undated (backwardStep index deps finish tasks i) = map undated tasks" for tasks i
    by (cases "i < length tasks") (simp_all add: backwardStep_def Let_def map_update undated_def list_update_same_conv list_update_beyond)
  then have "map undated (foldl (backwardStep index deps finish) tasks is) = map undated tasks" for "is"
    by (induction "is" arbitrary: tasks) simp_all
  then show ?thesis by (simp add: backwardPass_def)
qed

lemma spans_nth: "(\<forall>t \<in> set tasks. span_ok t) \<longleftrightarrow> (\<forall>i < length tasks. span_ok (tasks ! i))"
  by (auto simp: all_set_conv_all_nth)

text \<open>The tasks as the forward pass receives them.\<close>

lemma start_placed:
  assumes ix: "indexed index tasks" and fresh: "list_all fresh_task tasks"
    and placed: "placeTasks calendar origin tasks = Inr placed" and start: "foldl (linkDep index) (placed, []) dependencies = (start, deps)"
  shows "length placed = length tasks \<and> length start = length tasks \<and> map unlinked start = map unlinked placed
    \<and> linked index placed [] \<and> linked index start deps"
proof -
  note place = placeTasks_spans [OF placed]
  have len: "length placed = length tasks" using place by (metis length_map)
  note f = unspanned_fields [OF place [THEN conjunct1]]
  have range: "\<forall>i p. index i = Some p \<longrightarrow> p < length placed" using ix len by (simp add: indexed_def)
  have "linked index placed []"
  proof (rule unlinked_start)
    fix t assume "t \<in> set placed"
    then obtain i where "i < length placed" "t = placed ! i" by (auto simp: in_set_conv_nth)
    moreover from this have "fresh_task (tasks ! i)" using fresh len by (simp add: list_all_length)
    ultimately show "tPreds t = [] \<and> tSuccs t = []" using f(2,3) by (simp add: fresh_task_def)
  qed
  moreover from link_linked [OF range this start] have "linked index start deps" "map unlinked start = map unlinked placed" by blast+
  moreover from this(2) have "length start = length placed" by (metis length_map)
  ultimately show ?thesis using len by simp
qed

lemma start_ok:
  assumes ix: "indexed index tasks" and fresh: "list_all fresh_task tasks"
    and placed: "placeTasks calendar origin tasks = Inr placed" and start: "foldl (linkDep index) (placed, []) dependencies = (start, deps)"
  shows "indexed index start" "linked index start deps" "\<forall>t \<in> set start. span_ok t"
proof -
  have l: "length placed = length tasks" "length start = length tasks" "map unlinked start = map unlinked placed" "linked index start deps"
    using start_placed [OF assms] by blast+
  note place = placeTasks_spans [OF placed]
  note f = unspanned_fields [OF place [THEN conjunct1]] and u = unlinked_fields [OF l(3)]
  have "indexed index placed" using f(1) l(1) by (intro indexed_cong [OF ix]) auto
  then show "indexed index start" by (rule indexed_cong) (simp_all add: u(1) l)
  show "linked index start deps" by (fact l)
  show "\<forall>t \<in> set start. span_ok t" using place [THEN conjunct2] u(3) l unfolding spans_nth by simp
qed

lemma runPasses_ok:
  assumes ix: "indexed index tasks" and fresh: "list_all fresh_task tasks"
    and run: "runPasses calendar origin index tasks dependencies = Inr r"
  shows "run_ok index r"
    and "\<And>dep p q. dep \<in> set dependencies \<Longrightarrow> index (Predecessor dep) = Some p \<Longrightarrow> index (Successor dep) = Some q \<Longrightarrow> p \<noteq> q \<Longrightarrow>
      \<not> tSummary (runTasks r ! p) \<Longrightarrow> \<not> tSummary (runTasks r ! q) \<Longrightarrow> started dep \<in> set (runDeps r)"
proof -
  obtain placed where placed: "placeTasks calendar origin tasks = Inr placed"
    using run by (auto simp: runPasses_def go_result)
  obtain start deps where start: "foldl (linkDep index) (placed, []) dependencies = (start, deps)" by force
  obtain order where order: "topological start deps index = Inr order"
    using run placed start by (auto simp: runPasses_def go_result)
  obtain forward conflicts where forward: "forwardPass calendar origin index deps order (start, []) = Inr (forward, conflicts)"
    using run placed start order by (auto simp: runPasses_def go_result)
  define spanned where "spanned = rollUpSpans forward index"
  define finish where "finish = planEnd spanned"
  define final where "final = backwardPass index deps finish order spanned"
  have r: "r = \<lparr>runOrigin = origin, runIndex = index, runDeps = deps, runTasks = final, runEnd = finish, runConflicts = conflicts\<rparr>"
    using run placed start order forward by (auto simp: runPasses_def Let_def spanned_def finish_def final_def)
  note s = start_ok [OF ix fresh placed start]
  have o: "distinct order" "set order = {..<length start}"
    "visited_before (predecessor index deps) (successor index deps) (length deps) order"
    using topological_order [OF s(2)] order by (auto split: if_splits)
  have "forward_ok index deps start {} start []" using s(3) by (auto simp: forward_ok_def span_ok_def)
  then have fw: "forward_ok index deps start {..<length start} forward conflicts"
    using forwardPass_ok [OF s(2), of "[]" order] o forward by simp
  have same: "map unplaced forward = map unplaced start" using fw unfolding forward_ok_def by blast
  have lf: "length forward = length start" using same by (metis length_map)
  note f = unplaced_fields [OF same, unfolded lf]
  have sp: "\<forall>t \<in> set forward. span_ok t"
    using fw s(3) f(2) lf unfolding spans_nth forward_ok_def by (auto simp: span_ok_def all_set_conv_all_nth)
  have roll: "rolled forward spanned" using rollUpRounds_rolled by (simp add: spanned_def rollUpSpans_def)
  have ls: "length spanned = length start" using rolled_length [OF roll] lf by simp
  have us: "map unspanned spanned = map unspanned forward" using roll by (simp add: rolled_def)
  note g = unspanned_fields [OF us, unfolded ls]
  note b = backward_undated [of index deps finish order spanned, folded final_def]
  have ln: "length final = length start" using b ls by (metis length_map)
  note h = undated_fields [OF b, unfolded ln]
  have lk: "linked index spanned deps" using f(3-5) g(2-4) ls by (intro linked_cong [OF s(2)]) auto
  have kept_final: "kept index deps final k = kept index deps forward k" if "k < length deps" for k
  proof -
    have "kept index deps final k = kept index deps spanned k" using h(2-4) ls by (intro kept_cong [OF lk that]) auto
    also have "\<dots> = kept index deps forward k"
    proof (rule kept_cong [OF _ that])
      show "linked index forward deps" using f(3-5) lf by (intro linked_cong [OF s(2)]) auto
      show "tS (spanned ! i) = tS (forward ! i) \<and> tE (spanned ! i) = tE (forward ! i) \<and> tD (spanned ! i) = tD (forward ! i)"
        if "i < length forward" "\<not> tSummary (forward ! i)" for i using roll that unfolding rolled_def by metis
    qed
    finally show ?thesis .
  qed
  have spans: "\<forall>t \<in> set spanned. span_ok t" using roll sp by (simp add: rolled_def)
  have "span_ok (final ! i) \<and> tE (final ! i) \<le> finish" if "i < length start" for i
    using spans that ls h(2-4) [OF that] planEnd_bound [of "spanned ! i" spanned] by (simp add: span_ok_def finish_def)
  then have bounds: "\<forall>t \<in> set final. span_ok t \<and> tE t \<le> finish" using ln by (auto simp: in_set_conv_nth)
  have late: "late_ok index deps finish final j" if "conflicts = []" "j < length start" for j
  proof -
    have all: "\<forall>k < length deps. kept index deps spanned k"
    proof (intro allI impI)
      fix k assume k: "k < length deps"
      then have "kept index deps forward k" using fw s(2) that(1) unfolding forward_ok_def linked_def by auto
      then show "kept index deps spanned k"
        using kept_final [OF k] kept_cong [OF lk k, of final] h(2-4) ls by auto
    qed
    have dates: "\<forall>t \<in> set spanned. tE t = tS t + tD t \<and> tE t \<le> finish"
      using spans planEnd_bound [of _ spanned] unfolding span_ok_def finish_def by blast
    have links: "\<forall>i < length spanned. set (tSuccs (spanned ! i)) = {k. k < length deps \<and> predecessor index deps k = i}"
      "\<forall>k < length deps. successor index deps k < length spanned" using lk by (simp_all add: linked_def)
    have "visited_before (predecessor index deps) (successor index deps) (length deps) ([] @ order)" "distinct ([] @ order)"
      "set ([] @ order) = {..<length spanned}" using o ls by simp_all
    from backwardPass_ok [OF this links all dates] show ?thesis using o(2) that(2) by (simp add: final_def)
  qed
  have "indexed index final" using f(1) g(1) h(1) ln by (intro indexed_cong [OF s(1)]) auto
  moreover have "linked index final deps" using h(5-7) ls ln by (intro linked_cong [OF lk]) auto
  moreover have "kept index deps final k \<or> \<not> movable (final ! successor index deps k) \<and> (\<exists>c \<in> set conflicts. reports (deps ! k) c)"
    if k: "k < length deps" for k
  proof -
    have "successor index deps k < length start" using s(2) k by (simp add: linked_def)
    moreover from this have "movable (final ! successor index deps k) = movable (forward ! successor index deps k)"
      using f(1,5) g(1,4) h(1,6) by (simp add: movable_def)
    ultimately show ?thesis using fw k kept_final [OF k] unfolding forward_ok_def by auto
  qed
  moreover have "\<forall>c \<in> set conflicts. \<exists>k < length deps. \<not> kept index deps final k \<and> reports (deps ! k) c"
    using fw kept_final unfolding forward_ok_def by blast
  ultimately show "run_ok index r" using bounds late ln by (simp add: run_ok_def r)
  fix dep p q
  assume dep: "dep \<in> set dependencies" "index (Predecessor dep) = Some p" "index (Successor dep) = Some q" "p \<noteq> q"
    "\<not> tSummary (runTasks r ! p)" "\<not> tSummary (runTasks r ! q)"
  have l: "length placed = length tasks" "length start = length tasks" "map unlinked start = map unlinked placed" "linked index placed []"
    using start_placed [OF ix fresh placed start] by blast+
  have range: "\<forall>i p. index i = Some p \<longrightarrow> p < length placed" using ix l(1) by (simp add: indexed_def)
  have "tSummary (runTasks r ! i) = tSummary (placed ! i)" if "i < length tasks" for i
    using that l f(5) g(4) h(6) unlinked_fields(2) [OF l(3)] by (simp add: r)
  then have "\<not> tSummary (placed ! p)" "\<not> tSummary (placed ! q)" using dep range l(1) by auto
  then show "started dep \<in> set (runDeps r)" using link_complete [OF range l(4) start dep(1-4)] by (simp add: r)
qed

end
