(* ===== verification/Schedule_Answers.thy ===== *)
theory Schedule_Answers
  imports Schedule_Properties
begin

text \<open>
  What a caller of the scheduler may rely on: the placements of an answer keep every dependency, the floats are the room
  an entry has, and an order is found exactly when the dependencies have no cycle; with a small plan they are applied to.
\<close>

section \<open>Placements\<close>

lemma placementsOf_nth:
  "placementsOf calendar origin index deps finish tasks ts = Inr ps \<Longrightarrow>
   length ps = length ts \<and> (\<forall>i < length ts. placementOf calendar origin index deps finish tasks (ts ! i) = Inr (ps ! i))"
  by (induction ts arbitrary: ps) (auto simp: go_result less_Suc_eq_0_disj)

text \<open>The days of a placement are those of the indices of its task.\<close>

definition placed_at :: "Workdays \<Rightarrow> Day \<Rightarrow> task \<Rightarrow> PlanPlacement \<Rightarrow> bool" where
  "placed_at calendar origin t p \<longleftrightarrow> PlacedID p = EntryID (tEntry t) \<and> PlacedDuration p = tD t \<and> PlacedSummary p = tSummary t
     \<and> dayAt calendar origin (tE t - 1) = Inr (PlacedFinish p)
     \<and> dayAt calendar origin (if tD t = 0 then tE t - 1 else tS t) = Inr (PlacedStart p)
     \<and> (PlacedMoved p \<longrightarrow> EntryMode (tEntry t) = Automatic \<and> \<not> EntryDone (tEntry t))
     \<and> TotalFloat p = tLS t - tS t \<and> (Critical p \<longleftrightarrow> tLS t \<le> tS t \<and> \<not> tSummary t)"

lemma placementOf_at:
  assumes "placementOf calendar origin index deps finish tasks t = Inr p" "span_ok t"
  shows "placed_at calendar origin t p \<and> FreeFloat p = freeFloat index deps finish tasks t"
  using assms by (auto simp: placementOf_def taskDays_def placed_at_def span_ok_def go_result Let_def split: if_splits)

lemma Schedule_run:
  assumes "Schedule plan = Inr answer" "PlanCalendar plan = Some calendar" "Placements answer \<noteq> []"
  obtains origin index tasks r where "indexed index tasks" "list_all fresh_task tasks"
    "runPasses calendar origin index tasks (PlanDependencies plan) = Inr r" "Conflicts answer = runConflicts r"
    "length (Placements answer) = length (runTasks r)"
    "\<forall>i < length (runTasks r). placed_at calendar origin (runTasks r ! i) (Placements answer ! i)
       \<and> FreeFloat (Placements answer ! i) = freeFloat index (runDeps r) (runEnd r) (runTasks r) (runTasks r ! i)"
    "dayAt calendar origin (runEnd r - 1) = Inr (ResultFinish answer)"
proof -
  obtain index tasks unscheduled start where c: "collect (PlanEntries plan) = (index, tasks, unscheduled, start)" using prod_cases4 by blast
  note ok = collect_ok [OF c]
  obtain first where first: "start = Some first" using assms c by (auto simp: Schedule_def split: if_splits option.splits)
  let ?origin = "first - backwardRoom"
  obtain r placements where r: "runPasses calendar ?origin index tasks (PlanDependencies plan) = Inr r"
    "placementsOf calendar (runOrigin r) index (runDeps r) (runEnd r) (runTasks r) (runTasks r) = Inr placements"
    "dayAt calendar (runOrigin r) (runEnd r - 1) = Inr (ResultFinish answer)"
    "Placements answer = placements" "Conflicts answer = runConflicts r"
    using assms(1,2) c first by (auto simp: Schedule_def go_result split: if_splits)
  have "runOrigin r = ?origin" using r(1) by (auto simp: runPasses_def go_result Let_def case_prod_beta)
  have spans: "span_ok (runTasks r ! i)" if "i < length (runTasks r)" for i
    using runPasses_ok(1) [OF _ _ r(1)] ok that by (simp add: run_ok_def)
  note at = placementsOf_nth [OF r(2)]
  show ?thesis
  proof (rule that)
    show "\<forall>i < length (runTasks r). placed_at calendar ?origin (runTasks r ! i) (Placements answer ! i)
        \<and> FreeFloat (Placements answer ! i) = freeFloat index (runDeps r) (runEnd r) (runTasks r) (runTasks r ! i)"
      using placementOf_at [OF _ spans] at \<open>runOrigin r = ?origin\<close> r(4) by auto
    show "dayAt calendar ?origin (runEnd r - 1) = Inr (ResultFinish answer)" using r(3) \<open>runOrigin r = ?origin\<close> by simp
  qed (use ok r at in auto)
qed

section \<open>Properties\<close>

text \<open>
  C18.  The entries of a plan are visited in an order that lists each of them once and every predecessor before
  its successor; the plan is refused exactly when its dependencies form a loop.
\<close>

theorem topological_sound:
  assumes "indexed index tasks" "list_all fresh_task tasks" "foldl (linkDep index) (tasks, []) dependencies = (tasks', deps)"
  shows "if acyclic (dependency_edges index deps)
    then \<exists>order. topological tasks' deps index = Inr order \<and> distinct order \<and> set order = {..<length tasks}
      \<and> visited_before (predecessor index deps) (successor index deps) (length deps) order
    else topological tasks' deps index = Inl (Failure (WithDetail ErrConflict ''planning.cycle''))"
proof -
  have "linked index tasks []" using assms(2) by (intro unlinked_start) (simp add: list_all_iff fresh_task_def)
  moreover have "\<forall>i p. index i = Some p \<longrightarrow> p < length tasks" using assms(1) by (simp add: indexed_def)
  ultimately have "linked index tasks' deps" "map unlinked tasks' = map unlinked tasks" using link_linked assms(3) by blast+
  moreover from this(2) have "length tasks' = length tasks" by (metis length_map)
  ultimately show ?thesis using topological_order by metis
qed

text \<open>What a kept dependency means for the days of two placements, the lag not counted.\<close>

definition honours :: "Workdays \<Rightarrow> DependencyKind \<Rightarrow> PlanPlacement \<Rightarrow> PlanPlacement \<Rightarrow> bool" where
  "honours calendar kind p s \<longleftrightarrow>
     (case kind of
        StartToStart \<Rightarrow> PlacedDuration s = 0 \<and> PlacedDuration p \<noteq> 0 \<or> PlacedStart p \<le> PlacedStart s
      | FinishToFinish \<Rightarrow> PlacedFinish p \<le> PlacedFinish s
      | StartToFinish \<Rightarrow> filter calendar [PlacedFinish s + 1..PlacedStart p - 1] = []
      | _ \<Rightarrow> if PlacedDuration s = 0 then PlacedFinish p \<le> PlacedStart s else PlacedFinish p < PlacedStart s)"

lemma dayAt_le: "dayAt calendar origin i = Inr x \<Longrightarrow> dayAt calendar origin j = Inr y \<Longrightarrow> x \<le> y \<longleftrightarrow> i \<le> j"
  using dayAt_mono [of calendar origin j y i x] by auto

lemma no_workday_between:
  assumes "dayAt calendar origin i = Inr x" "dayAt calendar origin j = Inr y" "j \<le> i + 1"
  shows "filter calendar [x + 1..y - 1] = []"
proof (cases "x < y")
  case True
  note x = dayAt_workday [OF assms(1)] and y = dayAt_workday [OF assms(2)]
  have "workdays calendar origin y = workdays calendar origin x @ filter calendar [x..y - 1]"
    using workdays_split [of origin x y] x True by simp
  moreover have "[x..y - 1] = x # [x + 1..y - 1]" using True by (simp add: upto_rec1)
  ultimately have "length (workdays calendar origin y) = length (workdays calendar origin x) + 1 + length (filter calendar [x + 1..y - 1])"
    using x by simp
  then show ?thesis using x y assms(3) by simp
qed simp

lemma kept_honours:
  assumes "placed_at calendar origin t p" "placed_at calendar origin u s" "span_ok t" "span_ok u"
    and "0 \<le> slack t u timing" "0 \<le> LagDays timing"
  shows "honours calendar (TimingKind timing) p s"
proof -
  note days = assms(1,2) [unfolded placed_at_def]
  have le: "x \<le> y" if "dayAt calendar origin i = Inr x" "dayAt calendar origin j = Inr y" "i \<le> j" for x y i j
    using dayAt_le [OF that(1,2)] that(3) by simp
  have less: "x < y" if "dayAt calendar origin i = Inr x" "dayAt calendar origin j = Inr y" "i < j" for x y i j
    using dayAt_mono [OF that(1,2)] that(3) by simp
  have spans: "tE t = tS t + tD t" "tE u = tS u + tD u" "0 \<le> tD t" "0 \<le> tD u" using assms(3,4) by (simp_all add: span_ok_def)
  show ?thesis
  proof (cases "TimingKind timing")
    case StartToStart
    then have "tS t \<le> tS u" using assms(5,6) by (simp add: slack_def earliestStart_def)
    then show ?thesis using StartToStart days le spans by (auto simp: honours_def split: if_splits)
  next
    case FinishToFinish
    then have "tE t - 1 \<le> tE u - 1" using assms(5,6) spans by (simp add: slack_def earliestStart_def)
    then have "PlacedFinish p \<le> PlacedFinish s" using days le by blast
    then show ?thesis using FinishToFinish by (simp add: honours_def)
  next
    case StartToFinish
    then have "tS t \<le> tE u" using assms(5,6) spans by (simp add: slack_def earliestStart_def)
    then have "(if tD t = 0 then tE t - 1 else tS t) \<le> (tE u - 1) + 1" using spans by simp
    then have "filter calendar [PlacedFinish s + 1..PlacedStart p - 1] = []" using days no_workday_between by blast
    then show ?thesis using StartToFinish by (simp add: honours_def)
  qed (use assms(5,6) days le less spans in \<open>auto simp: honours_def slack_def earliestStart_def split: if_splits\<close>)
qed


text \<open>
  C27.  When no dependency is in conflict, no float is negative: an entry may slip by its free float before any
  successor must, that is never more than the total float by which it may slip before the plan's end does, the
  critical entries are those that may not slip at all, and no entry finishes after the plan.
\<close>

theorem Schedule_floats:
  assumes "Schedule plan = Inr answer" "PlanCalendar plan = Some calendar" "Conflicts answer = []" "p \<in> set (Placements answer)"
  shows "0 \<le> FreeFloat p \<and> FreeFloat p \<le> TotalFloat p \<and> (Critical p \<longleftrightarrow> TotalFloat p = 0 \<and> \<not> PlacedSummary p)
    \<and> PlacedFinish p \<le> ResultFinish answer"
proof -
  have "Placements answer \<noteq> []" using assms(4) by auto
  then obtain origin index tasks r where run: "indexed index tasks" "list_all fresh_task tasks"
    "runPasses calendar origin index tasks (PlanDependencies plan) = Inr r" "Conflicts answer = runConflicts r"
    "length (Placements answer) = length (runTasks r)"
    "\<forall>i < length (runTasks r). placed_at calendar origin (runTasks r ! i) (Placements answer ! i)
       \<and> FreeFloat (Placements answer ! i) = freeFloat index (runDeps r) (runEnd r) (runTasks r) (runTasks r ! i)"
    "dayAt calendar origin (runEnd r - 1) = Inr (ResultFinish answer)"
    by (rule Schedule_run [OF assms(1,2)]) blast
  note ok = runPasses_ok(1) [OF run(1-3), unfolded run_ok_def]
  obtain i where i: "i < length (runTasks r)" "p = Placements answer ! i" using assms(4) run(5) by (auto simp: in_set_conv_nth)
  let ?t = "runTasks r ! i"
  have at: "placed_at calendar origin ?t p" "FreeFloat p = freeFloat index (runDeps r) (runEnd r) (runTasks r) ?t" using run(6) i by simp_all
  have none: "runConflicts r = []" using run(4) assms(3) by simp
  have spans: "\<forall>t \<in> set (runTasks r). tE t = tS t + tD t \<and> tE t \<le> runEnd r" using ok unfolding span_ok_def by blast
  have late: "\<forall>j < length (runTasks r). late_ok index (runDeps r) (runEnd r) (runTasks r) j" using ok none by blast
  have "\<forall>k \<in> set (tSuccs ?t). successor index (runDeps r) k < length (runTasks r) \<and> predecessor index (runDeps r) k = i
      \<and> kept index (runDeps r) (runTasks r) k"
    using ok i(1) none unfolding linked_def by auto
  note float = floats [OF spans i(1) late this]
  have "tE ?t \<le> runEnd r" using spans nth_mem [OF i(1)] by blast
  then have "PlacedFinish p \<le> ResultFinish answer"
    using dayAt_le [OF _ run(7), of "tE ?t - 1" "PlacedFinish p"] at(1) by (simp add: placed_at_def)
  moreover have "Critical p \<longleftrightarrow> TotalFloat p = 0 \<and> \<not> PlacedSummary p"
    using float at(1) by (auto simp: placed_at_def)
  ultimately show ?thesis using float at by (simp add: placed_at_def)
qed

section \<open>A plan of two entries\<close>

definition draft :: PlanEntry where
  "draft = \<lparr>EntryID = ''draft'', EntryParentID = '''', EntryMode = Manual, EntryMilestone = False, EntryDone = False,
     EntryStart = Some 100, EntryFinish = Some 101\<rparr>"

definition review :: PlanEntry where
  "review = \<lparr>EntryID = ''review'', EntryParentID = '''', EntryMode = Automatic, EntryMilestone = False, EntryDone = False,
     EntryStart = Some 100, EntryFinish = None\<rparr>"

definition reviewWaits :: Dependency where
  "reviewWaits = \<lparr>Predecessor = ''draft'', Successor = ''review'', DepTiming = \<lparr>TimingKind = NoKind, LagDays = 0\<rparr>\<rparr>"

definition samplePlan :: Plan where
  "samplePlan = \<lparr>PlanEntries = [draft, review], PlanDependencies = [reviewWaits], PlanCalendar = Some (\<lambda>_. True)\<rparr>"

definition sampleTask :: "PlanEntry \<Rightarrow> Day \<Rightarrow> Day \<Rightarrow> task" where
  "sampleTask entry start finish = \<lparr>tEntry = entry, tS = 0, tE = 0, tD = 0, tLS = 0, tLE = 0, tPreds = [], tSuccs = [],
     tSummary = False, tOriginalStart = start, tOriginalEnd = finish\<rparr>"

definition sampleIndex :: index where
  "sampleIndex = [''draft'' \<mapsto> 0, ''review'' \<mapsto> 1]"

lemma sample_collected:
  "collect (PlanEntries samplePlan) = (sampleIndex, [sampleTask draft 100 101, sampleTask review 100 100], [], Some 100)"
  by (simp add: collect_def collectEntry_def entrySpan_def samplePlan_def draft_def review_def sampleTask_def IsZero_def sampleIndex_def)

lemma sample_placed:
  "placeTasks (\<lambda>_. True) (- 998) [sampleTask draft 100 101, sampleTask review 100 100]
     = Inr [(sampleTask draft 100 101)\<lparr>tS := 1098, tE := 1100, tD := 2\<rparr>, (sampleTask review 100 100)\<lparr>tS := 1098, tE := 1099, tD := 1\<rparr>]"
  by (simp add: placeTask_def everyday_after everyday_before maxReachDays_def minPlanLength_def sampleTask_def draft_def review_def)

definition sampleAnswer :: ScheduleResult where
  "sampleAnswer = \<lparr>Placements =
     [\<lparr>PlacedID = ''draft'', PlacedStart = 100, PlacedFinish = 101, PlacedDuration = 2, PlacedMoved = False, TotalFloat = 0, FreeFloat = 0,
       Critical = True, PlacedSummary = False\<rparr>,
      \<lparr>PlacedID = ''review'', PlacedStart = 102, PlacedFinish = 102, PlacedDuration = 1, PlacedMoved = True, TotalFloat = 0, FreeFloat = 0,
       Critical = True, PlacedSummary = False\<rparr>],
     Unscheduled = [], Conflicts = [], ResultFinish = 102, CriticalPath = [''draft'', ''review'']\<rparr>"

definition sampleRun :: run where
  "sampleRun = \<lparr>runOrigin = - 998, runIndex = sampleIndex, runDeps = [started reviewWaits],
     runTasks = [(sampleTask draft 100 101)\<lparr>tS := 1098, tE := 1100, tD := 2, tLS := 1098, tLE := 1100, tSuccs := [0]\<rparr>,
       (sampleTask review 100 100)\<lparr>tS := 1100, tE := 1101, tD := 1, tLS := 1100, tLE := 1101, tPreds := [0]\<rparr>],
     runEnd = 1101, runConflicts = []\<rparr>"

lemma sample_linked:
  "foldl (linkDep sampleIndex)
     ([(sampleTask draft 100 101)\<lparr>tS := 1098, tE := 1100, tD := 2\<rparr>, (sampleTask review 100 100)\<lparr>tS := 1098, tE := 1099, tD := 1\<rparr>], [])
     [reviewWaits]
   = ([(sampleTask draft 100 101)\<lparr>tS := 1098, tE := 1100, tD := 2, tSuccs := [0]\<rparr>,
       (sampleTask review 100 100)\<lparr>tS := 1098, tE := 1099, tD := 1, tPreds := [0]\<rparr>], [started reviewWaits])"
  by (simp add: linkDep_def reviewWaits_def sampleTask_def started_def sampleIndex_def)

lemma sample_order:
  "topological [(sampleTask draft 100 101)\<lparr>tS := 1098, tE := 1100, tD := 2, tSuccs := [0]\<rparr>,
     (sampleTask review 100 100)\<lparr>tS := 1098, tE := 1099, tD := 1, tPreds := [0]\<rparr>] [started reviewWaits] sampleIndex = Inr [0, 1]"
  by code_simp

lemma sample_forward:
  "forwardPass (\<lambda>_. True) (- 998) sampleIndex [started reviewWaits] [0, 1]
     ([(sampleTask draft 100 101)\<lparr>tS := 1098, tE := 1100, tD := 2, tSuccs := [0]\<rparr>,
       (sampleTask review 100 100)\<lparr>tS := 1098, tE := 1099, tD := 1, tPreds := [0]\<rparr>], [])
   = Inr ([(sampleTask draft 100 101)\<lparr>tS := 1098, tE := 1100, tD := 2, tSuccs := [0]\<rparr>,
       (sampleTask review 100 100)\<lparr>tS := 1100, tE := 1101, tD := 1, tPreds := [0]\<rparr>], [])"
  by code_simp

lemma sample_rolled:
  "rollUpSpans [(sampleTask draft 100 101)\<lparr>tS := 1098, tE := 1100, tD := 2, tSuccs := [0]\<rparr>,
       (sampleTask review 100 100)\<lparr>tS := 1100, tE := 1101, tD := 1, tPreds := [0]\<rparr>] sampleIndex
   = [(sampleTask draft 100 101)\<lparr>tS := 1098, tE := 1100, tD := 2, tSuccs := [0]\<rparr>,
       (sampleTask review 100 100)\<lparr>tS := 1100, tE := 1101, tD := 1, tPreds := [0]\<rparr>]"
  by code_simp

lemma sample_end:
  "planEnd [(sampleTask draft 100 101)\<lparr>tS := 1098, tE := 1100, tD := 2, tSuccs := [0]\<rparr>,
       (sampleTask review 100 100)\<lparr>tS := 1100, tE := 1101, tD := 1, tPreds := [0]\<rparr>] = 1101"
  by code_simp

lemma sample_backward:
  "backwardPass sampleIndex [started reviewWaits] 1101 [0, 1]
     [(sampleTask draft 100 101)\<lparr>tS := 1098, tE := 1100, tD := 2, tSuccs := [0]\<rparr>,
       (sampleTask review 100 100)\<lparr>tS := 1100, tE := 1101, tD := 1, tPreds := [0]\<rparr>]
   = runTasks sampleRun"
  by code_simp

lemma sample_run:
  "runPasses (\<lambda>_. True) (- 998) sampleIndex [sampleTask draft 100 101, sampleTask review 100 100] [reviewWaits] = Inr sampleRun"
  unfolding runPasses_def sample_placed rbind_simps sample_linked prod.case Let_def sample_order sample_forward sample_rolled sample_end sample_backward
  by (simp add: sampleRun_def)

lemma sample_scheduled: "Schedule samplePlan = Inr sampleAnswer"
  using sample_collected sample_run
  by (simp add: Schedule_def samplePlan_def MaxEntries_def backwardRoom_def sampleRun_def placementOf_def taskDays_def everyday_day maxReachDays_def
      freeFloat_def slack_def successor_def indexOf_def earliestStart_def started_def reviewWaits_def sampleTask_def draft_def review_def
      sampleAnswer_def sampleIndex_def)

lemma sample_fresh:
  "indexed sampleIndex [sampleTask draft 100 101, sampleTask review 100 100]"
  "list_all fresh_task [sampleTask draft 100 101, sampleTask review 100 100]"
  using collect_ok [OF sample_collected] by blast+

lemma sample_link:
  "foldl (linkDep sampleIndex) ([sampleTask draft 100 101, sampleTask review 100 100], []) [reviewWaits]
     = ([(sampleTask draft 100 101)\<lparr>tSuccs := [0]\<rparr>, (sampleTask review 100 100)\<lparr>tPreds := [0]\<rparr>], [started reviewWaits])"
  by (simp add: linkDep_def reviewWaits_def sampleTask_def started_def sampleIndex_def)

theorem topological_sound_witness:
  "\<exists>order. topological [(sampleTask draft 100 101)\<lparr>tSuccs := [0]\<rparr>, (sampleTask review 100 100)\<lparr>tPreds := [0]\<rparr>] [started reviewWaits] sampleIndex
     = Inr order \<and> distinct order \<and> set order = {..<2}"
proof -
  have "dependency_edges sampleIndex [started reviewWaits] = {(0, 1)}"
    by (auto simp: dependency_edges_def predecessor_def successor_def indexOf_def sampleIndex_def started_def reviewWaits_def)
  moreover have "acyclic {(0 :: nat, 1 :: nat)}" by (rule wf_acyclic, rule wf_subset [of "measure id"]) auto
  ultimately show ?thesis using topological_sound [OF sample_fresh sample_link] by auto
qed


theorem Schedule_floats_witness:
  "0 \<le> FreeFloat (Placements sampleAnswer ! 1) \<and> FreeFloat (Placements sampleAnswer ! 1) \<le> TotalFloat (Placements sampleAnswer ! 1)
    \<and> PlacedFinish (Placements sampleAnswer ! 1) \<le> ResultFinish sampleAnswer"
proof -
  have "PlanCalendar samplePlan = Some (\<lambda>_. True)" "Conflicts sampleAnswer = []" "Placements sampleAnswer ! 1 \<in> set (Placements sampleAnswer)"
    by (simp_all add: samplePlan_def sampleAnswer_def)
  from Schedule_floats [OF sample_scheduled this] show ?thesis by blast
qed

end
