(* ===== verification/Assign_Policy.thy ===== *)
theory Assign_Policy
  imports Hierarchy Json
begin

text \<open>
  The assignment policy of a collection (\<^verbatim>\<open>work/AutoAssignPolicy.go\<close>) and the table that stores it
  (\<^verbatim>\<open>postgres/AutoAssignPolicyRepository.go\<close> with its statements).  A strategy and a candidate kind are strings, as in
  the code.  The columns \<^verbatim>\<open>candidates\<close> and \<^verbatim>\<open>state\<close> are JSON documents of a fixed shape; the row holds what they decode
  to.  Rows are those of one tenant, as row level security shows them.
\<close>

section \<open>Strategies and candidates\<close>

type_synonym AutoAssignStrategy = string
type_synonym CandidateKind = string
type_synonym AutoAssignScope = string

abbreviation "AssignFixed \<equiv> ''FIXED''"
abbreviation "AssignRandomMember \<equiv> ''RANDOM_MEMBER''"
abbreviation "AssignRandomGroupMember \<equiv> ''RANDOM_GROUP_MEMBER''"
abbreviation "AssignRoundRobin \<equiv> ''ROUND_ROBIN''"
abbreviation "AssignLeastLoaded \<equiv> ''LEAST_LOADED''"
abbreviation "CandidateAccount \<equiv> ''ACCOUNT''"
abbreviation "CandidateGroup \<equiv> ''GROUP''"
abbreviation "AutoAssignScopeCollection \<equiv> ''COLLECTION''"

definition AutoAssignStrategies :: "AutoAssignStrategy list" where
  "AutoAssignStrategies = [AssignFixed, AssignRandomMember, AssignRandomGroupMember, AssignRoundRobin, AssignLeastLoaded]"

definition Strategy_Valid :: "AutoAssignStrategy \<Rightarrow> bool" where
  "Strategy_Valid s \<longleftrightarrow> s \<in> set AutoAssignStrategies"

definition strategyUnknown :: "string \<Rightarrow> failure" where
  "strategyUnknown value =
     Failure (WithFields (WithParams (WithDetail ErrValidation ''containers.auto_assign_strategy_unknown'') [(''value'', value)])
       [field_error ''/policies/auto_assign/strategy'' ''containers.auto_assign_strategy_unknown''])"

definition ParseAutoAssignStrategy :: "string \<Rightarrow> AutoAssignStrategy result" where
  "ParseAutoAssignStrategy value = (if \<not> Strategy_Valid value then Inl (strategyUnknown value) else Inr value)"

record AutoAssignCandidate =
  CandKind :: CandidateKind
  CandID :: ID

definition ParseCandidateKind :: "string \<Rightarrow> CandidateKind result" where
  "ParseCandidateKind value =
     (if value \<noteq> CandidateAccount \<and> value \<noteq> CandidateGroup
      then Inl (Failure (WithFields (WithParams (WithDetail ErrValidation ''containers.auto_assign_candidate_kind_unknown'')
        [(''value'', value)]) [field_error ''/policies/auto_assign/candidates'' ''containers.auto_assign_candidate_kind_unknown'']))
      else Inr value)"

definition candidateKind :: "AutoAssignStrategy \<Rightarrow> CandidateKind" where
  "candidateKind s = (if s = AssignRandomGroupMember then CandidateGroup else CandidateAccount)"

section \<open>Definitions\<close>

record AutoAssignDefinition =
  DefStrategy :: AutoAssignStrategy
  DefCandidates :: "AutoAssignCandidate list"
  DefEnabled :: bool

record AutoAssignPolicy =
  PolicyID :: ID
  PolicyScopeType :: AutoAssignScope
  PolicyScopeID :: ID
  PolicyStrategy :: AutoAssignStrategy
  PolicyCandidates :: "AutoAssignCandidate list"
  PolicyCursor :: int
  PolicyEnabled :: bool
  PolicyVersion :: int

definition Definition :: "AutoAssignPolicy \<Rightarrow> AutoAssignDefinition" where
  "Definition p = \<lparr>DefStrategy = PolicyStrategy p, DefCandidates = PolicyCandidates p, DefEnabled = PolicyEnabled p\<rparr>"

definition Definition_Equal :: "AutoAssignDefinition \<Rightarrow> AutoAssignDefinition \<Rightarrow> bool" where
  "Definition_Equal d other \<longleftrightarrow>
     DefStrategy d = DefStrategy other \<and> DefEnabled d = DefEnabled other \<and> length (DefCandidates d) = length (DefCandidates other)
     \<and> list_all2 (=) (DefCandidates d) (DefCandidates other)"

definition candidatesError :: "string \<Rightarrow> failure" where
  "candidatesError code = Failure (WithFields (WithDetail ErrValidation code) [field_error ''/policies/auto_assign/candidates'' code])"

fun checkCandidates :: "AutoAssignStrategy \<Rightarrow> AutoAssignCandidate list \<Rightarrow> failure option" where
  "checkCandidates strategy [] = None"
| "checkCandidates strategy (candidate # rest) =
     (if IsZero (CandID candidate) then Some (candidatesError ''containers.auto_assign_candidate_id_required'')
      else if CandKind candidate \<noteq> candidateKind strategy
      then Some (Failure (WithFields (WithParams (WithDetail ErrValidation ''containers.auto_assign_candidate_kind_invalid'')
        [(''strategy'', strategy), (''kind'', CandKind candidate)])
        [field_error ''/policies/auto_assign/candidates'' ''containers.auto_assign_candidate_kind_invalid'']))
      else checkCandidates strategy rest)"

definition Definition_Validate :: "AutoAssignDefinition \<Rightarrow> failure option" where
  "Definition_Validate d =
     (if \<not> Strategy_Valid (DefStrategy d) then Some (strategyUnknown (DefStrategy d))
      else if DefCandidates d = [] then Some (candidatesError ''containers.auto_assign_candidates_required'')
      else if DefStrategy d = AssignFixed \<and> length (DefCandidates d) \<noteq> 1
      then Some (Failure (WithFields (WithParams (WithDetail ErrValidation ''containers.auto_assign_single_candidate_required'')
        [(''count'', itoa (int (length (DefCandidates d))))])
        [field_error ''/policies/auto_assign/candidates'' ''containers.auto_assign_single_candidate_required'']))
      else checkCandidates (DefStrategy d) (DefCandidates d))"

text \<open>A type assertion with a discarded second value answers the zero value of the type.\<close>

definition asString :: "json \<Rightarrow> string" where
  "asString v = (case v of JStr s \<Rightarrow> s | _ \<Rightarrow> '''')"

fun parseCandidates :: "json list \<Rightarrow> AutoAssignCandidate list result" where
  "parseCandidates [] = Inr []"
| "parseCandidates (JObj candidate # rest) =
     rbind (ParseCandidateKind (asString (jget candidate ''kind''))) (\<lambda>kind.
     case ParseID (asString (jget candidate ''id'')) of
       Inl _ \<Rightarrow> Inl (candidatesError ''containers.auto_assign_candidate_id_required'')
     | Inr i \<Rightarrow> rbind (parseCandidates rest) (\<lambda>candidates. Inr (\<lparr>CandKind = kind, CandID = i\<rparr> # candidates)))"
| "parseCandidates (_ # rest) = Inl (candidatesError ''usecase.field_type_invalid'')"

definition ParseAutoAssignDefinition :: "json \<Rightarrow> AutoAssignDefinition option result" where
  "ParseAutoAssignDefinition value =
     (case value of
        JNull \<Rightarrow> Inr None
      | JObj document \<Rightarrow>
          rbind (ParseAutoAssignStrategy (asString (jget document ''strategy''))) (\<lambda>strategy.
          case jget document ''candidates'' of
            JArr list \<Rightarrow>
              rbind (parseCandidates list) (\<lambda>candidates.
                let definition' = \<lparr>DefStrategy = strategy, DefCandidates = candidates,
                      DefEnabled = (case jget document ''enabled'' of JBool sent \<Rightarrow> sent | _ \<Rightarrow> True)\<rparr>
                in guarded (Definition_Validate definition') (Inr (Some definition')))
          | _ \<Rightarrow> Inl (candidatesError ''containers.auto_assign_candidates_required''))
      | _ \<Rightarrow> Inl (Failure (WithFields (WithDetail ErrValidation ''usecase.field_type_invalid'')
          [field_error ''/policies/auto_assign'' ''usecase.field_type_invalid''])))"

section \<open>The table of policies\<close>

record StoredPolicy =
  RowID :: ID
  RowScopeType :: string
  RowScopeID :: ID
  RowStrategy :: string
  RowCandidates :: "(string \<times> string) list"
  RowCursor :: int
  RowEnabled :: bool
  RowVersion :: int

definition atScope :: "AutoAssignScope \<Rightarrow> ID \<Rightarrow> StoredPolicy \<Rightarrow> bool" where
  "atScope scope i row \<longleftrightarrow> RowScopeType row = scope \<and> RowScopeID row = i"

fun candidatesFrom :: "(string \<times> string) list \<Rightarrow> AutoAssignCandidate list result" where
  "candidatesFrom [] = Inr []"
| "candidatesFrom ((kind, i) # rest) =
     rbind (ParseCandidateKind kind) (\<lambda>kind. rbind (candidatesFrom rest) (\<lambda>pool. Inr (\<lparr>CandKind = kind, CandID = i\<rparr> # pool)))"

definition policyOf :: "StoredPolicy \<Rightarrow> AutoAssignPolicy result" where
  "policyOf row =
     rbind (ParseAutoAssignStrategy (RowStrategy row)) (\<lambda>strategy.
     rbind (candidatesFrom (RowCandidates row)) (\<lambda>pool.
       Inr \<lparr>PolicyID = RowID row, PolicyScopeType = RowScopeType row, PolicyScopeID = RowScopeID row, PolicyStrategy = strategy,
            PolicyCandidates = pool, PolicyCursor = RowCursor row, PolicyEnabled = RowEnabled row, PolicyVersion = RowVersion row\<rparr>))"

definition FindForScope :: "StoredPolicy list \<Rightarrow> AutoAssignScope \<Rightarrow> ID \<Rightarrow> AutoAssignPolicy result" where
  "FindForScope rows scope i =
     (case find (atScope scope i) rows of None \<Rightarrow> Inl (Failure ErrNotFound) | Some row \<Rightarrow> policyOf row)"

text \<open>The row held \<^verbatim>\<open>FOR UPDATE\<close>: a transaction is one step of the model, so what it reads is the same.\<close>

definition LockPolicy :: "StoredPolicy list \<Rightarrow> AutoAssignScope \<Rightarrow> ID \<Rightarrow> AutoAssignPolicy result" where
  "LockPolicy rows scope i =
     (case find (atScope scope i) rows of None \<Rightarrow> Inl (Failure ErrNotFound) | Some row \<Rightarrow> policyOf row)"

definition UpsertPolicy :: "StoredPolicy list \<Rightarrow> AutoAssignPolicy \<Rightarrow> StoredPolicy list result" where
  "UpsertPolicy rows policy =
     (let stored = map (\<lambda>c. (CandKind c, CandID c)) (PolicyCandidates policy);
          here = atScope (PolicyScopeType policy) (PolicyScopeID policy)
      in if list_ex here rows
         then Inr (map (\<lambda>row. if here row
                then row\<lparr>RowStrategy := PolicyStrategy policy, RowCandidates := stored, RowCursor := 0,
                         RowEnabled := PolicyEnabled policy, RowVersion := RowVersion row + 1\<rparr>
                else row) rows)
         else if list_ex (\<lambda>row. RowID row = PolicyID policy) rows
         then Inl (Failure (WithDetail ErrUnavailable ''postgres.query_failed''))
         else Inr (rows @ [\<lparr>RowID = PolicyID policy, RowScopeType = PolicyScopeType policy, RowScopeID = PolicyScopeID policy,
                RowStrategy = PolicyStrategy policy, RowCandidates = stored, RowCursor = 0, RowEnabled = PolicyEnabled policy,
                RowVersion = 1\<rparr>]))"

definition DeletePolicy :: "StoredPolicy list \<Rightarrow> AutoAssignScope \<Rightarrow> ID \<Rightarrow> StoredPolicy list" where
  "DeletePolicy rows scope i = filter (\<lambda>row. \<not> atScope scope i row) rows"

definition SaveState :: "StoredPolicy list \<Rightarrow> AutoAssignPolicy \<Rightarrow> StoredPolicy list result" where
  "SaveState rows policy =
     (if \<not> list_ex (\<lambda>row. RowID row = PolicyID policy) rows
      then Inl (Failure (WithDetail ErrInternal ''postgres.row_vanished''))
      else Inr (map (\<lambda>row. if RowID row = PolicyID policy then row\<lparr>RowCursor := PolicyCursor policy\<rparr> else row) rows))"

text \<open>The policy a collection is read with: the columns of the row the container is joined with.\<close>

definition autoAssignDefinitionFrom :: "StoredPolicy option \<Rightarrow> AutoAssignDefinition option result" where
  "autoAssignDefinitionFrom joined =
     (case joined of
        None \<Rightarrow> Inr None
      | Some row \<Rightarrow>
          rbind (ParseAutoAssignStrategy (RowStrategy row)) (\<lambda>strategy.
          rbind (candidatesFrom (RowCandidates row)) (\<lambda>pool.
            Inr (Some \<lparr>DefStrategy = strategy, DefCandidates = pool, DefEnabled = RowEnabled row\<rparr>))))"

section \<open>Laws\<close>

lemma Strategy_Valid_iff [simp]:
  "Strategy_Valid s \<longleftrightarrow> s \<in> {AssignFixed, AssignRandomMember, AssignRandomGroupMember, AssignRoundRobin, AssignLeastLoaded}"
  by (auto simp: Strategy_Valid_def AutoAssignStrategies_def)

lemma ParseCandidateKind_Inr: "ParseCandidateKind k = Inr kind \<longleftrightarrow> kind = k \<and> (k = CandidateAccount \<or> k = CandidateGroup)"
  by (auto simp: ParseCandidateKind_def)

lemma checkCandidates_None:
  "checkCandidates s cs = None \<longleftrightarrow> (\<forall>c \<in> set cs. CandID c \<noteq> [] \<and> CandKind c = candidateKind s)"
  by (induction cs) auto

lemma Definition_Equal_iff: "Definition_Equal d e \<longleftrightarrow> d = e"
  by (cases d, cases e) (auto simp: Definition_Equal_def list.rel_eq)

lemma candidateKind_parses: "ParseCandidateKind (candidateKind s) = Inr (candidateKind s)"
  by (simp add: ParseCandidateKind_Inr candidateKind_def)

lemma candidatesFrom_stored:
  "checkCandidates s cs = None \<Longrightarrow> candidatesFrom (map (\<lambda>c. (CandKind c, CandID c)) cs) = Inr cs"
  by (induction cs) (auto simp: candidateKind_parses split: if_splits)

lemma find_map_cong:
  "(\<And>x. P (f x) = P x) \<Longrightarrow> find P (map f xs) = map_option f (find P xs)"
  by (induction xs) auto

end
