(* ===== verification/Assignment.thy ===== *)
theory Assignment
  imports Assign_Policy Placements
begin

text \<open>
  Who an entry is given to: the five strategies of \<^verbatim>\<open>service/Assignment.go\<close>, and the use cases that run them or
  take a name (\<^verbatim>\<open>AutoAssignWorkItem.go\<close>, \<^verbatim>\<open>AssignWorkItem.go\<close>, the assignment of a created entry in
  \<^verbatim>\<open>CreateWorkItem.go\<close>).  The randomness a request draws on is a function: the answer of its \<open>k\<close>-th call for a
  bound.  What the use cases ask of other components (who may see a collection, the members of a group, restrictions of
  processing, the permission check, the profile in force) is a record of ports.  The events, the change log, the audit
  and the history a write leaves are not modelled.
\<close>

section \<open>Strategies\<close>

text \<open>An index out of range is a panic.  The remainder of Go has the sign of its dividend.\<close>

definition goIndex :: "'a list \<Rightarrow> int \<Rightarrow> 'a result" where
  "goIndex xs i = (if 0 \<le> i \<and> i < int (length xs) then Inr (xs ! nat i) else Inl Panic)"

definition goRem :: "int \<Rightarrow> int \<Rightarrow> int" where
  "goRem a b = sgn a * (\<bar>a\<bar> mod \<bar>b\<bar>)"

record AssignmentGroup =
  GroupID :: ID
  GroupMembers :: "ID list"

record AssignmentSelection =
  SelAccounts :: "ID list"
  Positions :: "int list"
  CandidateCount :: int
  Cursor :: int
  SelGroups :: "AssignmentGroup list"
  OpenItems :: "ID \<Rightarrow> int"
  Random :: "nat \<Rightarrow> int \<Rightarrow> int"

record AssignmentChoice =
  ChosenID :: ID
  NextCursor :: int
  Advanced :: bool

type_synonym AssignmentStrategy = "AssignmentSelection \<Rightarrow> AssignmentChoice option result"

definition picked :: "ID \<Rightarrow> AssignmentChoice" where
  "picked account = \<lparr>ChosenID = account, NextCursor = 0, Advanced = False\<rparr>"

definition fixedStrategy :: AssignmentStrategy where
  "fixedStrategy inp = (case SelAccounts inp of [] \<Rightarrow> Inr None | account # _ \<Rightarrow> Inr (Some (picked account)))"

definition randomMemberStrategy :: AssignmentStrategy where
  "randomMemberStrategy inp =
     (if SelAccounts inp = [] then Inr None
      else rbind (goIndex (SelAccounts inp) (Random inp 0 (int (length (SelAccounts inp))))) (\<lambda>account. Inr (Some (picked account))))"

definition randomGroupMemberStrategy :: AssignmentStrategy where
  "randomGroupMemberStrategy inp =
     (if SelGroups inp = [] then Inr None
      else rbind (goIndex (SelGroups inp) (Random inp 0 (int (length (SelGroups inp))))) (\<lambda>group.
           rbind (goIndex (GroupMembers group) (Random inp 1 (int (length (GroupMembers group))))) (\<lambda>account.
             Inr (Some (picked account)))))"

fun roundRobinWalk :: "AssignmentSelection \<Rightarrow> int \<Rightarrow> int list \<Rightarrow> AssignmentChoice option result" where
  "roundRobinWalk inp start [] = Inr None"
| "roundRobinWalk inp start (offset # offsets) =
     (let position = goRem (start + offset) (CandidateCount inp) in
      case find (\<lambda>(i, candidate). candidate = position) (enumerate 0 (Positions inp)) of
        None \<Rightarrow> roundRobinWalk inp start offsets
      | Some (i, _) \<Rightarrow>
          rbind (goIndex (SelAccounts inp) (int i)) (\<lambda>account.
            Inr (Some \<lparr>ChosenID = account, NextCursor = goRem (position + 1) (CandidateCount inp), Advanced = True\<rparr>)))"

definition roundRobinStrategy :: AssignmentStrategy where
  "roundRobinStrategy inp =
     (if SelAccounts inp = [] \<or> CandidateCount inp = 0 then Inr None
      else roundRobinWalk inp (goRem (Cursor inp) (CandidateCount inp)) [0..CandidateCount inp - 1])"

fun leastLoadedWalk :: "(ID \<Rightarrow> int) \<Rightarrow> ID \<Rightarrow> int \<Rightarrow> ID list \<Rightarrow> ID" where
  "leastLoadedWalk load chosen lowest [] = chosen"
| "leastLoadedWalk load chosen lowest (account # accounts) =
     (if load account < lowest then leastLoadedWalk load account (load account) accounts
      else leastLoadedWalk load chosen lowest accounts)"

definition leastLoadedStrategy :: AssignmentStrategy where
  "leastLoadedStrategy inp =
     (case SelAccounts inp of
        [] \<Rightarrow> Inr None
      | chosen # accounts \<Rightarrow> Inr (Some (picked (leastLoadedWalk (OpenItems inp) chosen (OpenItems inp chosen) accounts))))"

definition strategies :: "(AutoAssignStrategy \<times> AssignmentStrategy) list" where
  "strategies = [(AssignFixed, fixedStrategy), (AssignRandomMember, randomMemberStrategy),
     (AssignRandomGroupMember, randomGroupMemberStrategy), (AssignRoundRobin, roundRobinStrategy),
     (AssignLeastLoaded, leastLoadedStrategy)]"

definition StrategyFor :: "AutoAssignStrategy \<Rightarrow> AssignmentStrategy result" where
  "StrategyFor strategy =
     (case map_of strategies strategy of
        None \<Rightarrow> Inl (Failure (WithParams (WithDetail ErrInternal ''items.auto_assign_strategy_unhandled'') [(''strategy'', strategy)]))
      | Some chosen \<Rightarrow> Inr chosen)"

section \<open>The pool of a policy\<close>

record ports =
  CanSee :: "Container \<Rightarrow> ID \<Rightarrow> bool result"
  MembersOf :: "ID \<Rightarrow> ID list result"
  Restricted :: "(ID list \<Rightarrow> ID list result) option"
  RunsForRule :: ID
  IntN :: "nat \<Rightarrow> int \<Rightarrow> int"
  MayWrite :: "Container \<Rightarrow> WorkItem \<Rightarrow> failure option"
  gatedProfile :: "Container \<Rightarrow> WorkItem \<Rightarrow> CapabilityProfile result"

record eligiblePool =
  poolStrategy :: AutoAssignStrategy
  poolAccounts :: "ID list"
  poolPositions :: "int list"
  poolEligible :: "ID list"
  poolGroups :: "AssignmentGroup list"

definition emptyPool :: "AutoAssignStrategy \<Rightarrow> eligiblePool" where
  "emptyPool strategy = \<lparr>poolStrategy = strategy, poolAccounts = [], poolPositions = [], poolEligible = [], poolGroups = []\<rparr>"

text \<open>\<^verbatim>\<open>errors.Is\<close> against the shared value of a missing row compares its code.\<close>

definition isNotFound :: "failure \<Rightarrow> bool" where
  "isNotFound e = (case e of Failure err \<Rightarrow> Code err = Code ErrNotFound | Panic \<Rightarrow> False)"

definition groupMembers :: "ports \<Rightarrow> ID \<Rightarrow> ID list result" where
  "groupMembers p groupID =
     (case MembersOf p groupID of Inl e \<Rightarrow> if isNotFound e then Inr [] else Inl e | Inr members \<Rightarrow> Inr members)"

fun visibleMembers :: "ports \<Rightarrow> Container \<Rightarrow> ID list \<Rightarrow> ID list result" where
  "visibleMembers p collection [] = Inr []"
| "visibleMembers p collection (member # members) =
     rbind (CanSee p collection member) (\<lambda>visible.
     rbind (visibleMembers p collection members) (\<lambda>seen. Inr (if visible then member # seen else seen)))"

fun eligibleWalk :: "ports \<Rightarrow> Container \<Rightarrow> (nat \<times> AutoAssignCandidate) list \<Rightarrow> eligiblePool \<times> ID list
    \<Rightarrow> (eligiblePool \<times> ID list) result" where
  "eligibleWalk p collection [] state = Inr state"
| "eligibleWalk p collection ((position, candidate) # rest) (pool, considered) =
     (if CandKind candidate = CandidateAccount then
        rbind (CanSee p collection (CandID candidate)) (\<lambda>seen.
          eligibleWalk p collection rest
            (if \<not> seen then (pool, considered)
             else (pool\<lparr>poolAccounts := poolAccounts pool @ [CandID candidate], poolPositions := poolPositions pool @ [int position],
                        poolEligible := poolEligible pool @ [CandID candidate]\<rparr>, considered @ [CandID candidate])))
      else if CandKind candidate = CandidateGroup then
        rbind (groupMembers p (CandID candidate)) (\<lambda>members.
        rbind (visibleMembers p collection members) (\<lambda>seen.
          eligibleWalk p collection rest
            (if seen = [] then (pool, considered)
             else (pool\<lparr>poolGroups := poolGroups pool @ [\<lparr>GroupID = CandID candidate, GroupMembers = seen\<rparr>]\<rparr>, considered @ seen))))
      else eligibleWalk p collection rest (pool, considered))"

definition keepUnrestricted :: "ID list \<Rightarrow> eligiblePool \<Rightarrow> eligiblePool" where
  "keepUnrestricted restricted pool =
     (let kept = filter (\<lambda>(account, position). account \<notin> set restricted) (zip (poolAccounts pool) (poolPositions pool)) in
      (emptyPool (poolStrategy pool))\<lparr>poolAccounts := map fst kept, poolPositions := map snd kept, poolEligible := map fst kept,
        poolGroups := filter (\<lambda>group. GroupMembers group \<noteq> [])
          (map (\<lambda>group. group\<lparr>GroupMembers := filter (\<lambda>m. m \<notin> set restricted) (GroupMembers group)\<rparr>) (poolGroups pool))\<rparr>)"

definition withoutRestricted :: "ports \<Rightarrow> eligiblePool \<Rightarrow> ID list \<Rightarrow> eligiblePool result" where
  "withoutRestricted p pool considered =
     (case Restricted p of
        None \<Rightarrow> Inr pool
      | Some ask \<Rightarrow>
          if considered = [] then Inr pool
          else rbind (ask considered) (\<lambda>restricted. Inr (if restricted = [] then pool else keepUnrestricted restricted pool)))"

definition eligible :: "ports \<Rightarrow> Container \<Rightarrow> AutoAssignDefinition \<Rightarrow> eligiblePool result" where
  "eligible p collection definition' =
     rbind (eligibleWalk p collection (enumerate 0 (DefCandidates definition')) (emptyPool (DefStrategy definition'), []))
       (\<lambda>(pool, considered). withoutRestricted p pool considered)"

section \<open>The state and its statements\<close>

record desk =
  deskTree :: tree
  deskPolicies :: "StoredPolicy list"

definition isOpen :: "WorkItem \<Rightarrow> bool" where
  "isOpen row \<longleftrightarrow> \<not> IsCompleted (ItemCompletion row) \<and> DeletedAt row = None \<and> ArchivedAt row = None"

definition CountOpenByAssignee :: "WorkItem list \<Rightarrow> ID list \<Rightarrow> ID \<Rightarrow> int" where
  "CountOpenByAssignee rows accounts account =
     (if account \<in> set accounts then int (length (filter (\<lambda>row. AssigneeID row = account \<and> isOpen row) rows)) else 0)"

definition SetAssignee :: "WorkItem list \<Rightarrow> WorkItem \<Rightarrow> int \<Rightarrow> WorkItem list result" where
  "SetAssignee rows item expected =
     (if \<not> list_ex (\<lambda>r. ItemID r = ItemID item \<and> Version r = expected) rows
      then Inl (versionConflict (ItemID item) expected)
      else Inr (map (\<lambda>row. if ItemID row = ItemID item \<and> Version row = expected
             then row\<lparr>AssigneeID := AssigneeID item, UpdatedAt := UpdatedAt item, Version := Version row + 1\<rparr> else row) rows))"

text \<open>\<^verbatim>\<open>AssignmentWriter.write\<close>, up to the records a change leaves beside the row.\<close>

definition writeAssignee :: "desk \<Rightarrow> WorkItem \<Rightarrow> WorkItem \<Rightarrow> int \<Rightarrow> (desk \<times> WorkItem) result" where
  "writeAssignee d before after expectedVersion =
     (let expected = (if expectedVersion = 0 then Version before else expectedVersion) in
      rbind (SetAssignee (items (deskTree d)) after expected) (\<lambda>rows.
        Inr (d\<lparr>deskTree := (deskTree d)\<lparr>items := rows\<rparr>\<rparr>, after\<lparr>Version := expected + 1\<rparr>)))"

section \<open>Assigning by policy\<close>

record AutoAssignOutcome =
  OutAssigned :: bool
  OutStrategy :: AutoAssignStrategy
  OutCode :: string

definition selectionOf :: "ports \<Rightarrow> eligiblePool \<Rightarrow> AssignmentSelection" where
  "selectionOf p pool =
     \<lparr>SelAccounts = poolAccounts pool, Positions = poolPositions pool, CandidateCount = int (length (poolAccounts pool)), Cursor = 0,
      SelGroups = poolGroups pool, OpenItems = (\<lambda>_. 0), Random = IntN p\<rparr>"

text \<open>The walk of the rotation follows the locked row, and asks the pool only who is in.\<close>

definition turnSelection :: "AssignmentSelection \<Rightarrow> ID list \<Rightarrow> AutoAssignPolicy \<Rightarrow> AssignmentSelection" where
  "turnSelection selection eligible' locked =
     (let turns = filter (\<lambda>(position, candidate). CandID candidate \<in> set eligible') (enumerate 0 (PolicyCandidates locked)) in
      selection\<lparr>SelAccounts := map (\<lambda>(position, candidate). CandID candidate) turns,
        Positions := map (\<lambda>(position, candidate). int position) turns,
        CandidateCount := int (length (PolicyCandidates locked)), Cursor := PolicyCursor locked\<rparr>)"

definition chooseAccount :: "ports \<Rightarrow> desk \<Rightarrow> Container \<Rightarrow> eligiblePool \<Rightarrow> (AssignmentChoice option \<times> AutoAssignPolicy option) result" where
  "chooseAccount p d collection pool =
     rbind (StrategyFor (poolStrategy pool)) (\<lambda>strategy.
       let selection = selectionOf p pool in
       if poolStrategy pool = AssignRoundRobin then
         (case LockPolicy (deskPolicies d) AutoAssignScopeCollection (ContID collection) of
            Inl e \<Rightarrow> if isNotFound e then Inr (None, None) else Inl e
          | Inr locked \<Rightarrow>
              rbind (strategy (turnSelection selection (poolEligible pool) locked)) (\<lambda>choice. Inr (choice, Some locked)))
       else if poolStrategy pool = AssignLeastLoaded then
         rbind (strategy (selection\<lparr>OpenItems := CountOpenByAssignee (items (deskTree d)) (poolAccounts pool)\<rparr>)) (\<lambda>choice. Inr (choice, None))
       else rbind (strategy selection) (\<lambda>choice. Inr (choice, None)))"

text \<open>\<^verbatim>\<open>AutoAssignWorkItem.apply\<close>, inside the transaction that writes.\<close>

definition applyPolicy :: "ports \<Rightarrow> desk \<Rightarrow> ID \<Rightarrow> int \<Rightarrow> eligiblePool \<Rightarrow> time \<Rightarrow> (desk \<times> WorkItem \<times> AutoAssignOutcome) result" where
  "applyPolicy p d itemID expectedVersion pool now =
     rbind (findItem (deskTree d) itemID) (\<lambda>item.
     rbind (findCollection (deskTree d) (CollectionID item)) (\<lambda>collection.
     guarded (EnsureAcceptsItems collection) (
     rbind (gatedProfile p collection item) (\<lambda>profile.
     guarded (EnsureAssignable item profile) (
     rbind (chooseAccount p d collection pool) (\<lambda>(choice, locked).
       case choice of
         None \<Rightarrow> guarded (ensureExpectedVersion item expectedVersion)
           (Inr (d, item, \<lparr>OutAssigned = False, OutStrategy = poolStrategy pool, OutCode = ''items.auto_assign_no_candidate''\<rparr>))
       | Some c \<Rightarrow>
           let outcome = \<lparr>OutAssigned = True, OutStrategy = poolStrategy pool, OutCode = ''''\<rparr> in
           if AssigneeID item = ChosenID c
           then guarded (ensureExpectedVersion item expectedVersion) (Inr (d, item, outcome))
           else rbind (writeAssignee d item (Assigned item (ChosenID c) now) expectedVersion) (\<lambda>(d', written).
             case locked of
               Some policy \<Rightarrow>
                 if Advanced c
                 then rbind (SaveState (deskPolicies d') (policy\<lparr>PolicyCursor := NextCursor c\<rparr>)) (\<lambda>rows.
                   Inr (d'\<lparr>deskPolicies := rows\<rparr>, written, outcome))
                 else Inr (d', written, outcome)
             | None \<Rightarrow> Inr (d', written, outcome))))))))"

definition autoAssignUnavailableError :: failure where
  "autoAssignUnavailableError =
     Failure (WithFields (WithDetail ErrValidation ''items.auto_assign_unavailable'') [field_error ''/item_id'' ''items.auto_assign_unavailable''])"

text \<open>A container is read with the policy row of its collection.\<close>

definition AutoAssignOf :: "desk \<Rightarrow> Container \<Rightarrow> AutoAssignDefinition option result" where
  "AutoAssignOf d collection = autoAssignDefinitionFrom (find (atScope AutoAssignScopeCollection (ContID collection)) (deskPolicies d))"

definition readItemScope :: "desk \<Rightarrow> ID \<Rightarrow> (WorkItem \<times> Container) result" where
  "readItemScope d itemID =
     rbind (findItem (deskTree d) itemID) (\<lambda>item.
     rbind (findCollection (deskTree d) (CollectionID item)) (\<lambda>collection. Inr (item, collection)))"

text \<open>\<^verbatim>\<open>AutoAssignWorkItem.Execute\<close>: the pool is resolved on the state before the transaction.\<close>

definition autoAssignItem :: "ports \<Rightarrow> desk \<Rightarrow> desk \<Rightarrow> ID \<Rightarrow> int \<Rightarrow> time \<Rightarrow> (desk \<times> WorkItem \<times> AutoAssignOutcome) result" where
  "autoAssignItem p planned d itemID expectedVersion now =
     (if IsZero itemID then Inl itemIDRequired
      else
        rbind (readItemScope planned itemID) (\<lambda>(subject, collection).
        rbind (AutoAssignOf planned collection) (\<lambda>policy.
        guarded (MayWrite p collection subject) (
        case policy of
          None \<Rightarrow> Inl autoAssignUnavailableError
        | Some definition' \<Rightarrow>
            rbind (eligible p collection definition') (\<lambda>pool. applyPolicy p d itemID expectedVersion pool now)))))"

section \<open>Assigning by name\<close>

datatype assignmentDirection = assigning | unassigning

definition ensureAccountCanSee :: "ports \<Rightarrow> ID \<Rightarrow> Container \<Rightarrow> failure option" where
  "ensureAccountCanSee p account collection =
     (case CanSee p collection account of
        Inl e \<Rightarrow> Some e
      | Inr permitted \<Rightarrow>
          if permitted then None
          else Some (Failure (WithFields (WithParams (WithDetail ErrValidation ''items.account_without_access'') [(''account_id'', account)])
            [field_error ''/account_id'' ''items.account_without_access''])))"

definition restrictedUnderRule :: "ports \<Rightarrow> ID \<Rightarrow> bool result" where
  "restrictedUnderRule p account =
     (case Restricted p of
        None \<Rightarrow> Inr False
      | Some ask \<Rightarrow>
          if IsZero (RunsForRule p) \<or> IsZero account then Inr False
          else rbind (ask [account]) (\<lambda>restricted. Inr (account \<in> set restricted)))"

definition assigneeRestricted :: "ID \<Rightarrow> failure" where
  "assigneeRestricted account = Failure (WithParams (WithDetail ErrValidation ''items.assignee_restricted'') [(''account_id'', account)])"

text \<open>\<^verbatim>\<open>AssignmentWriter.change\<close>, the whole of both directions.\<close>

definition changeAssignee :: "ports \<Rightarrow> desk \<Rightarrow> desk \<Rightarrow> ID \<Rightarrow> ID \<Rightarrow> int \<Rightarrow> assignmentDirection \<Rightarrow> time \<Rightarrow> (desk \<times> WorkItem) result" where
  "changeAssignee p planned d itemID account expectedVersion want now =
     (if IsZero itemID then Inl itemIDRequired
      else if want = assigning \<and> IsZero account
      then Inl (Failure (WithFields (WithDetail ErrValidation ''items.account_id_required'')
        [field_error ''/account_id'' ''items.account_id_required'']))
      else
        rbind (readItemScope planned itemID) (\<lambda>(subject, collection).
        guarded (MayWrite p collection subject) (
        guarded (if want = assigning then ensureAccountCanSee p account collection else None) (
        rbind (findItem (deskTree d) itemID) (\<lambda>item.
        rbind (findCollection (deskTree d) (CollectionID item)) (\<lambda>collection.
        guarded (EnsureAcceptsItems collection) (
        rbind (gatedProfile p collection item) (\<lambda>profile.
        guarded (EnsureAssignable item profile) (
        rbind (if want = assigning then restrictedUnderRule p account else Inr False) (\<lambda>restricted.
          if restricted then Inl (assigneeRestricted account)
          else
            let wanted = (if want = unassigning then Unassigned item now else Assigned item account now) in
            if AssigneeID wanted = AssigneeID item
            then guarded (ensureExpectedVersion item expectedVersion) (Inr (d, item))
            else writeAssignee d item wanted expectedVersion))))))))))"

section \<open>Assigning a created entry\<close>

datatype createAssignment = CreatedOnNobody | CreatedOn ID | CreatedByPolicy eligiblePool bool

text \<open>The role that writes only what is assigned to it creates on itself; \<open>onlyOwn\<close> is the answer of \<^verbatim>\<open>Ownership\<close>.\<close>

definition assignToCreator :: "bool result \<Rightarrow> ID \<Rightarrow> ID \<Rightarrow> bool \<Rightarrow> ID result" where
  "assignToCreator onlyOwn actor assignee asked =
     rbind onlyOwn (\<lambda>onlyOwn.
       if \<not> onlyOwn then Inr assignee
       else if asked \<or> (\<not> IsZero assignee \<and> assignee \<noteq> actor)
       then Inl (Failure (WithFields (WithDetail ErrForbidden ''items.assignee_must_be_the_creator'')
         [field_error ''/assignee_id'' ''items.assignee_must_be_the_creator'']))
       else Inr actor)"

definition assignmentPlan :: "ports \<Rightarrow> desk \<Rightarrow> Container \<Rightarrow> ID \<Rightarrow> bool \<Rightarrow> createAssignment result" where
  "assignmentPlan p planned collection assignee asked =
     (if asked \<and> \<not> IsZero assignee
      then Inl (Failure (WithFields (WithDetail ErrValidation ''items.assignee_conflicts_auto_assign'')
        [field_error ''/auto_assign'' ''items.assignee_conflicts_auto_assign'']))
      else if \<not> IsZero assignee
      then guarded (ensureAccountCanSee p assignee collection) (Inr (CreatedOn assignee))
      else
        rbind (AutoAssignOf planned collection) (\<lambda>policy.
        case policy of
          None \<Rightarrow> if asked then Inl autoAssignUnavailableError else Inr CreatedOnNobody
        | Some definition' \<Rightarrow>
            if \<not> asked \<and> \<not> DefEnabled definition' then Inr CreatedOnNobody
            else rbind (eligible p collection definition') (\<lambda>pool. Inr (CreatedByPolicy pool asked))))"

text \<open>\<^verbatim>\<open>gatedProfileFor\<close>: the profile of an entry, with the collection read first.\<close>

definition profileOfCreated :: "ports \<Rightarrow> desk \<Rightarrow> WorkItem \<Rightarrow> CapabilityProfile result" where
  "profileOfCreated p d item = rbind (findCollection (deskTree d) (CollectionID item)) (\<lambda>collection. gatedProfile p collection item)"

definition applyCreated :: "ports \<Rightarrow> desk \<Rightarrow> createAssignment \<Rightarrow> WorkItem \<Rightarrow> time \<Rightarrow> (desk \<times> WorkItem \<times> AutoAssignOutcome option) result" where
  "applyCreated p d plan item now =
     (case plan of
        CreatedOnNobody \<Rightarrow> Inr (d, item, None)
      | CreatedByPolicy pool asked \<Rightarrow>
          rbind (if asked then Inr False
                 else rbind (profileOfCreated p d item) (\<lambda>profile. Inr (CapabilityAssignment \<in> set (Hidden profile)))) (\<lambda>hidden.
            if hidden
            then Inr (d, item, Some \<lparr>OutAssigned = False, OutStrategy = poolStrategy pool, OutCode = ''items.capability_hidden''\<rparr>)
            else rbind (applyPolicy p d (ItemID item) 0 pool now) (\<lambda>(d', written, outcome). Inr (d', written, Some outcome)))
      | CreatedOn assignee \<Rightarrow>
          rbind (profileOfCreated p d item) (\<lambda>profile.
          guarded (EnsureAssignable item profile) (
          rbind (restrictedUnderRule p assignee) (\<lambda>restricted.
            if restricted then Inr (d, item, None)
            else rbind (writeAssignee d item (Assigned item assignee now) 0) (\<lambda>(d', written). Inr (d', written, None))))))"

text \<open>
  \<^verbatim>\<open>CreateWorkItem.Execute\<close> with its assignment: decided before the transaction, written after the inserted row.
\<close>

definition createAssigned :: "ports \<Rightarrow> gates \<Rightarrow> CapabilityProfile list \<Rightarrow> CapabilityProfile list \<Rightarrow> normalizer \<Rightarrow> ID \<Rightarrow> desk \<Rightarrow> Actor
    \<Rightarrow> CreateWorkItemCommand \<Rightarrow> bool result \<Rightarrow> ID \<Rightarrow> bool \<Rightarrow> time \<Rightarrow> (desk \<times> WorkItem \<times> AutoAssignOutcome option) result" where
  "createAssigned p g inForce system form newID d actor cmd onlyOwn assignee asked now =
     rbind (scopeOf (deskTree d) cmd) (\<lambda>collection.
     guarded (authorize g collection None) (
     rbind (assignToCreator onlyOwn (ActorAccountID actor) assignee asked) (\<lambda>assignee.
     rbind (assignmentPlan p d collection assignee asked) (\<lambda>plan.
     rbind (createItem g inForce system form newID (deskTree d) actor cmd now) (\<lambda>(t, item).
       applyCreated p (d\<lparr>deskTree := t\<rparr>) plan item now)))))"

end
