(* ===== verification/Assignment_Laws.thy ===== *)
theory Assignment_Laws
  imports Assignment
begin

text \<open>
  What the strategies of an assignment owe their caller, as a locale that the five of them are interpretations of;
  the pool a policy resolves to; and the rotation, which reaches everybody who stays in it.
\<close>

section \<open>Go's arithmetic and indices\<close>

lemma goRem_nonneg [simp]: "0 \<le> a \<Longrightarrow> 0 < b \<Longrightarrow> goRem a b = a mod b"
  by (cases "a = 0") (simp_all add: goRem_def)

lemma goIndex_in [simp]: "0 \<le> i \<Longrightarrow> i < int (length xs) \<Longrightarrow> goIndex xs i = Inr (xs ! nat i)"
  by (simp add: goIndex_def)

lemma find_enumerate:
  "find (\<lambda>(i, x). P x) (enumerate n xs) = (case find (\<lambda>i. P (xs ! i)) [0..<length xs] of
     None \<Rightarrow> None | Some i \<Rightarrow> Some (n + i, xs ! i))"
proof (induction xs arbitrary: n)
  case (Cons x xs)
  have shift: "find (\<lambda>i. P ((x # xs) ! i)) (map Suc is) = map_option Suc (find (\<lambda>i. P (xs ! i)) is)" for "is"
    by (induction "is") auto
  have "[0..<length (x # xs)] = 0 # map Suc [0..<length xs]"
    by (simp add: upt_conv_Cons map_Suc_upt del: upt_Suc)
  then show ?case using Cons shift [of "[0..<length xs]"] by (auto split: option.splits)
qed simp

section \<open>The contract of a strategy\<close>

text \<open>What the walk of the rotation needs of its selection, and what a draw does.\<close>

definition turns_ok :: "AssignmentSelection \<Rightarrow> bool" where
  "turns_ok sel \<longleftrightarrow> length (Positions sel) = length (SelAccounts sel) \<and> 0 \<le> Cursor sel
     \<and> (\<forall>position \<in> set (Positions sel). 0 \<le> position \<and> position < CandidateCount sel)"

definition in_range :: "(nat \<Rightarrow> int \<Rightarrow> int) \<Rightarrow> bool" where
  "in_range draw \<longleftrightarrow> (\<forall>k n. 0 < n \<longrightarrow> 0 \<le> draw k n \<and> draw k n < n)"

definition draws_ok :: "AssignmentSelection \<Rightarrow> bool" where
  "draws_ok sel \<longleftrightarrow> in_range (Random sel) \<and> (\<forall>g \<in> set (SelGroups sel). GroupMembers g \<noteq> [])"

lemma turns_okD:
  assumes "turns_ok sel"
  shows "length (Positions sel) = length (SelAccounts sel)" "0 \<le> Cursor sel"
    "position \<in> set (Positions sel) \<Longrightarrow> 0 \<le> position \<and> position < CandidateCount sel"
  using assms unfolding turns_ok_def by blast+

lemma draws_okD:
  assumes "draws_ok sel"
  shows "g \<in> set (SelGroups sel) \<Longrightarrow> GroupMembers g \<noteq> []" "0 < n \<Longrightarrow> 0 \<le> Random sel k n \<and> Random sel k n < n"
  using assms unfolding draws_ok_def in_range_def by blast+

locale strategy =
  fixes pick :: AssignmentStrategy
    and usable :: "AssignmentSelection \<Rightarrow> bool"
    and material :: "AssignmentSelection \<Rightarrow> ID set"
  assumes answers: "usable sel \<Longrightarrow> \<exists>choice. pick sel = Inr choice"
    and picks: "usable sel \<Longrightarrow> pick sel = Inr (Some c) \<Longrightarrow> ChosenID c \<in> material sel"
    and finds: "usable sel \<Longrightarrow> pick sel = Inr None \<Longrightarrow> material sel = {}"
    and turns: "usable sel \<Longrightarrow> pick sel = Inr (Some c) \<Longrightarrow> Advanced c \<Longrightarrow> 0 \<le> NextCursor c \<and> NextCursor c < CandidateCount sel"
begin

text \<open>Nobody is picked exactly when there is nobody to pick, and otherwise somebody there is.\<close>

lemma pick_cases:
  assumes "usable sel"
  shows "material sel = {} \<and> pick sel = Inr None \<or> (\<exists>c. pick sel = Inr (Some c) \<and> ChosenID c \<in> material sel)"
proof -
  obtain choice where "pick sel = Inr choice" using answers [OF assms] by blast
  then show ?thesis using finds [OF assms] picks [OF assms] by (cases choice) auto
qed

end

definition account_material :: "AssignmentSelection \<Rightarrow> ID set" where
  "account_material sel = set (SelAccounts sel)"

definition group_material :: "AssignmentSelection \<Rightarrow> ID set" where
  "group_material sel = (\<Union>g \<in> set (SelGroups sel). set (GroupMembers g))"

lemma leastLoadedWalk_in: "leastLoadedWalk load chosen lowest accounts \<in> insert chosen (set accounts)"
  by (induction load chosen lowest accounts rule: leastLoadedWalk.induct) auto

text \<open>The walk keeps the first of the least loaded.\<close>

lemma leastLoadedWalk_least:
  "lowest = load chosen \<Longrightarrow> x \<in> insert chosen (set accounts) \<Longrightarrow> load (leastLoadedWalk load chosen lowest accounts) \<le> load x"
proof (induction load chosen lowest accounts arbitrary: x rule: leastLoadedWalk.induct)
  case (2 load chosen lowest account accounts)
  then show ?case by (cases "load account < lowest") fastforce+
qed simp

lemma random_index:
  assumes "draws_ok sel" "xs \<noteq> []"
  shows "\<exists>x \<in> set xs. goIndex xs (Random sel k (int (length xs))) = Inr x"
proof -
  have "0 \<le> Random sel k (int (length xs)) \<and> Random sel k (int (length xs)) < int (length xs)"
    using draws_okD(2) [OF assms(1)] assms(2) by simp
  then show ?thesis by (auto intro!: bexI [of _ "xs ! nat (Random sel k (int (length xs)))"])
qed

text \<open>A strategy that draws either has nothing to draw from, or draws an account and leaves no cursor.\<close>

lemma strategy_of_draw:
  assumes "\<And>sel. draws_ok sel \<Longrightarrow> pick sel = Inr None \<and> material sel = {} \<or> (\<exists>m \<in> material sel. pick sel = Inr (Some (picked m)))"
  shows "strategy pick draws_ok material"
proof unfold_locales
  fix sel c assume ok: "draws_ok sel"
  note draw = assms [OF ok]
  show "\<exists>choice. pick sel = Inr choice" using draw by blast
  show "ChosenID c \<in> material sel" if "pick sel = Inr (Some c)" using that draw by (auto simp: picked_def)
  show "material sel = {}" if "pick sel = Inr None" using that draw by auto
  show "0 \<le> NextCursor c \<and> NextCursor c < CandidateCount sel" if "pick sel = Inr (Some c)" "Advanced c"
    using that draw by (auto simp: picked_def)
qed

interpretation fixed: strategy fixedStrategy draws_ok account_material
  by (rule strategy_of_draw) (simp add: fixedStrategy_def account_material_def split: list.split)

interpretation least_loaded: strategy leastLoadedStrategy draws_ok account_material
proof (rule strategy_of_draw)
  fix sel :: AssignmentSelection
  show "leastLoadedStrategy sel = Inr None \<and> account_material sel = {}
      \<or> (\<exists>m \<in> account_material sel. leastLoadedStrategy sel = Inr (Some (picked m)))"
    using leastLoadedWalk_in [of "OpenItems sel" "hd (SelAccounts sel)" "OpenItems sel (hd (SelAccounts sel))" "tl (SelAccounts sel)"]
    by (cases "SelAccounts sel") (auto simp: leastLoadedStrategy_def account_material_def)
qed

interpretation random_member: strategy randomMemberStrategy draws_ok account_material
proof (rule strategy_of_draw)
  fix sel assume ok: "draws_ok sel"
  show "randomMemberStrategy sel = Inr None \<and> account_material sel = {}
      \<or> (\<exists>m \<in> account_material sel. randomMemberStrategy sel = Inr (Some (picked m)))"
    using random_index [OF ok, of "SelAccounts sel" 0]
    by (cases "SelAccounts sel = []") (auto simp: randomMemberStrategy_def account_material_def)
qed

interpretation random_group_member: strategy randomGroupMemberStrategy draws_ok group_material
proof (rule strategy_of_draw)
  fix sel assume ok: "draws_ok sel"
  show "randomGroupMemberStrategy sel = Inr None \<and> group_material sel = {}
      \<or> (\<exists>m \<in> group_material sel. randomGroupMemberStrategy sel = Inr (Some (picked m)))"
  proof (cases "SelGroups sel = []")
    case False
    then obtain g where g: "g \<in> set (SelGroups sel)" "goIndex (SelGroups sel) (Random sel 0 (int (length (SelGroups sel)))) = Inr g"
      using random_index [OF ok] by blast
    obtain m where "m \<in> set (GroupMembers g)" "goIndex (GroupMembers g) (Random sel 1 (int (length (GroupMembers g)))) = Inr m"
      using random_index [OF ok draws_okD(1) [OF ok g(1)]] by blast
    then show ?thesis using g False by (auto simp: randomGroupMemberStrategy_def group_material_def)
  qed (simp add: randomGroupMemberStrategy_def group_material_def)
qed

section \<open>The rotation\<close>

lemma found_at:
  assumes "find (\<lambda>(i, candidate). candidate = position) (enumerate 0 xs) = Some (i, x)"
  shows "i < length xs \<and> xs ! i = position"
proof -
  obtain j where "j < length (enumerate 0 xs)" "enumerate 0 xs ! j = (i, x)" "x = position"
    using assms by (auto simp: find_Some_iff)
  then show ?thesis by (auto simp: nth_enumerate_eq)
qed

lemma found_none:
  "find (\<lambda>(i, candidate). candidate = position) (enumerate 0 xs) = None \<longleftrightarrow> position \<notin> set xs"
  by (auto simp: find_None_iff in_set_conv_nth nth_enumerate_eq)

text \<open>The pick of a walk is the first position on it that is taken.\<close>

definition taken_at :: "AssignmentSelection \<Rightarrow> int \<Rightarrow> int \<Rightarrow> AssignmentChoice \<Rightarrow> bool" where
  "taken_at sel start offset c \<longleftrightarrow> (let n = CandidateCount sel; position = (start + offset) mod n in
     \<exists>i < length (Positions sel). Positions sel ! i = position
       \<and> c = \<lparr>ChosenID = SelAccounts sel ! i, NextCursor = (position + 1) mod n, Advanced = True\<rparr>)"

lemma roundRobinWalk_cases:
  assumes ok: "turns_ok sel" and n: "0 < CandidateCount sel" "0 \<le> start" "\<forall>offset \<in> set offsets. 0 \<le> offset"
  shows "roundRobinWalk sel start offsets = Inr None \<and> (\<forall>offset \<in> set offsets. (start + offset) mod CandidateCount sel \<notin> set (Positions sel))
    \<or> (\<exists>before offset after c. offsets = before @ offset # after \<and> roundRobinWalk sel start offsets = Inr (Some c) \<and> taken_at sel start offset c
         \<and> (\<forall>earlier \<in> set before. (start + earlier) mod CandidateCount sel \<notin> set (Positions sel)))"
  using n(3)
proof (induction offsets)
  case (Cons offset offsets)
  let ?position = "(start + offset) mod CandidateCount sel"
  let ?found = "find (\<lambda>(i, candidate). candidate = ?position) (enumerate 0 (Positions sel))"
  have position: "goRem (start + offset) (CandidateCount sel) = ?position" "0 \<le> ?position" using n Cons by simp_all
  show ?case
  proof (cases ?found)
    case None
    have free: "?position \<notin> set (Positions sel)" using None by (rule found_none [THEN iffD1])
    have walk: "roundRobinWalk sel start (offset # offsets) = roundRobinWalk sel start offsets" 
      by (simp only: roundRobinWalk.simps Let_def position None option.case)
    have nonneg: "\<forall>offset \<in> set offsets. 0 \<le> offset" using Cons.prems by simp
    from Cons.IH [OF nonneg] show ?thesis
    proof (elim disjE exE conjE)
      fix before later after c
      assume "offsets = before @ later # after" "roundRobinWalk sel start offsets = Inr (Some c)" "taken_at sel start later c"
        "\<forall>earlier \<in> set before. (start + earlier) mod CandidateCount sel \<notin> set (Positions sel)"
      then show ?thesis using free walk by (intro disjI2 exI [of _ "offset # before"] exI [of _ later] exI [of _ after] exI [of _ c]) simp
    qed (use free walk in simp)
  next
    case (Some found)
    then obtain i x where i: "?found = Some (i, x)" by (cases found) auto
    have at: "i < length (Positions sel)" "Positions sel ! i = ?position" using found_at [OF i] by auto
    then have "taken_at sel start offset \<lparr>ChosenID = SelAccounts sel ! i, NextCursor = (?position + 1) mod CandidateCount sel, Advanced = True\<rparr>"
      by (auto simp: taken_at_def Let_def)
    moreover have "roundRobinWalk sel start (offset # offsets) = Inr (Some \<lparr>ChosenID = SelAccounts sel ! i,
        NextCursor = (?position + 1) mod CandidateCount sel, Advanced = True\<rparr>)"
      using at turns_okD(1) [OF ok] n(1) position(2)
      by (simp only: roundRobinWalk.simps Let_def position i option.case prod.case) simp
    ultimately show ?thesis by (metis append_Nil empty_iff empty_set)
  qed
qed simp

definition cursorOf :: "AssignmentSelection \<Rightarrow> int" where
  "cursorOf sel = Cursor sel mod CandidateCount sel"

lemma roundRobin_some:
  assumes ok: "turns_ok sel" and q: "q \<in> set (Positions sel)"
  obtains offset c where "roundRobinStrategy sel = Inr (Some c)" "taken_at sel (cursorOf sel) offset c"
    "0 \<le> offset" "offset \<le> (q - cursorOf sel) mod CandidateCount sel"
proof -
  let ?n = "CandidateCount sel" and ?start = "cursorOf sel"
  let ?d = "(q - ?start) mod ?n"
  have q': "0 \<le> q" "q < ?n" using turns_okD(3) [OF ok q] by auto
  then have n: "0 < ?n" "0 \<le> ?start" by (auto simp: cursorOf_def)
  have at: "(?start + ?d) mod ?n = q" using q' by (simp add: mod_simps)
  have d: "?d \<in> set [0..?n - 1]" using n by simp
  have run: "roundRobinStrategy sel = roundRobinWalk sel ?start [0..?n - 1]"
    using q n turns_okD(1,2) [OF ok] by (auto simp: roundRobinStrategy_def cursorOf_def)
  have "\<not> (\<forall>offset \<in> set [0..?n - 1]. (?start + offset) mod ?n \<notin> set (Positions sel))" using at d q by force
  then obtain before offset after c where split: "[0..?n - 1] = before @ offset # after"
      "roundRobinWalk sel ?start [0..?n - 1] = Inr (Some c)" "taken_at sel ?start offset c"
      "\<forall>earlier \<in> set before. (?start + earlier) mod ?n \<notin> set (Positions sel)"
    using roundRobinWalk_cases [OF ok n, of "[0..?n - 1]"] by auto
  have "sorted_wrt (<) (before @ offset # after)" using split(1) by (metis sorted_wrt_upto)
  moreover have "?d \<notin> set before" using split(4) at q by metis
  ultimately have "offset \<le> ?d" using d unfolding split(1) by (auto simp: sorted_wrt_append)
  moreover have "0 \<le> offset" using split(1) by (metis atLeastAtMost_iff in_set_conv_decomp set_upto)
  ultimately show ?thesis using that run split(2,3) by metis
qed

interpretation round_robin: strategy roundRobinStrategy turns_ok account_material
proof unfold_locales
  fix sel c assume ok: "turns_ok sel"
  have none: "roundRobinStrategy sel = Inr None" if "SelAccounts sel = []" using that by (simp add: roundRobinStrategy_def)
  have some: "\<exists>c offset. roundRobinStrategy sel = Inr (Some c) \<and> taken_at sel (cursorOf sel) offset c" if nonempty: "SelAccounts sel \<noteq> []"
  proof -
    obtain q where "q \<in> set (Positions sel)" using nonempty turns_okD(1) [OF ok] by (cases "Positions sel") auto
    then show ?thesis using roundRobin_some [OF ok] by metis
  qed
  have taken: "ChosenID c \<in> set (SelAccounts sel) \<and> 0 \<le> NextCursor c \<and> NextCursor c < CandidateCount sel"
    if at: "taken_at sel (cursorOf sel) offset c" for offset
  proof -
    obtain i where i: "i < length (Positions sel)" "ChosenID c = SelAccounts sel ! i" "NextCursor c = NextCursor c mod CandidateCount sel"
      using at by (auto simp: taken_at_def Let_def)
    then have n: "0 < CandidateCount sel" using turns_okD(3) [OF ok nth_mem [OF i(1)]] by simp
    show ?thesis using i(1,2) turns_okD(1) [OF ok] pos_mod_bound [OF n] pos_mod_sign [OF n] i(3) by (metis nth_mem)
  qed
  show "\<exists>choice. roundRobinStrategy sel = Inr choice" using none some by blast
  show "ChosenID c \<in> account_material sel" if "roundRobinStrategy sel = Inr (Some c)"
    using that none some taken by (cases "SelAccounts sel = []") (auto simp: account_material_def)
  show "account_material sel = {}" if "roundRobinStrategy sel = Inr None"
    using that some by (cases "SelAccounts sel = []") (auto simp: account_material_def)
  show "0 \<le> NextCursor c \<and> NextCursor c < CandidateCount sel" if "roundRobinStrategy sel = Inr (Some c)" "Advanced c"
    using that none some taken by (cases "SelAccounts sel = []") auto
qed

section \<open>The pool a policy resolves to\<close>

text \<open>Whom a policy may give an entry of the collection to, \<open>blocked\<close> being those under a restriction of processing.\<close>

definition named_by :: "ports \<Rightarrow> AutoAssignCandidate \<Rightarrow> ID \<Rightarrow> bool" where
  "named_by p candidate account \<longleftrightarrow> CandKind candidate = CandidateAccount \<and> account = CandID candidate
     \<or> CandKind candidate = CandidateGroup \<and> (\<exists>members. groupMembers p (CandID candidate) = Inr members \<and> account \<in> set members)"

definition may_receive :: "ports \<Rightarrow> (ID \<Rightarrow> bool) \<Rightarrow> Container \<Rightarrow> AutoAssignCandidate list \<Rightarrow> ID \<Rightarrow> bool" where
  "may_receive p blocked collection candidates account \<longleftrightarrow>
     (\<exists>candidate \<in> set candidates. named_by p candidate account) \<and> CanSee p collection account = Inr True \<and> \<not> blocked account"

definition pool_of :: "eligiblePool \<Rightarrow> ID set" where
  "pool_of pool = set (poolAccounts pool) \<union> (\<Union>g \<in> set (poolGroups pool). set (GroupMembers g))"

definition pool_ok :: "eligiblePool \<Rightarrow> bool" where
  "pool_ok pool \<longleftrightarrow> length (poolPositions pool) = length (poolAccounts pool) \<and> set (poolEligible pool) = set (poolAccounts pool)
     \<and> (\<forall>g \<in> set (poolGroups pool). GroupMembers g \<noteq> [])"

lemma visibleMembers_set:
  "visibleMembers p collection members = Inr seen \<Longrightarrow> set seen = {m \<in> set members. CanSee p collection m = Inr True}"
  by (induction members arbitrary: seen) (auto simp: go_result split: if_splits)

definition visible_of :: "ports \<Rightarrow> Container \<Rightarrow> AutoAssignCandidate \<Rightarrow> ID set" where
  "visible_of p collection candidate = {account. named_by p candidate account \<and> CanSee p collection account = Inr True}"

definition walk_ok :: "eligiblePool \<times> ID list \<Rightarrow> bool" where
  "walk_ok state \<longleftrightarrow> pool_ok (fst state) \<and> pool_of (fst state) = set (snd state)"

text \<open>Passing a candidate adds the accounts it stands for, and remembers to ask about them.\<close>

lemma eligibleWalk_step:
  assumes "eligibleWalk p collection ((position, candidate) # cs) state = Inr r" "walk_ok state"
  shows "\<exists>state'. eligibleWalk p collection cs state' = Inr r \<and> walk_ok state' \<and> poolStrategy (fst state') = poolStrategy (fst state)
    \<and> pool_of (fst state') = pool_of (fst state) \<union> visible_of p collection candidate"
proof -
  obtain pool considered where state: "state = (pool, considered)" by (cases state)
  consider (account) "CandKind candidate = CandidateAccount" | (group) "CandKind candidate = CandidateGroup"
    | (other) "CandKind candidate \<noteq> CandidateAccount" "CandKind candidate \<noteq> CandidateGroup" by blast
  then show ?thesis
  proof cases
    case account
    then obtain seen where seen: "CanSee p collection (CandID candidate) = Inr seen" using assms(1) by (auto simp: state go_result)
    have "visible_of p collection candidate = (if seen then {CandID candidate} else {})"
      using account seen by (auto simp: visible_of_def named_by_def)
    then show ?thesis using assms account seen
      by (intro exI [of _ "if \<not> seen then (pool, considered) else _"] conjI)
        (auto simp: state walk_ok_def pool_ok_def pool_of_def split: if_splits)
  next
    case group
    then obtain members seen where seen: "groupMembers p (CandID candidate) = Inr members" "visibleMembers p collection members = Inr seen"
      using assms(1) by (auto simp: state go_result)
    have "visible_of p collection candidate = set seen"
      using group seen visibleMembers_set [OF seen(2)] by (auto simp: visible_of_def named_by_def)
    then show ?thesis using assms group seen
      by (intro exI [of _ "if seen = [] then (pool, considered) else _"] conjI)
        (auto simp: state walk_ok_def pool_ok_def pool_of_def split: if_splits, blast+)
  next
    case other
    then have "visible_of p collection candidate = {}" by (simp add: visible_of_def named_by_def)
    then show ?thesis using assms other by (intro exI [of _ state]) (simp add: state)
  qed
qed

lemma eligibleWalk_pool:
  assumes "eligibleWalk p collection cs state = Inr r" "walk_ok state"
  shows "walk_ok r \<and> poolStrategy (fst r) = poolStrategy (fst state)
    \<and> pool_of (fst r) = pool_of (fst state) \<union> (\<Union>(position, candidate) \<in> set cs. visible_of p collection candidate)"
  using assms
proof (induction cs arbitrary: state)
  case (Cons c cs)
  obtain position candidate where c: "c = (position, candidate)" by (cases c)
  show ?case using eligibleWalk_step [of p collection position candidate cs state r] Cons by (auto simp: c)
qed simp

text \<open>The restricted leave the pool, and nobody else does.\<close>

lemma keepUnrestricted_pool:
  assumes "pool_ok pool"
  shows "pool_ok (keepUnrestricted restricted pool) \<and> poolStrategy (keepUnrestricted restricted pool) = poolStrategy pool
    \<and> pool_of (keepUnrestricted restricted pool) = pool_of pool - set restricted"
proof -
  let ?kept = "filter (\<lambda>(account, position). account \<notin> set restricted) (zip (poolAccounts pool) (poolPositions pool))"
  have "fst ` set ?kept = {account \<in> fst ` set (zip (poolAccounts pool) (poolPositions pool)). account \<notin> set restricted}" by force
  also have "fst ` set (zip (poolAccounts pool) (poolPositions pool)) = set (poolAccounts pool)"
    using assms by (metis list.set_map map_fst_zip pool_ok_def)
  finally show ?thesis by (auto simp: keepUnrestricted_def emptyPool_def pool_ok_def pool_of_def Let_def filter_empty_conv)
qed

lemma emptyPool_simps [simp]: "pool_of (emptyPool s) = {}" "poolStrategy (emptyPool s) = s" "pool_ok (emptyPool s)"
  by (simp_all add: pool_of_def pool_ok_def emptyPool_def)

lemma eligible_pool:
  assumes "eligible p collection definition' = Inr pool" "Restricted p = Some (\<lambda>accounts. Inr (filter blocked accounts))"
  shows "pool_ok pool \<and> poolStrategy pool = DefStrategy definition' \<and> pool_of pool = Collect (may_receive p blocked collection (DefCandidates definition'))"
proof -
  let ?start = "(emptyPool (DefStrategy definition'), [])"
  obtain found considered where walk: "eligibleWalk p collection (enumerate 0 (DefCandidates definition')) ?start = Inr (found, considered)"
    and left: "withoutRestricted p found considered = Inr pool" using assms(1) by (auto simp: eligible_def go_result)
  have "walk_ok ?start" by (simp add: walk_ok_def)
  then have found: "pool_ok found" "pool_of found = set considered" "poolStrategy found = DefStrategy definition'"
    "pool_of found = (\<Union>(position, candidate) \<in> set (enumerate 0 (DefCandidates definition')). visible_of p collection candidate)"
    using eligibleWalk_pool [OF walk] unfolding walk_ok_def fst_conv snd_conv emptyPool_simps Un_empty_left by blast+
  have "pool_of found = (\<Union>candidate \<in> snd ` set (enumerate 0 (DefCandidates definition')). visible_of p collection candidate)"
    unfolding found(4) by force
  also have "snd ` set (enumerate 0 (DefCandidates definition')) = set (DefCandidates definition')"
    by (metis list.set_map map_snd_enumerate)
  finally have all: "pool_of found - Collect blocked = Collect (may_receive p blocked collection (DefCandidates definition'))"
    by (auto simp: visible_of_def may_receive_def)
  have "pool = found \<and> filter blocked considered = [] \<or> pool = keepUnrestricted (filter blocked considered) found"
    using left assms(2) by (auto simp: withoutRestricted_def split: if_splits)
  then show ?thesis using found all keepUnrestricted_pool [OF found(1), of "filter blocked considered"]
    by (elim disjE) (auto simp: filter_empty_conv)
qed

section \<open>One choice\<close>

lemma find_atScope_id:
  "LockPolicy rows scope i = Inr locked \<Longrightarrow> \<exists>row. find (atScope scope i) rows = Some row \<and> policyOf row = Inr locked"
  by (auto simp: LockPolicy_def split: option.splits)

lemma policyOf_row:
  "policyOf row = Inr locked \<Longrightarrow> PolicyCursor locked = RowCursor row \<and> PolicyID locked = RowID row"
  by (auto simp: policyOf_def go_result)

definition turn_positions :: "ID list \<Rightarrow> AutoAssignPolicy \<Rightarrow> (nat \<times> AutoAssignCandidate) list" where
  "turn_positions eligible' locked =
     filter (\<lambda>(position, candidate). CandID candidate \<in> set eligible') (enumerate 0 (PolicyCandidates locked))"

lemma turn_positions_at:
  "(position, candidate) \<in> set (turn_positions eligible' locked) \<longleftrightarrow>
     position < length (PolicyCandidates locked) \<and> candidate = PolicyCandidates locked ! position \<and> CandID candidate \<in> set eligible'"
  by (auto simp: turn_positions_def in_set_enumerate_eq)

lemma turnSelection_simps [simp]:
  "SelAccounts (turnSelection sel eligible' locked) = map (\<lambda>(position, candidate). CandID candidate) (turn_positions eligible' locked)"
  "Positions (turnSelection sel eligible' locked) = map (\<lambda>(position, candidate). int position) (turn_positions eligible' locked)"
  "CandidateCount (turnSelection sel eligible' locked) = int (length (PolicyCandidates locked))"
  "Cursor (turnSelection sel eligible' locked) = PolicyCursor locked"
  by (simp_all add: turnSelection_def turn_positions_def Let_def)

lemma turnSelection_ok: "0 \<le> PolicyCursor locked \<Longrightarrow> turns_ok (turnSelection sel eligible' locked)"
  by (auto simp: turns_ok_def turn_positions_at)

lemma turnSelection_material:
  "account_material (turnSelection sel eligible' locked) = set eligible' \<inter> CandID ` set (PolicyCandidates locked)"
proof -
  have "x \<in> account_material (turnSelection sel eligible' locked) \<longleftrightarrow> (\<exists>position candidate. (position, candidate) \<in> set (turn_positions eligible' locked) \<and> x = CandID candidate)" for x
    by (force simp: account_material_def)
  then show ?thesis unfolding set_eq_iff turn_positions_at by (auto simp: image_iff) (metis in_set_conv_nth)
qed

lemma selectionOf_simps [simp]:
  "SelAccounts (selectionOf p pool) = poolAccounts pool" "SelGroups (selectionOf p pool) = poolGroups pool"
  "Random (selectionOf p pool) = IntN p"
  by (simp_all add: selectionOf_def)

lemma selectionOf_ok: "pool_ok pool \<Longrightarrow> in_range (IntN p) \<Longrightarrow> draws_ok (selectionOf p pool) \<and> draws_ok (selectionOf p pool\<lparr>OpenItems := load\<rparr>)"
  by (simp add: draws_ok_def pool_ok_def)

text \<open>Whom a strategy picks from: the members of the groups, the eligible accounts of the locked row, or the accounts.\<close>

definition choice_material :: "desk \<Rightarrow> Container \<Rightarrow> eligiblePool \<Rightarrow> ID set" where
  "choice_material d collection pool =
     (if poolStrategy pool = AssignRandomGroupMember then \<Union>g \<in> set (poolGroups pool). set (GroupMembers g)
      else if poolStrategy pool = AssignRoundRobin
      then (case LockPolicy (deskPolicies d) AutoAssignScopeCollection (ContID collection) of
              Inl e \<Rightarrow> {} | Inr locked \<Rightarrow> set (poolEligible pool) \<inter> CandID ` set (PolicyCandidates locked))
      else set (poolAccounts pool))"

definition cursors_ok :: "desk \<Rightarrow> bool" where
  "cursors_ok d \<longleftrightarrow> (\<forall>row \<in> set (deskPolicies d). 0 \<le> RowCursor row)"

lemma locked_cursor:
  assumes "LockPolicy (deskPolicies d) scope i = Inr locked" "cursors_ok d"
  shows "0 \<le> PolicyCursor locked"
proof -
  obtain row where row: "find (atScope scope i) (deskPolicies d) = Some row" "policyOf row = Inr locked"
    using find_atScope_id [OF assms(1)] by blast
  then have "row \<in> set (deskPolicies d)" by (auto simp: find_Some_iff)
  then show ?thesis using assms(2) policyOf_row [OF row(2)] by (simp add: cursors_ok_def)
qed

lemma chooseAccount_cases:
  assumes "chooseAccount p d collection pool = Inr (choice, locked)" "pool_ok pool" "in_range (IntN p)" "cursors_ok d"
  shows "case choice of None \<Rightarrow> choice_material d collection pool = {} | Some c \<Rightarrow> ChosenID c \<in> choice_material d collection pool"
proof -
  note ok = selectionOf_ok [OF assms(2,3)]
  obtain strategy where strategy: "map_of strategies (poolStrategy pool) = Some strategy"
    using assms(1) by (auto simp: chooseAccount_def StrategyFor_def go_result split: option.splits)
  consider (fixed) "poolStrategy pool = AssignFixed" "strategy = fixedStrategy"
    | (random) "poolStrategy pool = AssignRandomMember" "strategy = randomMemberStrategy"
    | (group) "poolStrategy pool = AssignRandomGroupMember" "strategy = randomGroupMemberStrategy"
    | (rotation) "poolStrategy pool = AssignRoundRobin" "strategy = roundRobinStrategy"
    | (load) "poolStrategy pool = AssignLeastLoaded" "strategy = leastLoadedStrategy"
    using strategy by (auto simp: strategies_def split: if_splits)
  then show ?thesis
  proof cases
    case fixed
    then show ?thesis using assms(1) ok fixed.pick_cases [of "selectionOf p pool"]
      by (auto simp: chooseAccount_def StrategyFor_def strategies_def go_result choice_material_def account_material_def Let_def)
  next
    case random
    then show ?thesis using assms(1) ok random_member.pick_cases [of "selectionOf p pool"]
      by (auto simp: chooseAccount_def StrategyFor_def strategies_def go_result choice_material_def account_material_def Let_def)
  next
    case group
    then show ?thesis using assms(1) ok random_group_member.pick_cases [of "selectionOf p pool"]
      by (auto simp: chooseAccount_def StrategyFor_def strategies_def go_result choice_material_def group_material_def Let_def)
  next
    case load
    let ?sel = "selectionOf p pool\<lparr>OpenItems := CountOpenByAssignee (items (deskTree d)) (poolAccounts pool)\<rparr>"
    show ?thesis using assms(1) ok least_loaded.pick_cases [of ?sel] load
      by (auto simp: chooseAccount_def StrategyFor_def strategies_def go_result choice_material_def account_material_def Let_def)
  next
    case rotation
    show ?thesis
    proof (cases "LockPolicy (deskPolicies d) AutoAssignScopeCollection (ContID collection)")
      case (Inl e)
      then show ?thesis using assms(1) rotation
        by (auto simp: chooseAccount_def StrategyFor_def strategies_def choice_material_def Let_def split: if_splits)
    next
      case (Inr policy)
      let ?sel = "turnSelection (selectionOf p pool) (poolEligible pool) policy"
      have "turns_ok ?sel" using turnSelection_ok locked_cursor [OF Inr assms(4)] by blast
      then show ?thesis using assms(1) round_robin.pick_cases [of ?sel] rotation Inr
        by (auto simp: chooseAccount_def StrategyFor_def strategies_def go_result choice_material_def turnSelection_material Let_def)
    qed
  qed
qed

end
