(* ===== verification/Assignment_Properties.thy ===== *)
theory Assignment_Properties
  imports Assignment_Laws Workspace_Example
begin

text \<open>
  What automatic assignment guarantees: an entry lands on somebody the policy names, who may see it and is under no
  restriction, or stays as it is because there is nobody; and a rotation gives everybody who stays in it a turn.
\<close>

section \<open>One assignment\<close>

lemma writeAssignee_Inr:
  assumes "writeAssignee d before after v = Inr (d', written)"
  shows "deskPolicies d' = deskPolicies d" "\<exists>expected. written = after\<lparr>Version := expected + 1\<rparr>
    \<and> SetAssignee (items (deskTree d)) after expected = Inr (items (deskTree d'))"
  using assms by (auto simp: writeAssignee_def go_result Let_def)

text \<open>A successful application, branch by branch.\<close>

lemma applyPolicy_Inr:
  assumes "applyPolicy p d itemID v pool now = Inr (d', written, outcome)"
  obtains item collection choice locked where "findItem (deskTree d) itemID = Inr item"
    "findCollection (deskTree d) (CollectionID item) = Inr collection" "chooseAccount p d collection pool = Inr (choice, locked)"
    "OutAssigned outcome = (choice \<noteq> None)"
    "choice = None \<or> (\<exists>c. choice = Some c \<and> ChosenID c = AssigneeID item) \<longrightarrow> d' = d \<and> written = item"
    "\<forall>c. choice = Some c \<longrightarrow> ChosenID c \<noteq> AssigneeID item \<longrightarrow>
       (\<exists>d1. writeAssignee d item (Assigned item (ChosenID c) now) v = Inr (d1, written) \<and> deskTree d' = deskTree d1
         \<and> (if locked \<noteq> None \<and> Advanced c
            then SaveState (deskPolicies d) ((the locked)\<lparr>PolicyCursor := NextCursor c\<rparr>) = Inr (deskPolicies d')
            else deskPolicies d' = deskPolicies d))"
proof -
  obtain item collection choice locked where read: "findItem (deskTree d) itemID = Inr item"
    "findCollection (deskTree d) (CollectionID item) = Inr collection" "chooseAccount p d collection pool = Inr (choice, locked)"
    using assms by (auto simp: applyPolicy_def go_result)
  show ?thesis
  proof (rule that [OF read])
    show "OutAssigned outcome = (choice \<noteq> None)"
      using assms read by (auto simp: applyPolicy_def go_result Let_def split: option.splits if_splits)
    show "choice = None \<or> (\<exists>c. choice = Some c \<and> ChosenID c = AssigneeID item) \<longrightarrow> d' = d \<and> written = item"
      using assms read by (auto simp: applyPolicy_def go_result Let_def split: option.splits if_splits)
    show "\<forall>c. choice = Some c \<longrightarrow> ChosenID c \<noteq> AssigneeID item \<longrightarrow>
       (\<exists>d1. writeAssignee d item (Assigned item (ChosenID c) now) v = Inr (d1, written) \<and> deskTree d' = deskTree d1
         \<and> (if locked \<noteq> None \<and> Advanced c
            then SaveState (deskPolicies d) ((the locked)\<lparr>PolicyCursor := NextCursor c\<rparr>) = Inr (deskPolicies d')
            else deskPolicies d' = deskPolicies d))"
    proof (intro allI impI)
      fix c assume c: "choice = Some c" "ChosenID c \<noteq> AssigneeID item"
      obtain d1 w where write': "writeAssignee d item (Assigned item (ChosenID c) now) v = Inr (d1, w)"
        and rest: "(case locked of None \<Rightarrow> Inr (d1, w, \<lparr>OutAssigned = True, OutStrategy = poolStrategy pool, OutCode = []\<rparr>)
          | Some policy \<Rightarrow> if Advanced c
              then rbind (SaveState (deskPolicies d1) (policy\<lparr>PolicyCursor := NextCursor c\<rparr>)) (\<lambda>rows.
                Inr (d1\<lparr>deskPolicies := rows\<rparr>, w, \<lparr>OutAssigned = True, OutStrategy = poolStrategy pool, OutCode = []\<rparr>))
              else Inr (d1, w, \<lparr>OutAssigned = True, OutStrategy = poolStrategy pool, OutCode = []\<rparr>)) = Inr (d', written, outcome)"
        using assms read c by (auto simp: applyPolicy_def go_result Let_def)
      show "\<exists>d1. writeAssignee d item (Assigned item (ChosenID c) now) v = Inr (d1, written) \<and> deskTree d' = deskTree d1
           \<and> (if locked \<noteq> None \<and> Advanced c
              then SaveState (deskPolicies d) ((the locked)\<lparr>PolicyCursor := NextCursor c\<rparr>) = Inr (deskPolicies d')
              else deskPolicies d' = deskPolicies d)"
        using rest write' writeAssignee_Inr(1) [OF write'] by (cases locked) (auto simp: go_result split: if_splits)
    qed
  qed
qed

lemma SetAssignee_rows:
  assumes "SetAssignee rows after expected = Inr rows'" "distinct (map ItemID rows)" "findRow rows (ItemID after) = Some before"
    "after = before\<lparr>AssigneeID := a, UpdatedAt := at\<rparr>"
  shows "findRow rows' i = (if i = ItemID after then Some (after\<lparr>Version := expected + 1\<rparr>) else findRow rows i)"
proof -
  let ?change = "\<lambda>row. if ItemID row = ItemID after \<and> Version row = expected
     then row\<lparr>AssigneeID := AssigneeID after, UpdatedAt := UpdatedAt after, Version := Version row + 1\<rparr> else row"
  have rows': "rows' = map ?change rows" using assms(1) by (auto simp: SetAssignee_def split: if_splits)
  obtain row where row: "row \<in> set rows" "ItemID row = ItemID after" "Version row = expected"
    using assms(1) by (auto simp: SetAssignee_def list_ex_iff split: if_splits)
  have "before \<in> set rows" "ItemID before = ItemID after" using assms(3) by (auto simp: findRow_def find_Some_iff)
  then have "row = before" using row assms(2) by (metis distinct_map inj_on_def)
  then have "?change before = after\<lparr>Version := expected + 1\<rparr>" using row assms(4) by simp
  moreover have "findRow rows' i = map_option ?change (findRow rows i)" unfolding rows' findRow_def by (rule find_map_cong) simp
  moreover have "?change r = r" if "findRow rows i = Some r" "i \<noteq> ItemID after" for r
    using that by (auto simp: findRow_def find_Some_iff)
  ultimately show ?thesis using assms(3) by (cases "findRow rows i") auto
qed

lemma writeAssignee_stored:
  assumes "writeAssignee d item (Assigned item a now) v = Inr (d', written)" "a \<noteq> AssigneeID item"
    "findItem (deskTree d) i = Inr item" "distinct (map ItemID (items (deskTree d)))"
  shows "findItem (deskTree d') i = Inr written \<and> AssigneeID written = a \<and> (\<forall>j. j \<noteq> i \<longrightarrow> findItem (deskTree d') j = findItem (deskTree d) j)"
proof -
  let ?after = "Assigned item a now"
  obtain expected where written: "written = ?after\<lparr>Version := expected + 1\<rparr>"
    and rows: "SetAssignee (items (deskTree d)) ?after expected = Inr (items (deskTree d'))" using writeAssignee_Inr(2) [OF assms(1)] by blast
  have after: "?after = item\<lparr>AssigneeID := a, UpdatedAt := now\<rparr>" using assms(2) by (simp add: Assigned_def)
  have item: "findRow (items (deskTree d)) i = Some item" "i = ItemID item"
    using assms(3) by (auto simp: findItem_def findRow_def find_Some_iff split: option.splits)
  have found: "findRow (items (deskTree d')) j = (if j = i then Some written else findRow (items (deskTree d)) j)" for j
    using SetAssignee_rows [OF rows assms(4) _ after, of j] item after written by simp
  show ?thesis using found written after by (simp add: findItem_def)
qed

section \<open>Whom an automatic assignment lands on\<close>

lemma choice_material_pool: "pool_ok pool \<Longrightarrow> choice_material d collection pool \<subseteq> pool_of pool"
  by (auto simp: choice_material_def pool_of_def pool_ok_def split: sum.splits)

text \<open>A pool of one kind of candidate, as a checked definition has it, leaves nothing aside.\<close>

lemma eligibleWalk_kinds:
  "eligibleWalk p collection cs state = Inr r \<Longrightarrow> \<forall>(position, candidate) \<in> set cs. CandKind candidate = kind \<Longrightarrow>
   (kind \<noteq> CandidateAccount \<longrightarrow> poolAccounts (fst r) = poolAccounts (fst state)) \<and>
   (kind \<noteq> CandidateGroup \<longrightarrow> poolGroups (fst r) = poolGroups (fst state)) "
proof (induction cs arbitrary: state)
  case (Cons c cs)
  obtain position candidate pool considered where c: "c = (position, candidate)" "state = (pool, considered)" by (cases c, cases state)
  show ?case using Cons.prems Cons.IH by (fastforce simp: c go_result split: if_splits)
qed simp

lemma eligible_kinds:
  assumes "eligible p collection definition' = Inr pool" "\<forall>candidate \<in> set (DefCandidates definition'). CandKind candidate = kind"
  shows "(kind \<noteq> CandidateAccount \<longrightarrow> poolAccounts pool = []) \<and> (kind \<noteq> CandidateGroup \<longrightarrow> poolGroups pool = [])"
proof -
  let ?cs = "enumerate 0 (DefCandidates definition')" and ?start = "(emptyPool (DefStrategy definition'), [])"
  obtain found considered where walk: "eligibleWalk p collection ?cs ?start = Inr (found, considered)"
    and left: "withoutRestricted p found considered = Inr pool" using assms(1) by (auto simp: eligible_def go_result)
  have "\<forall>(position, candidate) \<in> set ?cs. CandKind candidate = kind" using assms(2) by (auto simp: in_set_enumerate_eq)
  then have "(kind \<noteq> CandidateAccount \<longrightarrow> poolAccounts found = []) \<and> (kind \<noteq> CandidateGroup \<longrightarrow> poolGroups found = [])"
    using eligibleWalk_kinds [OF walk] by (simp add: emptyPool_def)
  moreover have "pool = found \<or> (\<exists>restricted. pool = keepUnrestricted restricted found)"
    using left by (auto simp: withoutRestricted_def go_result split: option.splits if_splits)
  moreover have "poolAccounts (keepUnrestricted restricted found) = []" if "poolAccounts found = []" for restricted
    using that by (simp add: keepUnrestricted_def emptyPool_def Let_def)
  moreover have "poolGroups (keepUnrestricted restricted found) = []" if "poolGroups found = []" for restricted
    using that by (simp add: keepUnrestricted_def emptyPool_def Let_def)
  ultimately show ?thesis by blast
qed

lemma Definition_Validate_kinds:
  assumes "Definition_Validate definition' = None"
  shows "\<forall>candidate \<in> set (DefCandidates definition'). CandKind candidate = candidateKind (DefStrategy definition')"
  using assms by (auto simp: Definition_Validate_def checkCandidates_None split: if_splits)

text \<open>What the rotation reads through the lock is the policy the collection was read with.\<close>

lemma AutoAssignOf_locked:
  assumes "AutoAssignOf d collection = Inr (Some definition')"
  shows "\<exists>locked. LockPolicy (deskPolicies d) AutoAssignScopeCollection (ContID collection) = Inr locked
    \<and> PolicyCandidates locked = DefCandidates definition'"
  using assms by (auto simp: AutoAssignOf_def autoAssignDefinitionFrom_def LockPolicy_def policyOf_def go_result split: option.splits)

lemma choice_material_all:
  assumes "AutoAssignOf d collection = Inr (Some definition')" "eligible p collection definition' = Inr pool"
    and "Restricted p = Some (\<lambda>accounts. Inr (filter blocked accounts))" "Definition_Validate definition' = None"
  shows "choice_material d collection pool = Collect (may_receive p blocked collection (DefCandidates definition'))"
proof -
  obtain locked where locked: "LockPolicy (deskPolicies d) AutoAssignScopeCollection (ContID collection) = Inr locked"
    "PolicyCandidates locked = DefCandidates definition'" using AutoAssignOf_locked [OF assms(1)] by blast
  have pool: "pool_ok pool" "poolStrategy pool = DefStrategy definition'"
    "pool_of pool = Collect (may_receive p blocked collection (DefCandidates definition'))" using eligible_pool [OF assms(2,3)] by auto
  note kinds = Definition_Validate_kinds [OF assms(4)]
  note empty = eligible_kinds [OF assms(2) kinds]
  show ?thesis
  proof (cases "poolStrategy pool = AssignRandomGroupMember")
    case True
    then have "poolAccounts pool = []" using empty pool(2) by (simp add: candidateKind_def)
    then show ?thesis using True pool(3) by (simp add: choice_material_def pool_of_def)
  next
    case False
    then have account: "candidateKind (DefStrategy definition') = CandidateAccount" "poolGroups pool = []"
      using empty pool(2) by (simp_all add: candidateKind_def)
    have "pool_of pool \<subseteq> CandID ` set (PolicyCandidates locked)"
      using kinds unfolding pool(3) locked(2) account(1) by (auto simp: may_receive_def named_by_def)
    then have "set (poolEligible pool) \<inter> CandID ` set (PolicyCandidates locked) = set (poolAccounts pool)"
      using pool(1) by (auto simp: pool_ok_def pool_of_def)
    then show ?thesis using False account pool(3) locked(1) by (auto simp: choice_material_def pool_of_def)
  qed
qed

text \<open>
  C23.  An entry handed out by its collection's policy lands on somebody whom the policy names, alone or as a member of
  a group, who may see the collection and whose processing is not restricted; it is stored, and no other entry changes.
  When nobody was assigned nothing changed, and unless the policy was rewritten in between there was nobody who could
  have been.
\<close>

theorem autoAssignItem_lands:
  assumes "autoAssignItem p planned d itemID expectedVersion now = Inr (d', written, outcome)"
    and "in_range (IntN p)" "Restricted p = Some (\<lambda>accounts. Inr (filter blocked accounts))"
    and "cursors_ok d" "distinct (map ItemID (items (deskTree d)))"
  shows "\<exists>subject collection definition'. readItemScope planned itemID = Inr (subject, collection)
    \<and> AutoAssignOf planned collection = Inr (Some definition')
    \<and> findItem (deskTree d') itemID = Inr written \<and> (\<forall>j. j \<noteq> itemID \<longrightarrow> findItem (deskTree d') j = findItem (deskTree d) j)
    \<and> (if OutAssigned outcome then may_receive p blocked collection (DefCandidates definition') (AssigneeID written)
       else d' = d \<and> (planned = d \<and> Definition_Validate definition' = None
         \<longrightarrow> (\<forall>account. \<not> may_receive p blocked collection (DefCandidates definition') account)))"
proof -
  obtain subject collection definition' pool where plan: "readItemScope planned itemID = Inr (subject, collection)"
    "AutoAssignOf planned collection = Inr (Some definition')" "eligible p collection definition' = Inr pool"
    and run: "applyPolicy p d itemID expectedVersion pool now = Inr (d', written, outcome)"
    using assms(1) by (auto simp: autoAssignItem_def go_result split: if_splits option.splits)
  note pool = eligible_pool [OF plan(3) assms(3)]
  obtain item there choice locked where read: "findItem (deskTree d) itemID = Inr item"
    "findCollection (deskTree d) (CollectionID item) = Inr there" "chooseAccount p d there pool = Inr (choice, locked)"
    and out: "OutAssigned outcome = (choice \<noteq> None)"
    and same: "choice = None \<or> (\<exists>c. choice = Some c \<and> ChosenID c = AssigneeID item) \<longrightarrow> d' = d \<and> written = item"
    and changed: "\<forall>c. choice = Some c \<longrightarrow> ChosenID c \<noteq> AssigneeID item \<longrightarrow>
       (\<exists>d1. writeAssignee d item (Assigned item (ChosenID c) now) expectedVersion = Inr (d1, written) \<and> deskTree d' = deskTree d1)"
    using applyPolicy_Inr [OF run] by (metis (no_types, lifting))
  note chosen = chooseAccount_cases [OF read(3) conjunct1 [OF pool] assms(2,4)]
  have stored: "findItem (deskTree d') itemID = Inr written \<and> (\<forall>j. j \<noteq> itemID \<longrightarrow> findItem (deskTree d') j = findItem (deskTree d) j)
      \<and> (\<forall>c. choice = Some c \<longrightarrow> AssigneeID written = ChosenID c)"
  proof (cases "choice = None \<or> (\<exists>c. choice = Some c \<and> ChosenID c = AssigneeID item)")
    case True
    then show ?thesis using same read(1) by auto
  next
    case False
    then obtain c where c: "choice = Some c" "ChosenID c \<noteq> AssigneeID item" by (cases choice) auto
    obtain d1 where "deskTree d' = deskTree d1"
      "writeAssignee d item (Assigned item (ChosenID c) now) expectedVersion = Inr (d1, written)" using changed c by metis
    then show ?thesis using writeAssignee_stored [OF _ _ read(1) assms(5), of "ChosenID c" now expectedVersion d1 written] c by auto
  qed
  have lands: "may_receive p blocked collection (DefCandidates definition') (AssigneeID written)" if "choice = Some c" for c
    using that chosen choice_material_pool [of pool d there] pool stored by auto
  have nobody: "\<not> may_receive p blocked collection (DefCandidates definition') account"
    if "choice = None" "planned = d" "Definition_Validate definition' = None" for account
  proof -
    have "there = collection" using plan(1) read(1,2) that(2) by (simp add: readItemScope_def)
    then show ?thesis using chosen that choice_material_all [OF _ plan(3) assms(3) that(3), of d] plan(2) by auto
  qed
  show ?thesis using plan stored lands nobody out same by (cases choice) auto
qed

section \<open>The rotation over time\<close>

lemma SaveState_locked:
  assumes "LockPolicy rows scope i = Inr policy" "SaveState rows (policy\<lparr>PolicyCursor := cursor\<rparr>) = Inr rows'"
  shows "LockPolicy rows' scope i = Inr (policy\<lparr>PolicyCursor := cursor\<rparr>)"
proof -
  obtain row where row: "find (atScope scope i) rows = Some row" "policyOf row = Inr policy" using find_atScope_id [OF assms(1)] by blast
  let ?change = "\<lambda>row. if RowID row = PolicyID policy then row\<lparr>RowCursor := cursor\<rparr> else row"
  have "rows' = map ?change rows" using assms(2) by (auto simp: SaveState_def split: if_splits)
  moreover have "find (atScope scope i) (map ?change rows) = map_option ?change (find (atScope scope i) rows)"
    by (rule find_map_cong) (simp add: atScope_def)
  moreover have "policyOf (row\<lparr>RowCursor := cursor\<rparr>) = Inr (policy\<lparr>PolicyCursor := cursor\<rparr>)"
    using row(2) by (auto simp: policyOf_def go_result)
  ultimately show ?thesis using row policyOf_row [OF row(2)] by (simp add: LockPolicy_def)
qed

text \<open>One turn: the pick is somebody at or before the candidate in the order, and the cursor stands behind the pick.\<close>

lemma rotation_choice:
  assumes "chooseAccount p d collection pool = Inr (choice, locked)" "poolStrategy pool = AssignRoundRobin"
    and lock: "LockPolicy (deskPolicies d) AutoAssignScopeCollection (ContID collection) = Inr policy" and cursor: "0 \<le> PolicyCursor policy"
    and q: "q < length (PolicyCandidates policy)" "CandID (PolicyCandidates policy ! q) \<in> set (poolEligible pool)"
  obtains offset k c where "choice = Some c" "locked = Some policy" "Advanced c" "k < length (PolicyCandidates policy)"
    "ChosenID c = CandID (PolicyCandidates policy ! k)" "int k = (PolicyCursor policy + offset) mod int (length (PolicyCandidates policy))"
    "NextCursor c = (int k + 1) mod int (length (PolicyCandidates policy))"
    "0 \<le> offset" "offset \<le> (int q - PolicyCursor policy) mod int (length (PolicyCandidates policy))"
proof -
  let ?sel = "turnSelection (selectionOf p pool) (poolEligible pool) policy" and ?n = "int (length (PolicyCandidates policy))"
  have run: "roundRobinStrategy ?sel = Inr choice" "locked = Some policy"
    using assms(1,2) lock by (auto simp: chooseAccount_def StrategyFor_def strategies_def go_result Let_def)
  have "(q, PolicyCandidates policy ! q) \<in> set (turn_positions (poolEligible pool) policy)" using q by (simp add: turn_positions_at)
  then have "int q \<in> set (Positions ?sel)" by force
  from roundRobin_some [OF turnSelection_ok [OF cursor] this]
  obtain offset c where "roundRobinStrategy ?sel = Inr (Some c)" "taken_at ?sel (cursorOf ?sel) offset c" "0 \<le> offset"
    "offset \<le> (int q - cursorOf ?sel) mod CandidateCount ?sel" by metis
  then have taken: "choice = Some c" "taken_at ?sel (cursorOf ?sel) offset c" "0 \<le> offset"
    "offset \<le> (int q - cursorOf ?sel) mod ?n" using run(1) by auto
  obtain i where i: "i < length (turn_positions (poolEligible pool) policy)" "Positions ?sel ! i = (cursorOf ?sel + offset) mod ?n"
    and c: "c = \<lparr>ChosenID = SelAccounts ?sel ! i, NextCursor = ((cursorOf ?sel + offset) mod ?n + 1) mod ?n, Advanced = True\<rparr>"
    using taken(2) by (auto simp: taken_at_def Let_def)
  obtain k candidate where k: "turn_positions (poolEligible pool) policy ! i = (k, candidate)" by fastforce
  then have at: "k < length (PolicyCandidates policy)" "candidate = PolicyCandidates policy ! k"
    using nth_mem [OF i(1)] by (auto simp: turn_positions_at)
  have "int k = (cursorOf ?sel + offset) mod ?n" "ChosenID c = CandID candidate" using i k c by simp_all
  then show ?thesis using that [of c k offset] taken run(2) at c by (simp add: cursorOf_def mod_simps)
qed

text \<open>
  A collection over time, with one account that stays eligible: automatic assignments by the rotation that change
  an assignee, and anything else that leaves the policy's row alone.
\<close>

inductive rotates :: "ID \<Rightarrow> ID \<Rightarrow> desk \<Rightarrow> ID list \<Rightarrow> desk \<Rightarrow> bool" for collection account where
  start: "rotates collection account d [] d"
| turn: "rotates collection account d picks d1 \<Longrightarrow> applyPolicy p d1 itemID expectedVersion pool now = Inr (d2, written, outcome) \<Longrightarrow>
     findItem (deskTree d1) itemID = Inr item \<Longrightarrow> CollectionID item = collection \<Longrightarrow> AssigneeID written \<noteq> AssigneeID item \<Longrightarrow>
     poolStrategy pool = AssignRoundRobin \<Longrightarrow> account \<in> set (poolEligible pool) \<Longrightarrow>
     rotates collection account d (picks @ [AssigneeID written]) d2"
| between: "rotates collection account d picks d1 \<Longrightarrow>
     find (atScope AutoAssignScopeCollection collection) (deskPolicies d2) = find (atScope AutoAssignScopeCollection collection) (deskPolicies d1) \<Longrightarrow>
     rotates collection account d picks d2"

definition waiting_for :: "ID \<Rightarrow> AutoAssignPolicy \<Rightarrow> nat \<Rightarrow> desk \<Rightarrow> int \<Rightarrow> bool" where
  "waiting_for collection policy q d distance \<longleftrightarrow>
     (\<exists>now. LockPolicy (deskPolicies d) AutoAssignScopeCollection collection = Inr now \<and> PolicyCandidates now = PolicyCandidates policy
        \<and> 0 \<le> PolicyCursor now \<and> distance = (int q - PolicyCursor now) mod int (length (PolicyCandidates policy)))"

lemma distance_shrinks:
  fixes n :: int
  assumes "0 < n" "k = (cursor + offset) mod n" "0 \<le> offset" "offset \<le> (q - cursor) mod n" "0 \<le> q" "q < n" "k \<noteq> q"
  shows "(q - (k + 1) mod n) mod n < (q - cursor) mod n"
proof -
  let ?d = "(q - cursor) mod n"
  have "offset \<noteq> ?d"
  proof
    assume "offset = ?d"
    then have "k = q mod n" using assms(2) by (simp add: mod_simps)
    then show False using assms(5-7) by simp
  qed
  then have range: "0 \<le> ?d - offset - 1" "?d - offset - 1 < n" using assms(3,4) pos_mod_bound [OF assms(1), of "q - cursor"] by linarith+
  have "(q - (k + 1) mod n) mod n = (q - cursor - offset - 1) mod n" unfolding assms(2) by (simp add: mod_simps algebra_simps)
  also have "\<dots> = (?d - offset - 1) mod n" using mod_diff_left_eq [of "q - cursor" n "offset + 1"] by (simp add: diff_diff_add add.assoc)
  also have "\<dots> = ?d - offset - 1" using range by simp
  finally show ?thesis using assms(3) by simp
qed

lemma rotation_turn:
  assumes "applyPolicy p d1 itemID expectedVersion pool now = Inr (d2, written, outcome)" "findItem (deskTree d1) itemID = Inr item"
    "CollectionID item = collection" "AssigneeID written \<noteq> AssigneeID item" "poolStrategy pool = AssignRoundRobin"
    "CandID (PolicyCandidates policy ! q) \<in> set (poolEligible pool)" "q < length (PolicyCandidates policy)"
    and waiting: "waiting_for collection policy q d1 distance" and other: "AssigneeID written \<noteq> CandID (PolicyCandidates policy ! q)"
  shows "\<exists>closer < distance. waiting_for collection policy q d2 closer"
proof -
  let ?n = "int (length (PolicyCandidates policy))"
  obtain locked where locked: "LockPolicy (deskPolicies d1) AutoAssignScopeCollection collection = Inr locked"
    "PolicyCandidates locked = PolicyCandidates policy" "0 \<le> PolicyCursor locked" "distance = (int q - PolicyCursor locked) mod ?n"
    using waiting by (auto simp: waiting_for_def)
  obtain item' there choice held where read: "findItem (deskTree d1) itemID = Inr item'"
    "findCollection (deskTree d1) (CollectionID item') = Inr there" "chooseAccount p d1 there pool = Inr (choice, held)"
    and out: "OutAssigned outcome = (choice \<noteq> None)"
    and same: "choice = None \<or> (\<exists>c. choice = Some c \<and> ChosenID c = AssigneeID item') \<longrightarrow> d2 = d1 \<and> written = item'"
    and changed: "\<forall>c. choice = Some c \<longrightarrow> ChosenID c \<noteq> AssigneeID item' \<longrightarrow>
       (\<exists>d. writeAssignee d1 item' (Assigned item' (ChosenID c) now) expectedVersion = Inr (d, written) \<and> deskTree d2 = deskTree d
         \<and> (if held \<noteq> None \<and> Advanced c
            then SaveState (deskPolicies d1) ((the held)\<lparr>PolicyCursor := NextCursor c\<rparr>) = Inr (deskPolicies d2)
            else deskPolicies d2 = deskPolicies d1))"
    by (rule applyPolicy_Inr [OF assms(1)])
  have item: "item' = item" "ContID there = collection"
    using read(1,2) assms(2,3) by (auto simp: findCollection_def findContainer_def find_Some_iff split: option.splits)
  obtain offset k c where choice: "choice = Some c" "held = Some locked" "Advanced c" "k < length (PolicyCandidates policy)"
    "ChosenID c = CandID (PolicyCandidates policy ! k)" "int k = (PolicyCursor locked + offset) mod ?n"
    "NextCursor c = (int k + 1) mod ?n" "0 \<le> offset" "offset \<le> distance"
    using rotation_choice [OF read(3) assms(5), of locked q] locked assms(6,7) item by metis
  have new: "ChosenID c \<noteq> AssigneeID item'" using same choice(1) assms(4) item by auto
  obtain d where written: "writeAssignee d1 item' (Assigned item' (ChosenID c) now) expectedVersion = Inr (d, written)"
    "SaveState (deskPolicies d1) (locked\<lparr>PolicyCursor := NextCursor c\<rparr>) = Inr (deskPolicies d2)"
    using changed choice(1-3) new by auto
  have "AssigneeID written = ChosenID c" using writeAssignee_Inr(2) [OF written(1)] new by (auto simp: Assigned_def)
  then have away: "int k \<noteq> int q" using other choice(5) by auto
  have n: "0 < ?n" using assms(7) by linarith
  have "(int q - NextCursor c) mod ?n < distance"
    unfolding choice(7) locked(4) by (rule distance_shrinks [OF n choice(6,8)]) (use choice(9) away assms(7) locked(4) in simp_all)
  moreover have "waiting_for collection policy q d2 ((int q - NextCursor c) mod ?n)"
    using SaveState_locked [OF locked(1) written(2)] locked(2) choice(7) pos_mod_sign [OF n] by (auto simp: waiting_for_def)
  ultimately show ?thesis by blast
qed

lemma rotates_waiting:
  assumes "rotates collection account d picks d'" "waiting_for collection policy q d distance"
    and "q < length (PolicyCandidates policy)" "CandID (PolicyCandidates policy ! q) = account"
  shows "account \<in> set picks \<or> (\<exists>left. waiting_for collection policy q d' left \<and> int (length picks) + left \<le> distance)"
  using assms
proof (induction rule: rotates.induct)
  case (turn d picks d1 p itemID expectedVersion pool now d2 written outcome item)
  show ?case
  proof (cases "account \<in> set picks \<or> AssigneeID written = account")
    case False
    then obtain left where left: "waiting_for collection policy q d1 left" "int (length picks) + left \<le> distance"
      using turn.IH turn.prems by blast
    obtain closer where "closer < left" "waiting_for collection policy q d2 closer"
      using rotation_turn [OF turn.hyps(2-6), of policy q left] turn.hyps(7) turn.prems False left(1) by metis
    then show ?thesis using left(2) by force
  qed auto
next
  case (between d picks d1 d2)
  have "waiting_for collection policy q d2 left = waiting_for collection policy q d1 left" for left
    using between.hyps(2) by (simp add: waiting_for_def LockPolicy_def)
  then show ?case using between.IH between.prems by metis
qed auto

text \<open>
  C11.  A rotation is fair: whatever else happens in the workspace and whoever else is eligible from turn to turn, a
  candidate who stays eligible has been given an entry once as many entries were handed out as there are candidates.
\<close>

theorem rotation_fair:
  assumes "rotates collection account d picks d'"
    and "LockPolicy (deskPolicies d) AutoAssignScopeCollection collection = Inr policy" "0 \<le> PolicyCursor policy"
    and "account \<in> CandID ` set (PolicyCandidates policy)" "length picks \<ge> length (PolicyCandidates policy)"
  shows "account \<in> set picks"
proof -
  obtain q where q: "q < length (PolicyCandidates policy)" "CandID (PolicyCandidates policy ! q) = account"
    using assms(4) by (auto simp: in_set_conv_nth)
  let ?distance = "(int q - PolicyCursor policy) mod int (length (PolicyCandidates policy))"
  have "waiting_for collection policy q d ?distance" using assms(2,3) by (auto simp: waiting_for_def)
  then consider "account \<in> set picks" | left where "waiting_for collection policy q d' left" "int (length picks) + left \<le> ?distance"
    using rotates_waiting [OF assms(1) _ q] by blast
  then show ?thesis
  proof cases
    case 2
    have "?distance < int (length (PolicyCandidates policy))" using q(1) by (intro pos_mod_bound) linarith
    moreover have "0 \<le> left" using 2(1) q(1) by (auto simp: waiting_for_def intro!: pos_mod_sign)
    ultimately show ?thesis using 2(2) assms(5) by linarith
  qed
qed

section \<open>A team that takes turns\<close>

text \<open>Three candidates of whom the last may not see the collection, and three entries on nobody.\<close>

definition teamPorts :: ports where
  "teamPorts = \<lparr>CanSee = (\<lambda>_ account. Inr (account \<noteq> uid (CHR ''9''))), MembersOf = (\<lambda>_. Inl (Failure ErrNotFound)),
     Restricted = Some (\<lambda>accounts. Inr (filter (\<lambda>_. False) accounts)), RunsForRule = '''', IntN = (\<lambda>_ _. 0),
     MayWrite = (\<lambda>_ _. None), gatedProfile = (\<lambda>_ _. Inr ((levelProfile ItemTask [ItemWorkPackage] 3)\<lparr>Capabilities := [CapabilityAssignment]\<rparr>))\<rparr>"

definition teamRow :: "int \<Rightarrow> StoredPolicy" where
  "teamRow cursor = \<lparr>RowID = uid (CHR ''e''), RowScopeType = AutoAssignScopeCollection, RowScopeID = uid (CHR ''c''),
     RowStrategy = AssignRoundRobin, RowCandidates = map (\<lambda>c. (CandidateAccount, uid c)) ''789'', RowCursor = cursor, RowEnabled = True, RowVersion = 1\<rparr>"

definition teamDesk :: "int \<Rightarrow> (char \<times> string) list \<Rightarrow> desk" where
  "teamDesk cursor given = \<lparr>deskTree = treeOf (map (\<lambda>item. case map_of given (last (ItemID item)) of
      None \<Rightarrow> item | Some account \<Rightarrow> item\<lparr>AssigneeID := account, UpdatedAt := 6, Version := 2\<rparr>) [task1, task2, package1]),
     deskPolicies = [teamRow cursor]\<rparr>"

definition teamPool :: eligiblePool where
  "teamPool = \<lparr>poolStrategy = AssignRoundRobin, poolAccounts = [uid (CHR ''7''), uid (CHR ''8'')], poolPositions = [0, 1],
     poolEligible = [uid (CHR ''7''), uid (CHR ''8'')], poolGroups = []\<rparr>"

definition handedOut :: AutoAssignOutcome where
  "handedOut = \<lparr>OutAssigned = True, OutStrategy = AssignRoundRobin, OutCode = ''''\<rparr>"

definition given :: "WorkItem \<Rightarrow> char \<Rightarrow> WorkItem" where
  "given item account = item\<lparr>AssigneeID := uid account, UpdatedAt := 6, Version := 2\<rparr>"

lemma team_turns:
  "applyPolicy teamPorts (teamDesk 0 []) (ItemID task1) 0 teamPool 6
     = Inr (teamDesk 1 [(CHR ''1'', uid (CHR ''7''))], given task1 (CHR ''7''), handedOut)"
  "applyPolicy teamPorts (teamDesk 1 [(CHR ''1'', uid (CHR ''7''))]) (ItemID task2) 0 teamPool 6
     = Inr (teamDesk 2 [(CHR ''1'', uid (CHR ''7'')), (CHR ''2'', uid (CHR ''8''))], given task2 (CHR ''8''), handedOut)"
  "applyPolicy teamPorts (teamDesk 2 [(CHR ''1'', uid (CHR ''7'')), (CHR ''2'', uid (CHR ''8''))]) (ItemID package1) 0 teamPool 6
     = Inr (teamDesk 1 [(CHR ''1'', uid (CHR ''7'')), (CHR ''2'', uid (CHR ''8'')), (CHR ''3'', uid (CHR ''7''))], given package1 (CHR ''7''), handedOut)"
  by code_simp+

lemma team_items:
  "findItem (deskTree (teamDesk 0 [])) (ItemID task1) = Inr task1 \<and> CollectionID task1 = uid (CHR ''c'') \<and> AssigneeID task1 = ''''"
  "findItem (deskTree (teamDesk 1 [(CHR ''1'', uid (CHR ''7''))])) (ItemID task2) = Inr task2 \<and> CollectionID task2 = uid (CHR ''c'') \<and> AssigneeID task2 = ''''"
  "findItem (deskTree (teamDesk 2 [(CHR ''1'', uid (CHR ''7'')), (CHR ''2'', uid (CHR ''8''))])) (ItemID package1) = Inr package1
     \<and> CollectionID package1 = uid (CHR ''c'') \<and> AssigneeID package1 = ''''"
  by code_simp+

lemma team_rotates:
  "rotates (uid (CHR ''c'')) (uid (CHR ''8'')) (teamDesk 0 []) [uid (CHR ''7''), uid (CHR ''8''), uid (CHR ''7'')]
     (teamDesk 1 [(CHR ''1'', uid (CHR ''7'')), (CHR ''2'', uid (CHR ''8'')), (CHR ''3'', uid (CHR ''7''))])"
proof -
  have pool: "poolStrategy teamPool = AssignRoundRobin" "uid (CHR ''8'') \<in> set (poolEligible teamPool)" by (simp_all add: teamPool_def)
  have on: "AssigneeID (given item account) = uid account" "uid account \<noteq> ''''" for item account by (simp_all add: given_def uid_def)
  note turn = rotates.turn [where pool = teamPool, OF _ _ conjunct1 conjunct1 [OF conjunct2] _ pool]
  show ?thesis
    using turn [OF turn [OF turn [OF rotates.start team_turns(1) team_items(1) team_items(1)] team_turns(2) team_items(2) team_items(2)]
        team_turns(3) team_items(3) team_items(3)]
    using team_items by (simp add: on)
qed

theorem rotation_fair_witness:
  "rotates (uid (CHR ''c'')) (uid (CHR ''8'')) (teamDesk 0 []) [uid (CHR ''7''), uid (CHR ''8''), uid (CHR ''7'')]
     (teamDesk 1 [(CHR ''1'', uid (CHR ''7'')), (CHR ''2'', uid (CHR ''8'')), (CHR ''3'', uid (CHR ''7''))])
   \<and> uid (CHR ''8'') \<in> set [uid (CHR ''7''), uid (CHR ''8''), uid (CHR ''7'')]"
proof -
  let ?policy = "\<lparr>PolicyID = uid (CHR ''e''), PolicyScopeType = AutoAssignScopeCollection, PolicyScopeID = uid (CHR ''c''),
     PolicyStrategy = AssignRoundRobin, PolicyCandidates = map (\<lambda>c. \<lparr>CandKind = CandidateAccount, CandID = uid c\<rparr>) ''789'',
     PolicyCursor = 0, PolicyEnabled = True, PolicyVersion = 1\<rparr>"
  have "LockPolicy (deskPolicies (teamDesk 0 [])) AutoAssignScopeCollection (uid (CHR ''c'')) = Inr ?policy" by code_simp
  from rotation_fair [OF team_rotates this] team_rotates show ?thesis by simp
qed

theorem autoAssignItem_lands_witness:
  "autoAssignItem teamPorts (teamDesk 0 []) (teamDesk 0 []) (ItemID task1) 0 6
     = Inr (teamDesk 1 [(CHR ''1'', uid (CHR ''7''))], given task1 (CHR ''7''), handedOut)
   \<and> (\<exists>collection definition'. AutoAssignOf (teamDesk 0 []) collection = Inr (Some definition')
        \<and> may_receive teamPorts (\<lambda>_. False) collection (DefCandidates definition') (uid (CHR ''7'')))"
proof -
  have run: "autoAssignItem teamPorts (teamDesk 0 []) (teamDesk 0 []) (ItemID task1) 0 6
     = Inr (teamDesk 1 [(CHR ''1'', uid (CHR ''7''))], given task1 (CHR ''7''), handedOut)" by code_simp
  have "in_range (IntN teamPorts)" "Restricted teamPorts = Some (\<lambda>accounts. Inr (filter (\<lambda>_. False) accounts))" "cursors_ok (teamDesk 0 [])"
    by (simp_all add: in_range_def teamPorts_def cursors_ok_def teamDesk_def teamRow_def)
  moreover have "distinct (map ItemID (items (deskTree (teamDesk 0 []))))" by code_simp
  ultimately show ?thesis using autoAssignItem_lands [OF run, of "\<lambda>_. False"] run by (auto simp: handedOut_def given_def)
qed

end
