(* ===== verification/Workflow.thy ===== *)
theory Workflow
  imports Containers Access Hierarchy
begin

text \<open>
  Workflows, from \<^verbatim>\<open>core/domain/model/work/Workflow.go\<close> and \<^verbatim>\<open>StepApproval.go\<close>: the statuses and steps of a shape,
  the check a shape passes before it is stored, a workflow with its draft, where an entry enters a shape, and which
  workflow is in force.  A category and an approval rule are strings, as in the code.  A map from languages to words is an
  association list.
\<close>

section \<open>Categories and statuses\<close>

type_synonym StatusCategory = string

abbreviation "CategoryBacklog \<equiv> ''BACKLOG''"
abbreviation "CategoryTodo \<equiv> ''TODO''"
abbreviation "CategoryInProgress \<equiv> ''IN_PROGRESS''"
abbreviation "CategoryDone \<equiv> ''DONE''"

definition StatusCategories :: "StatusCategory list" where
  "StatusCategories = [CategoryBacklog, CategoryTodo, CategoryInProgress, CategoryDone]"

definition Category_Valid :: "StatusCategory \<Rightarrow> bool" where
  "Category_Valid c \<longleftrightarrow> c \<in> set StatusCategories"

definition Category_Completes :: "StatusCategory \<Rightarrow> bool" where
  "Category_Completes c \<longleftrightarrow> c = CategoryDone"

definition SystemWorkflowKey :: string where "SystemWorkflowKey = ''default''"
definition MaxWorkflowStatuses :: nat where "MaxWorkflowStatuses = 30"
definition MaxWorkflowSteps :: nat where "MaxWorkflowSteps = 100"
definition MaxStepChecks :: nat where "MaxStepChecks = 20"
definition MaxStepCheckLanguages :: nat where "MaxStepCheckLanguages = 20"
definition MaxStructureNameLength :: nat where "MaxStructureNameLength = 120"
definition MaxFormHelpLength :: nat where "MaxFormHelpLength = 500"
definition MaxFormExpressionLength :: nat where "MaxFormExpressionLength = 4096"

text \<open>The regular expression \<^verbatim>\<open>^[a-z][a-z0-9_]{0,49}$\<close>.\<close>

definition workflowKeyPattern :: "string \<Rightarrow> bool" where
  "workflowKeyPattern key \<longleftrightarrow> 1 \<le> length key \<and> length key \<le> 50 \<and> objectKeyFrom 0 key"

text \<open>The regular expression \<^verbatim>\<open>^[a-z]{2,3}(-[A-Z]{2})?$\<close>.\<close>

definition lowerLetter :: "char \<Rightarrow> bool" where "lowerLetter c \<longleftrightarrow> CHR ''a'' \<le> c \<and> c \<le> CHR ''z''"
definition upperLetter :: "char \<Rightarrow> bool" where "upperLetter c \<longleftrightarrow> CHR ''A'' \<le> c \<and> c \<le> CHR ''Z''"

definition languageTagPattern :: "string \<Rightarrow> bool" where
  "languageTagPattern tag \<longleftrightarrow>
     (let language = takeWhile lowerLetter tag; region = drop (length language) tag in
      (length language = 2 \<or> length language = 3)
      \<and> (region = [] \<or> length region = 3 \<and> hd region = CHR ''-'' \<and> list_all upperLetter (tl region)))"

record WorkflowStatus =
  StatusKey :: string
  StatusName :: string
  StatusCat :: StatusCategory
  StatusColor :: string

record StepWho =
  WhoRoles :: "string list"
  WhoPersonFields :: "string list"
  WhoGroups :: "string list"
  WhoCondition :: string

definition StepWho_IsOpen :: "StepWho \<Rightarrow> bool" where
  "StepWho_IsOpen w \<longleftrightarrow> WhoRoles w = [] \<and> WhoPersonFields w = [] \<and> WhoGroups w = [] \<and> TrimSpace (WhoCondition w) = ''''"

record StepCheck =
  CheckKey :: string
  CheckHolds :: string
  CheckMessage :: string
  CheckMessages :: "(string \<times> string) list"
  CheckMessageCode :: string

definition StepCheckMessageCodes :: "string list" where
  "StepCheckMessageCodes = [''fill_required'', ''attach_evidence'', ''needs_approval'', ''amount_positive'', ''dates_in_order'', ''needs_assignee'']"

type_synonym ApprovalRule = string

abbreviation "ApprovalAny \<equiv> ''ANY''"
abbreviation "ApprovalAll \<equiv> ''ALL''"
abbreviation "ApprovalNOf \<equiv> ''N_OF''"
abbreviation "ApprovalMajority \<equiv> ''MAJORITY''"

definition MaxApprovalLevels :: nat where "MaxApprovalLevels = 5"
definition MaxApprovalApprovers :: nat where "MaxApprovalApprovers = 50"
definition MaxApprovalDueHours :: int where "MaxApprovalDueHours = 24 * 90"

record ApprovalLevel =
  LevelPeople :: "string list"
  LevelGroups :: "string list"
  LevelRoles :: "string list"
  LevelPersonFields :: "string list"
  LevelRule :: ApprovalRule
  LevelCount :: int

definition Counted :: "ApprovalLevel \<Rightarrow> bool" where
  "Counted l \<longleftrightarrow> LevelRule l = ApprovalAll \<or> LevelRule l = ApprovalMajority"

definition Needed :: "ApprovalLevel \<Rightarrow> int \<Rightarrow> int" where
  "Needed l counted =
     (if LevelRule l = ApprovalAll then counted
      else if LevelRule l = ApprovalMajority then counted div 2 + 1
      else if LevelRule l = ApprovalNOf then LevelCount l
      else 1)"

record StepApproval =
  ApprovalLevels :: "ApprovalLevel list"
  ApprovalDeclineTo :: string
  ApprovalDueHours :: int

record WorkflowStep =
  StepKey :: string
  StepName :: string
  StepFrom :: "string list"
  StepTo :: string
  StepWhoMay :: StepWho
  StepRequires :: "string list"
  StepAsks :: "string list"
  StepChecks :: "StepCheck list"
  StepApprovalOf :: "StepApproval option"

definition LeavesFrom :: "WorkflowStep \<Rightarrow> string \<Rightarrow> bool" where
  "LeavesFrom s status \<longleftrightarrow> (if status = StepTo s then False else StepFrom s = [] \<or> status \<in> set (StepFrom s))"

section \<open>Shapes\<close>

record WorkflowShape =
  Statuses :: "WorkflowStatus list"
  Initial :: string
  Steps :: "WorkflowStep list"

definition ShapeStatus :: "WorkflowShape \<Rightarrow> string \<Rightarrow> WorkflowStatus option" where
  "ShapeStatus s key = find (\<lambda>status. StatusKey status = key) (Statuses s)"

definition ShapeStep :: "WorkflowShape \<Rightarrow> string \<Rightarrow> WorkflowStep option" where
  "ShapeStep s key = find (\<lambda>step. StepKey step = key) (Steps s)"

definition StepsFrom :: "WorkflowShape \<Rightarrow> string \<Rightarrow> WorkflowStep list" where
  "StepsFrom s status = filter (\<lambda>step. LeavesFrom step status) (Steps s)"

definition FirstDone :: "WorkflowShape \<Rightarrow> string" where
  "FirstDone s = (case find (\<lambda>status. Category_Completes (StatusCat status)) (Statuses s) of None \<Rightarrow> '''' | Some status \<Rightarrow> StatusKey status)"

definition Completes :: "WorkflowShape \<Rightarrow> string \<Rightarrow> bool" where
  "Completes s key = (case ShapeStatus s key of None \<Rightarrow> False | Some status \<Rightarrow> Category_Completes (StatusCat status))"

definition Entering :: "WorkflowShape \<Rightarrow> string \<Rightarrow> bool \<Rightarrow> string" where
  "Entering s status completed =
     (if (case ShapeStatus s status of None \<Rightarrow> False | Some known \<Rightarrow> Category_Completes (StatusCat known) = completed) then status
      else if completed then FirstDone s
      else Initial s)"

definition Columns :: "WorkflowShape \<Rightarrow> string list" where
  "Columns s = map StatusKey (Statuses s)"

section \<open>The check of a shape\<close>

definition workflowInvalid :: "string \<Rightarrow> string \<Rightarrow> params \<Rightarrow> failure" where
  "workflowInvalid path code params =
     Failure (WithFields (WithParams (WithDetail ErrValidation code) params) [\<lparr>Path = path, FieldCode = code, FieldParams = params\<rparr>])"

definition workflowName :: "string \<Rightarrow> bool \<Rightarrow> normalizer \<Rightarrow> string result" where
  "workflowName raw mayBeEmpty form =
     rbind (NFC (TrimSpace raw) form) (\<lambda>name.
       if name = '''' \<and> \<not> mayBeEmpty then Inl (workflowInvalid ''/name'' ''workflows.name_empty'' [])
       else if RuneCountInString name > MaxStructureNameLength
       then Inl (workflowInvalid ''/name'' ''workflows.name_too_long'' [(''maximum'', ''120'')])
       else if containsControl name then Inl (workflowInvalid ''/name'' ''workflows.name_malformed'' [])
       else Inr name)"

definition atFormPath :: "'a result \<Rightarrow> string \<Rightarrow> 'a result" where
  "atFormPath r path =
     (case r of
        Inl (Failure coded) \<Rightarrow> Inl (workflowInvalid path (DetailCode coded) (Params coded))
      | _ \<Rightarrow> r)"

definition formCoreKeys :: "string list" where
  "formCoreKeys = [''title'', ''notes'', ''due_date'', ''start_at'']"

definition FormCustomPrefix :: string where "FormCustomPrefix = ''custom_fields.''"

definition validFormFieldKey :: "string \<Rightarrow> bool" where
  "validFormFieldKey key \<longleftrightarrow>
     key \<in> set formCoreKeys \<or> hasPrefix key FormCustomPrefix \<and> objectKeyFrom 0 (drop (length FormCustomPrefix) key)"

definition formHelp :: "string \<Rightarrow> normalizer \<Rightarrow> string \<Rightarrow> string result" where
  "formHelp raw form at =
     rbind (NFC (TrimSpace raw) form) (\<lambda>help.
       if RuneCountInString help > MaxFormHelpLength then Inl (workflowInvalid at ''forms.help_too_long'' [(''maximum'', ''500'')])
       else Inr help)"

text \<open>Appending what is not there yet.\<close>

definition addNew :: "string list \<Rightarrow> string \<Rightarrow> string list" where
  "addNew xs x = (if x \<in> set xs then xs else xs @ [x])"

fun checkEach :: "(string \<Rightarrow> failure option) \<Rightarrow> (string \<Rightarrow> bool) \<Rightarrow> string list \<Rightarrow> string list \<Rightarrow> string list result" where
  "checkEach check keep kept [] = Inr kept"
| "checkEach check keep kept (x # xs) =
     guarded (check x) (checkEach check keep (if keep x then addNew kept x else kept) xs)"

definition stepRoles :: "string list" where
  "stepRoles = [''OWNER'', ''ADMIN'', ''MEMBER'', ''CONTRIBUTOR'', ''GUEST'']"

definition checkRole :: "string \<Rightarrow> string \<Rightarrow> failure option" where
  "checkRole at role = (if role \<notin> set stepRoles \<and> \<not> ValidCustomRoleKey role
     then Some (workflowInvalid (at @ ''/roles'') ''workflows.role_unknown'' [(''role'', role)]) else None)"

definition checkPersonField :: "string \<Rightarrow> string \<Rightarrow> failure option" where
  "checkPersonField at field = (if field \<noteq> ''assignee'' \<and> field \<noteq> ''created_by'' \<and> (\<not> hasPrefix field FormCustomPrefix \<or> \<not> validFormFieldKey field)
     then Some (workflowInvalid (at @ ''/person_fields'') ''workflows.field_unknown'' [(''key'', field)]) else None)"

definition checkGroup :: "string \<Rightarrow> string \<Rightarrow> failure option" where
  "checkGroup at g = (case ParseID g of
       Inl _ \<Rightarrow> Some (workflowInvalid (at @ ''/groups'') ''workflows.group_unknown'' [(''group'', g)])
     | Inr i \<Rightarrow> if IsZero i then Some (workflowInvalid (at @ ''/groups'') ''workflows.group_unknown'' [(''group'', g)]) else None)"

definition newStepWho :: "StepWho \<Rightarrow> string \<Rightarrow> StepWho result" where
  "newStepWho who at =
     rbind (checkEach (checkRole at) (\<lambda>_. True) [] (WhoRoles who)) (\<lambda>roles.
     rbind (checkEach (checkPersonField at) (\<lambda>_. True) [] (WhoPersonFields who)) (\<lambda>people.
     rbind (checkEach (checkGroup at) (\<lambda>_. True) [] (WhoGroups who)) (\<lambda>groups.
       let condition = TrimSpace (WhoCondition who) in
       if length condition > MaxFormExpressionLength then Inl (workflowInvalid (at @ ''/condition'') ''expression.too_long'' [])
       else Inr \<lparr>WhoRoles = roles, WhoPersonFields = people, WhoGroups = groups, WhoCondition = condition\<rparr>)))"

definition statusKnown :: "WorkflowShape \<Rightarrow> string \<Rightarrow> string \<Rightarrow> failure option" where
  "statusKnown shape path key =
     (if ShapeStatus shape key = None then Some (workflowInvalid path ''workflows.status_unknown'' [(''key'', key)]) else None)"

definition distinctTrimmed :: "string list \<Rightarrow> string list" where
  "distinctTrimmed values =
     foldl (\<lambda>out v. let v = TrimSpace v in if v \<noteq> '''' then addNew out v else out) [] values"

definition checkApprover :: "string \<Rightarrow> string \<Rightarrow> failure option" where
  "checkApprover at person = (case ParseID person of
       Inl _ \<Rightarrow> Some (workflowInvalid (at @ ''/people'') ''workflows.approver_unknown'' [(''person'', person)])
     | Inr i \<Rightarrow> if IsZero i then Some (workflowInvalid (at @ ''/people'') ''workflows.approver_unknown'' [(''person'', person)]) else None)"

definition newApprovalLevel :: "ApprovalLevel \<Rightarrow> string \<Rightarrow> ApprovalLevel result" where
  "newApprovalLevel level at =
     rbind (newStepWho \<lparr>WhoRoles = LevelRoles level, WhoPersonFields = LevelPersonFields level, WhoGroups = LevelGroups level,
              WhoCondition = ''''\<rparr> at) (\<lambda>who.
     let level = level\<lparr>LevelRoles := WhoRoles who, LevelPersonFields := WhoPersonFields who, LevelGroups := WhoGroups who,
                       LevelPeople := distinctTrimmed (LevelPeople level)\<rparr>;
         named = length (LevelPeople level) + length (LevelGroups level) + length (LevelPersonFields level) in
     guarded (case find (\<lambda>person. checkApprover at person \<noteq> None) (LevelPeople level) of None \<Rightarrow> None | Some person \<Rightarrow> checkApprover at person) (
     if named + length (LevelRoles level) = 0 then Inl (workflowInvalid at ''workflows.approval_nobody'' [])
     else if named + length (LevelRoles level) > MaxApprovalApprovers
     then Inl (workflowInvalid at ''workflows.approval_too_many'' [(''maximum'', ''50'')])
     else
       rbind (if LevelRule level \<in> {ApprovalAny, ApprovalAll, ApprovalMajority} then Inr (level\<lparr>LevelCount := 0\<rparr>)
              else if LevelRule level = ApprovalNOf
              then if LevelCount level < 1 \<or> LevelCount level > int MaxApprovalApprovers
                   then Inl (workflowInvalid (at @ ''/count'') ''workflows.approval_count'' []) else Inr level
              else Inl (workflowInvalid (at @ ''/rule'') ''workflows.approval_rule_unknown'' [(''rule'', LevelRule level)])) (\<lambda>level.
         if Counted level \<and> LevelRoles level \<noteq> [] then Inl (workflowInvalid (at @ ''/roles'') ''workflows.approval_role_uncounted'' [])
         else Inr level)))"

text \<open>A loop over a slice with its index; the path of an element is written with \<^verbatim>\<open>strconv.Itoa\<close>.\<close>

fun indexed_map :: "nat \<Rightarrow> (nat \<Rightarrow> 'a \<Rightarrow> 'b result) \<Rightarrow> 'a list \<Rightarrow> 'b list result" where
  "indexed_map i f [] = Inr []"
| "indexed_map i f (x # xs) = rbind (f i x) (\<lambda>y. rbind (indexed_map (Suc i) f xs) (\<lambda>ys. Inr (y # ys)))"

definition pathAt :: "string \<Rightarrow> nat \<Rightarrow> string" where
  "pathAt base i = base @ itoa (int i)"

definition newStepApproval :: "StepApproval \<Rightarrow> WorkflowShape \<Rightarrow> string \<Rightarrow> StepApproval result" where
  "newStepApproval approval shape at =
     (if ApprovalLevels approval = [] \<or> length (ApprovalLevels approval) > MaxApprovalLevels
      then Inl (workflowInvalid (at @ ''/levels'') ''workflows.approval_levels'' [(''maximum'', ''5'')])
      else
        guarded (if ApprovalDeclineTo approval \<noteq> '''' then statusKnown shape (at @ ''/decline_to'') (ApprovalDeclineTo approval) else None) (
        if ApprovalDueHours approval < 0 \<or> ApprovalDueHours approval > MaxApprovalDueHours
        then Inl (workflowInvalid (at @ ''/due_hours'') ''workflows.approval_due_hours'' [(''maximum'', ''2160'')])
        else rbind (indexed_map 0 (\<lambda>i level. newApprovalLevel level (pathAt (at @ ''/levels/'') i)) (ApprovalLevels approval)) (\<lambda>levels.
          Inr (approval\<lparr>ApprovalLevels := levels\<rparr>))))"

text \<open>Go ranges over a map in no fixed order; the model takes the order of the list, which decides only which error is first.\<close>

fun checkMessages :: "normalizer \<Rightarrow> string \<Rightarrow> (string \<times> string) list \<Rightarrow> (string \<times> string) list result" where
  "checkMessages form at [] = Inr []"
| "checkMessages form at ((language, words) # rest) =
     (if \<not> languageTagPattern language
      then Inl (workflowInvalid (at @ ''/'' @ language) ''workflows.language_malformed'' [(''language'', language)])
      else rbind (formHelp words form (at @ ''/'' @ language)) (\<lambda>message.
           rbind (checkMessages form at rest) (\<lambda>out. Inr (if message = '''' then out else (language, message) # out))))"

definition stepCheckMessages :: "(string \<times> string) list \<Rightarrow> normalizer \<Rightarrow> string \<Rightarrow> (string \<times> string) list result" where
  "stepCheckMessages raw form at =
     (if length raw > MaxStepCheckLanguages then Inl (workflowInvalid at ''workflows.too_many_languages'' [(''maximum'', ''20'')])
      else checkMessages form at raw)"

definition newStepCheck :: "normalizer \<Rightarrow> string \<Rightarrow> StepCheck list \<Rightarrow> StepCheck \<Rightarrow> StepCheck result" where
  "newStepCheck form at checks check =
     (let key = TrimSpace (CheckKey check); code = TrimSpace (CheckMessageCode check) in
      if \<not> workflowKeyPattern key then Inl (workflowInvalid (at @ ''/key'') ''workflows.key_malformed'' [])
      else if list_ex (\<lambda>other. CheckKey other = key) checks
      then Inl (workflowInvalid (at @ ''/key'') ''workflows.key_taken'' [(''key'', key)])
      else if TrimSpace (CheckHolds check) = '''' then Inl (workflowInvalid (at @ ''/holds'') ''workflows.check_empty'' [])
      else if length (CheckHolds check) > MaxFormExpressionLength then Inl (workflowInvalid (at @ ''/holds'') ''expression.too_long'' [])
      else rbind (formHelp (CheckMessage check) form (at @ ''/message'')) (\<lambda>message.
           rbind (stepCheckMessages (CheckMessages check) form (at @ ''/messages'')) (\<lambda>messages.
             if code \<noteq> '''' \<and> code \<notin> set StepCheckMessageCodes
             then Inl (workflowInvalid (at @ ''/message_code'') ''workflows.message_code_unknown'' [(''code'', code)])
             else Inr (check\<lparr>CheckKey := key, CheckMessage := message, CheckMessages := messages, CheckMessageCode := code\<rparr>))))"

fun newStepChecks :: "normalizer \<Rightarrow> string \<Rightarrow> nat \<Rightarrow> StepCheck list \<Rightarrow> StepCheck list \<Rightarrow> StepCheck list result" where
  "newStepChecks form at i checks [] = Inr checks"
| "newStepChecks form at i checks (check # rest) =
     rbind (newStepCheck form (pathAt (at @ ''/checks/'') i) checks check) (\<lambda>checked.
       newStepChecks form at (Suc i) (checks @ [checked]) rest)"

definition fieldKnown :: "string \<Rightarrow> string \<Rightarrow> failure option" where
  "fieldKnown at key =
     (if \<not> validFormFieldKey key then Some (workflowInvalid (at @ ''/requires'') ''workflows.field_unknown'' [(''key'', key)]) else None)"

definition newWorkflowStep :: "WorkflowStep \<Rightarrow> WorkflowShape \<Rightarrow> normalizer \<Rightarrow> string \<Rightarrow> WorkflowStep result" where
  "newWorkflowStep step shape form at =
     (let key = TrimSpace (StepKey step) in
      if \<not> workflowKeyPattern key then Inl (workflowInvalid (at @ ''/key'') ''workflows.key_malformed'' [])
      else if ShapeStep shape key \<noteq> None then Inl (workflowInvalid (at @ ''/key'') ''workflows.key_taken'' [(''key'', key)])
      else
        rbind (atFormPath (workflowName (StepName step) True form) (at @ ''/name'')) (\<lambda>name.
        guarded (statusKnown shape (at @ ''/to'') (StepTo step)) (
        rbind (checkEach (statusKnown shape (at @ ''/from'')) (\<lambda>k. k \<noteq> StepTo step) [] (StepFrom step)) (\<lambda>from.
        if StepFrom step \<noteq> [] \<and> from = [] then Inl (workflowInvalid (at @ ''/from'') ''workflows.step_goes_nowhere'' [])
        else
        rbind (checkEach (fieldKnown at) (\<lambda>_. True) [] (StepRequires step)) (\<lambda>requires.
        rbind (checkEach (fieldKnown at) (\<lambda>_. True) [] (StepAsks step)) (\<lambda>asks.
        rbind (newStepWho (StepWhoMay step) (at @ ''/who'')) (\<lambda>who.
        if length (StepChecks step) > MaxStepChecks then Inl (workflowInvalid (at @ ''/checks'') ''workflows.too_many_checks'' [(''maximum'', ''20'')])
        else
        rbind (newStepChecks form at 0 [] (StepChecks step)) (\<lambda>checks.
        rbind (case StepApprovalOf step of
                 None \<Rightarrow> Inr None
               | Some approval \<Rightarrow> rbind (newStepApproval approval shape (at @ ''/approval'')) (\<lambda>a. Inr (Some a))) (\<lambda>approval.
          Inr (step\<lparr>StepKey := key, StepName := name, StepFrom := from, StepRequires := requires, StepAsks := asks, StepWhoMay := who,
                    StepChecks := checks, StepApprovalOf := approval\<rparr>))))))))))"

definition openWho :: StepWho where
  "openWho = \<lparr>WhoRoles = [], WhoPersonFields = [], WhoGroups = [], WhoCondition = ''''\<rparr>"

definition plainStep :: "string \<Rightarrow> string \<Rightarrow> WorkflowStep" where
  "plainStep key to = \<lparr>StepKey = key, StepName = '''', StepFrom = [], StepTo = to, StepWhoMay = openWho, StepRequires = [], StepAsks = [],
     StepChecks = [], StepApprovalOf = None\<rparr>"

record Workflow =
  WorkflowID :: ID
  WorkflowTenantID :: ID
  WorkflowKey :: string
  System :: bool
  WorkflowNameOf :: string
  Published :: WorkflowShape
  Draft :: "WorkflowShape option"
  PublishedAt :: "time option"
  PublishedBy :: ID
  WorkflowCreatedAt :: time
  WorkflowUpdatedAt :: time
  WorkflowVersion :: int
  WorkflowHubID :: ID
  CopiedFrom :: string

definition UsableIn :: "Workflow \<Rightarrow> ID \<Rightarrow> bool" where
  "UsableIn w hub \<longleftrightarrow> IsZero (WorkflowHubID w) \<or> WorkflowHubID w = hub"

definition Stored :: "Workflow \<Rightarrow> bool" where
  "Stored w \<longleftrightarrow> \<not> IsZero (WorkflowID w)"

text \<open>The zero time of Go stands before every instant; the shipped workflow, which no row holds, carries it.\<close>

definition SystemWorkflow :: Workflow where
  "SystemWorkflow = \<lparr>WorkflowID = '''', WorkflowTenantID = '''', WorkflowKey = SystemWorkflowKey, System = True, WorkflowNameOf = '''',
     Published = \<lparr>Statuses = [\<lparr>StatusKey = ''todo'', StatusName = '''', StatusCat = CategoryTodo, StatusColor = ''slate''\<rparr>,
         \<lparr>StatusKey = ''in_progress'', StatusName = '''', StatusCat = CategoryInProgress, StatusColor = ''blue''\<rparr>,
         \<lparr>StatusKey = ''done'', StatusName = '''', StatusCat = CategoryDone, StatusColor = ''green''\<rparr>],
       Initial = ''todo'', Steps = [plainStep ''to_todo'' ''todo'', plainStep ''start'' ''in_progress'', plainStep ''finish'' ''done'']\<rparr>,
     Draft = None, PublishedAt = None, PublishedBy = '''', WorkflowCreatedAt = 0, WorkflowUpdatedAt = 0, WorkflowVersion = 0,
     WorkflowHubID = '''', CopiedFrom = ''''\<rparr>"

definition newStatus :: "bool \<Rightarrow> normalizer \<Rightarrow> string \<Rightarrow> WorkflowShape \<Rightarrow> WorkflowStatus \<Rightarrow> WorkflowStatus result" where
  "newStatus system form at out status =
     (let key = TrimSpace (StatusKey status); color = (if StatusColor status = '''' then ''slate'' else StatusColor status) in
      if \<not> workflowKeyPattern key then Inl (workflowInvalid (at @ ''/key'') ''workflows.key_malformed'' [])
      else if ShapeStatus out key \<noteq> None then Inl (workflowInvalid (at @ ''/key'') ''workflows.key_taken'' [(''key'', key)])
      else if \<not> Category_Valid (StatusCat status) then Inl (workflowInvalid (at @ ''/category'') ''workflows.category_unknown'' [])
      else if \<not> IsLabelToken color then Inl (workflowInvalid (at @ ''/color_token'') ''workflows.color_token_unknown'' [])
      else rbind (atFormPath (workflowName (StatusName status) (system \<and> ShapeStatus (Published SystemWorkflow) key \<noteq> None) form) (at @ ''/name''))
        (\<lambda>name. Inr (status\<lparr>StatusKey := key, StatusColor := color, StatusName := name\<rparr>)))"

fun newStatuses :: "bool \<Rightarrow> normalizer \<Rightarrow> nat \<Rightarrow> WorkflowShape \<Rightarrow> WorkflowStatus list \<Rightarrow> WorkflowShape result" where
  "newStatuses system form i out [] = Inr out"
| "newStatuses system form i out (status # rest) =
     rbind (newStatus system form (pathAt ''/statuses/'' i) out status) (\<lambda>checked.
       newStatuses system form (Suc i) (out\<lparr>Statuses := Statuses out @ [checked]\<rparr>) rest)"

fun newSteps :: "normalizer \<Rightarrow> nat \<Rightarrow> WorkflowShape \<Rightarrow> WorkflowStep list \<Rightarrow> WorkflowShape result" where
  "newSteps form i out [] = Inr out"
| "newSteps form i out (step # rest) =
     rbind (newWorkflowStep step out form (pathAt ''/steps/'' i)) (\<lambda>checked.
       newSteps form (Suc i) (out\<lparr>Steps := Steps out @ [checked]\<rparr>) rest)"

definition initialOf :: "WorkflowShape \<Rightarrow> string \<Rightarrow> string" where
  "initialOf out raw =
     (let initial = TrimSpace raw in
      if initial \<noteq> '''' then initial
      else case find (\<lambda>status. \<not> Category_Completes (StatusCat status)) (Statuses out) of None \<Rightarrow> '''' | Some status \<Rightarrow> StatusKey status)"

definition NewWorkflowShape :: "WorkflowShape \<Rightarrow> bool \<Rightarrow> normalizer \<Rightarrow> WorkflowShape result" where
  "NewWorkflowShape inp system form =
     (if Statuses inp = [] then Inl (workflowInvalid ''/statuses'' ''workflows.statuses_empty'' [])
      else if length (Statuses inp) > MaxWorkflowStatuses
      then Inl (workflowInvalid ''/statuses'' ''workflows.too_many_statuses'' [(''maximum'', ''30'')])
      else if length (Steps inp) > MaxWorkflowSteps
      then Inl (workflowInvalid ''/steps'' ''workflows.too_many_steps'' [(''maximum'', ''100'')])
      else
        rbind (newStatuses system form 0 \<lparr>Statuses = [], Initial = '''', Steps = []\<rparr> (Statuses inp)) (\<lambda>out.
        if FirstDone out = '''' then Inl (workflowInvalid ''/statuses'' ''workflows.no_done_status'' [])
        else let initial = initialOf out (Initial inp) in
          if (case ShapeStatus out initial of None \<Rightarrow> True | Some start \<Rightarrow> Category_Completes (StatusCat start))
          then Inl (workflowInvalid ''/initial'' ''workflows.initial_invalid'' [])
          else newSteps form 0 (out\<lparr>Initial := initial\<rparr>) (Steps inp)))"

section \<open>Workflows\<close>

definition NewWorkflows :: "Workflow list \<Rightarrow> Workflow list" where
  "NewWorkflows rows =
     (let own = filter (\<lambda>row. WorkflowKey row = SystemWorkflowKey) rows;
          system = (if own = [] then SystemWorkflow else (last own)\<lparr>System := True\<rparr>)
      in system # filter (\<lambda>row. WorkflowKey row \<noteq> SystemWorkflowKey) rows)"

definition Started :: "Workflow list \<Rightarrow> string list" where
  "Started ws = sort (foldl addNew [] (concat (map (\<lambda>w. map StatusKey
     (filter (\<lambda>status. StatusCat status = CategoryInProgress) (Statuses (Published w)))) ws)))"

definition Within :: "Workflow list \<Rightarrow> ID \<Rightarrow> Workflow list" where
  "Within ws hub = filter (\<lambda>w. UsableIn w hub) ws"

definition FindWorkflow :: "Workflow list \<Rightarrow> string \<Rightarrow> Workflow option" where
  "FindWorkflow ws key = find (\<lambda>w. WorkflowKey w = key) ws"

record NewWorkflowInput =
  InWorkflowID :: ID
  InWorkflowTenantID :: ID
  InWorkflowKey :: string
  InWorkflowName :: string
  InShape :: WorkflowShape
  InBy :: ID
  InWorkflowNow :: time
  InWorkflowText :: normalizer
  InHubID :: ID

definition NewWorkflow :: "NewWorkflowInput \<Rightarrow> Workflow result" where
  "NewWorkflow inp =
     (if IsZero (InWorkflowID inp) \<or> IsZero (InWorkflowTenantID inp)
      then Inl (Failure (WithDetail ErrInternal ''workflows.identity_incomplete''))
      else let key = TrimSpace (InWorkflowKey inp) in
        if \<not> workflowKeyPattern key then Inl (workflowInvalid ''/key'' ''workflows.key_malformed'' [])
        else if key = SystemWorkflowKey then Inl (workflowInvalid ''/key'' ''workflows.key_reserved'' [])
        else
          rbind (workflowName (InWorkflowName inp) False (InWorkflowText inp)) (\<lambda>name.
          rbind (NewWorkflowShape (InShape inp) False (InWorkflowText inp)) (\<lambda>shape.
            Inr \<lparr>WorkflowID = InWorkflowID inp, WorkflowTenantID = InWorkflowTenantID inp, WorkflowKey = key, System = False,
                 WorkflowNameOf = name, Published = shape, Draft = None, PublishedAt = Some (InWorkflowNow inp), PublishedBy = InBy inp,
                 WorkflowCreatedAt = InWorkflowNow inp, WorkflowUpdatedAt = InWorkflowNow inp, WorkflowVersion = 1,
                 WorkflowHubID = InHubID inp, CopiedFrom = ''''\<rparr>)))"

record WorkflowCopy =
  CopyID :: ID
  CopyTenantID :: ID
  CopyHubID :: ID
  CopyKey :: string
  CopyName :: "string option"
  CopyBy :: ID
  CopyNow :: time
  CopyText :: normalizer

definition CopyAt :: "Workflow \<Rightarrow> WorkflowCopy \<Rightarrow> Workflow result" where
  "CopyAt w inp =
     (if IsZero (CopyHubID inp) then Inl (workflowInvalid ''/hub_id'' ''workflows.hub_required'' [])
      else
        rbind (NewWorkflow \<lparr>InWorkflowID = CopyID inp,
            InWorkflowTenantID = (if IsZero (CopyTenantID inp) then WorkflowTenantID w else CopyTenantID inp), InWorkflowKey = CopyKey inp,
            InWorkflowName = (case CopyName inp of None \<Rightarrow> WorkflowNameOf w | Some name \<Rightarrow> name), InShape = Published w,
            InBy = CopyBy inp, InWorkflowNow = CopyNow inp, InWorkflowText = CopyText inp, InHubID = CopyHubID inp\<rparr>) (\<lambda>copied.
          Inr (copied\<lparr>CopiedFrom := WorkflowKey w\<rparr>)))"

definition Workflow_Renamed :: "Workflow \<Rightarrow> string \<Rightarrow> time \<Rightarrow> normalizer \<Rightarrow> Workflow result" where
  "Workflow_Renamed w raw now form =
     rbind (workflowName raw (System w) form) (\<lambda>name. Inr (w\<lparr>WorkflowNameOf := name, WorkflowUpdatedAt := now\<rparr>))"

definition WithDraft :: "Workflow \<Rightarrow> WorkflowShape \<Rightarrow> time \<Rightarrow> normalizer \<Rightarrow> Workflow result" where
  "WithDraft w shape now form =
     rbind (NewWorkflowShape shape (System w) form) (\<lambda>checked. Inr (w\<lparr>Draft := Some checked, WorkflowUpdatedAt := now\<rparr>))"

definition Discarded :: "Workflow \<Rightarrow> time \<Rightarrow> Workflow" where
  "Discarded w now = w\<lparr>Draft := None, WorkflowUpdatedAt := now\<rparr>"

definition Publish :: "Workflow \<Rightarrow> ID \<Rightarrow> time \<Rightarrow> Workflow result" where
  "Publish w by' now =
     (case Draft w of
        None \<Rightarrow> Inl (Failure (WithDetail ErrConflict ''workflows.no_draft''))
      | Some draft \<Rightarrow> Inr (w\<lparr>Published := draft, Draft := None, PublishedAt := Some now, PublishedBy := by', WorkflowUpdatedAt := now\<rparr>))"

section \<open>The workflow in force\<close>

record WorkflowScheme =
  SchemeContainer :: ID
  SchemeType :: string
  SchemeWorkflow :: string

definition schemeRow :: "WorkflowScheme list \<Rightarrow> ID \<Rightarrow> string \<Rightarrow> string option" where
  "schemeRow schemes container wanted =
     map_option SchemeWorkflow (find (\<lambda>scheme. SchemeContainer scheme = container \<and> SchemeType scheme = wanted) schemes)"

definition schemeAt :: "WorkflowScheme list \<Rightarrow> ID \<Rightarrow> string \<Rightarrow> string option" where
  "schemeAt schemes container entryType =
     (if IsZero container then None
      else case schemeRow schemes container entryType of Some key \<Rightarrow> Some key | None \<Rightarrow> schemeRow schemes container '''')"

definition ResolveWorkflow :: "WorkflowScheme list \<Rightarrow> ID \<Rightarrow> ID \<Rightarrow> string \<Rightarrow> string option" where
  "ResolveWorkflow schemes collectionID hubID entryType =
     (case schemeAt schemes collectionID entryType of Some key \<Rightarrow> Some key | None \<Rightarrow> schemeAt schemes hubID entryType)"

definition InForce :: "WorkflowScheme list \<Rightarrow> Workflow list \<Rightarrow> ID \<Rightarrow> ID \<Rightarrow> string \<Rightarrow> Workflow option" where
  "InForce schemes rows collectionID hubID entryType =
     (if schemes = [] then None
      else case ResolveWorkflow schemes collectionID hubID entryType of
             None \<Rightarrow> None | Some key \<Rightarrow> FindWorkflow (NewWorkflows rows) key)"

section \<open>Refusing a step\<close>

definition slashes :: "string \<Rightarrow> string" where
  "slashes key = map (\<lambda>c. if c = CHR ''.'' then CHR ''/'' else c) key"

definition StepRefused :: "WorkflowStep \<Rightarrow> string list \<Rightarrow> StepCheck list \<Rightarrow> failure" where
  "StepRefused step missing failed =
     (let problems = map (\<lambda>key. \<lparr>Path = ''/'' @ slashes key, FieldCode = ''fields.value_required'', FieldParams = [(''key'', key)]\<rparr>) missing
        @ map (\<lambda>check. \<lparr>Path = '''', FieldCode = ''workflows.check_failed'',
            FieldParams = (''check'', CheckKey check) # (if CheckMessage check \<noteq> '''' then [(''message'', CheckMessage check)] else [])
              @ (if CheckMessageCode check \<noteq> '''' then [(''message_code'', CheckMessageCode check)] else [])
              @ map (\<lambda>(language, words). (''message.'' @ language, words)) (CheckMessages check)\<rparr>) failed
      in Failure (WithFields (WithParams (WithDetail ErrValidation ''workflows.step_refused'')
           [(''step'', StepKey step), (''count'', itoa (int (length problems)))]) problems))"

section \<open>Moving entries between statuses\<close>

record StatusGroup =
  GroupCollection :: ID
  GroupType :: string
  GroupStatus :: string
  GroupCompleted :: bool
  GroupCount :: int

record StatusMove =
  MoveCollection :: ID
  MoveType :: string
  MoveFrom :: string
  MoveCompleted :: bool
  MoveTo :: string
  MoveCount :: int

text \<open>Where the entries of a group go; a mapping is a Go map, a missing key reads as empty.\<close>

definition targetOf :: "WorkflowShape option \<Rightarrow> (string \<rightharpoonup> string) \<Rightarrow> StatusGroup \<Rightarrow> string result" where
  "targetOf after mapping g =
     (case after of
        None \<Rightarrow> Inr ''''
      | Some shape \<Rightarrow>
          let to = Entering shape (GroupStatus g) (GroupCompleted g) in
          if ShapeStatus shape (GroupStatus g) \<noteq> None then Inr to
          else case mapping (GroupStatus g) of
                 None \<Rightarrow> Inr to
               | Some target \<Rightarrow>
                   if target = '''' then Inr to
                   else case ShapeStatus shape target of
                          None \<Rightarrow> Inl (workflowInvalid (''/mapping/'' @ GroupStatus g) ''workflows.status_unknown'' [(''key'', target)])
                        | Some status \<Rightarrow>
                            if Category_Completes (StatusCat status) \<noteq> GroupCompleted g
                            then Inl (workflowInvalid (''/mapping/'' @ GroupStatus g) ''workflows.mapping_changes_completion'' [(''key'', target)])
                            else Inr target)"

fun PlanStatusMoves :: "StatusGroup list \<Rightarrow> WorkflowShape option \<Rightarrow> (string \<rightharpoonup> string) \<Rightarrow> StatusMove list result" where
  "PlanStatusMoves [] after mapping = Inr []"
| "PlanStatusMoves (g # groups) after mapping =
     rbind (targetOf after mapping g) (\<lambda>to.
     rbind (PlanStatusMoves groups after mapping) (\<lambda>moves.
       Inr (if to = GroupStatus g then moves
            else \<lparr>MoveCollection = GroupCollection g, MoveType = GroupType g, MoveFrom = GroupStatus g,
                  MoveCompleted = GroupCompleted g, MoveTo = to, MoveCount = GroupCount g\<rparr> # moves)))"

text \<open>The body of the loop that counts the entries of removed statuses.\<close>

definition removedStep :: "WorkflowShape \<Rightarrow> WorkflowShape \<Rightarrow> (string \<rightharpoonup> int) \<Rightarrow> StatusGroup \<Rightarrow> string \<rightharpoonup> int" where
  "removedStep before after out g =
     (if ShapeStatus before (GroupStatus g) = None then out
      else if ShapeStatus after (GroupStatus g) = None
      then out(GroupStatus g \<mapsto> (case out (GroupStatus g) of None \<Rightarrow> 0 | Some n \<Rightarrow> n) + GroupCount g)
      else out)"

definition RemovedStatuses :: "WorkflowShape \<Rightarrow> WorkflowShape \<Rightarrow> StatusGroup list \<Rightarrow> string \<rightharpoonup> int" where
  "RemovedStatuses before after groups = foldl (removedStep before after) Map.empty groups"

end
