(* ===== verification/Workflow_Moves.thy ===== *)
theory Workflow_Moves
  imports Workflow "HOL-Library.Product_Lexorder"
begin

text \<open>
  Publishing a workflow and choosing the workflow of a container, with the entries they move:
  \<^verbatim>\<open>core/application/service/workflow/Workflows.go\<close>, \<^verbatim>\<open>service/work/WorkflowGate.go\<close> (\<^verbatim>\<open>Settle\<close>, \<^verbatim>\<open>StatusMover\<close>) and the
  statements of \<^verbatim>\<open>postgres/WorkflowRepository.go\<close>.  Of an entry the model keeps what the statements read and write; an
  absent status is the empty text, the type is the key of the entry's own type or of its level.  Permissions, events, the
  change log, audit and history are not modelled.
\<close>

section \<open>The state\<close>

record EntryRow =
  EntryItem :: ID
  EntryCollection :: ID
  EntryKind :: string
  EntryStatus :: string
  EntryCompleted :: bool
  EntryUpdatedAt :: time
  EntryVersion :: int

record office =
  offWorkflows :: "Workflow list"
  offSchemes :: "WorkflowScheme list"
  offContainers :: "Container list"
  offEntries :: "EntryRow list"

section \<open>Statements\<close>

definition groupKey :: "EntryRow \<Rightarrow> ID \<times> string \<times> string \<times> bool" where
  "groupKey row = (EntryCollection row, EntryKind row, EntryStatus row, EntryCompleted row)"

definition StatusGroups :: "EntryRow list \<Rightarrow> ID list \<Rightarrow> StatusGroup list" where
  "StatusGroups rows collectionIDs =
     (let keys = map groupKey (filter (\<lambda>row. EntryCollection row \<in> set collectionIDs) rows) in
      map (\<lambda>(collection, kind, status, completed). \<lparr>GroupCollection = collection, GroupType = kind, GroupStatus = status,
             GroupCompleted = completed, GroupCount = int (length (filter (\<lambda>k. k = (collection, kind, status, completed)) keys))\<rparr>)
        (remdups_adj (sort keys)))"

definition moveMatches :: "StatusMove \<Rightarrow> EntryRow \<Rightarrow> bool" where
  "moveMatches move row \<longleftrightarrow> EntryCollection row = MoveCollection move \<and> EntryKind row = MoveType move
     \<and> EntryStatus row = MoveFrom move \<and> EntryCompleted row = MoveCompleted move"

definition MoveStatuses :: "EntryRow list \<Rightarrow> StatusMove \<Rightarrow> time \<Rightarrow> EntryRow list" where
  "MoveStatuses rows move now =
     map (\<lambda>row. if moveMatches move row then row\<lparr>EntryStatus := MoveTo move, EntryUpdatedAt := now, EntryVersion := EntryVersion row + 1\<rparr>
            else row) rows"

text \<open>\<^verbatim>\<open>StatusMover.Move\<close>: one statement after the other, with the number of entries they moved.\<close>

fun moveAll :: "EntryRow list \<Rightarrow> StatusMove list \<Rightarrow> time \<Rightarrow> EntryRow list \<times> nat" where
  "moveAll rows [] now = (rows, 0)"
| "moveAll rows (move # moves) now =
     (let (rows', moved) = moveAll (MoveStatuses rows move now) moves now in (rows', length (filter (moveMatches move) rows) + moved))"

definition UpdateWorkflow :: "Workflow list \<Rightarrow> Workflow \<Rightarrow> int \<Rightarrow> Workflow list result" where
  "UpdateWorkflow rows w expected =
     (if \<not> list_ex (\<lambda>row. WorkflowKey row = WorkflowKey w \<and> WorkflowVersion row = expected) rows
      then Inl (Failure (WithParams (WithDetail ErrVersionConflict ''workflows.version_conflict'')
        [(''key'', WorkflowKey w), (''expected_version'', itoa expected)]))
      else Inr (map (\<lambda>row. if WorkflowKey row = WorkflowKey w \<and> WorkflowVersion row = expected
             then row\<lparr>WorkflowNameOf := WorkflowNameOf w, Published := Published w, Draft := Draft w, PublishedAt := PublishedAt w,
                      PublishedBy := PublishedBy w, WorkflowUpdatedAt := WorkflowUpdatedAt w, WorkflowVersion := WorkflowVersion row + 1\<rparr>
             else row) rows))"

definition InsertWorkflow :: "Workflow list \<Rightarrow> Workflow \<Rightarrow> Workflow list result" where
  "InsertWorkflow rows w =
     (if list_ex (\<lambda>row. WorkflowKey row = WorkflowKey w) rows
      then Inl (Failure (WithParams (WithDetail ErrConflict ''workflows.key_taken'') [(''key'', WorkflowKey w)]))
      else Inr (rows @ [w]))"

definition storeWorkflow :: "office \<Rightarrow> Workflow \<Rightarrow> Workflow \<Rightarrow> ID \<Rightarrow> ID \<Rightarrow> (office \<times> Workflow) result" where
  "storeWorkflow off current next newID tenant =
     (if Stored current
      then rbind (UpdateWorkflow (offWorkflows off) next (WorkflowVersion current)) (\<lambda>rows.
        Inr (off\<lparr>offWorkflows := rows\<rparr>, next\<lparr>WorkflowVersion := WorkflowVersion current + 1\<rparr>))
      else
        let next = next\<lparr>WorkflowID := newID, WorkflowTenantID := tenant, WorkflowCreatedAt := WorkflowUpdatedAt next, WorkflowVersion := 1\<rparr>
        in rbind (InsertWorkflow (offWorkflows off) next) (\<lambda>rows. Inr (off\<lparr>offWorkflows := rows\<rparr>, next)))"

definition SetScheme :: "WorkflowScheme list \<Rightarrow> WorkflowScheme \<Rightarrow> WorkflowScheme list" where
  "SetScheme schemes scheme =
     (let here = (\<lambda>row. SchemeContainer row = SchemeContainer scheme \<and> SchemeType row = SchemeType scheme) in
      if list_ex here schemes then map (\<lambda>row. if here row then row\<lparr>SchemeWorkflow := SchemeWorkflow scheme\<rparr> else row) schemes
      else schemes @ [scheme])"

definition RemoveScheme :: "WorkflowScheme list \<Rightarrow> ID \<Rightarrow> string \<Rightarrow> WorkflowScheme list" where
  "RemoveScheme schemes container entryType =
     filter (\<lambda>row. \<not> (SchemeContainer row = container \<and> SchemeType row = entryType)) schemes"

section \<open>Planning the moves\<close>

definition collectionsUnder :: "Container list \<Rightarrow> Container \<Rightarrow> Container list" where
  "collectionsUnder containers container =
     (if ContType container = ContainerCollection then [container]
      else filter (\<lambda>c. ContParentID c = ContID container \<and> ContDeletedAt c = None \<and> ContType c = ContainerCollection) containers)"

text \<open>The hub of a collection, as the map the plan builds answers it: the last collection of an identifier wins.\<close>

definition hubOf :: "Container list \<Rightarrow> ID \<Rightarrow> ID" where
  "hubOf collections i = (case find (\<lambda>c. ContID c = i) (rev collections) of None \<Rightarrow> '''' | Some c \<Rightarrow> ContParentID c)"

definition shapeIn :: "WorkflowScheme list \<Rightarrow> Workflow list \<Rightarrow> (ID \<Rightarrow> ID) \<Rightarrow> ID \<Rightarrow> string \<Rightarrow> WorkflowShape option" where
  "shapeIn schemes set' hub collection entryType =
     (case ResolveWorkflow schemes collection (hub collection) entryType of
        None \<Rightarrow> None | Some key \<Rightarrow> map_option Published (FindWorkflow set' key))"

fun planGroups :: "(StatusGroup \<Rightarrow> WorkflowShape option) \<Rightarrow> (StatusGroup \<Rightarrow> WorkflowShape option) \<Rightarrow> (string \<rightharpoonup> string) \<Rightarrow> StatusGroup list
    \<Rightarrow> (StatusMove list \<times> StatusGroup list) result" where
  "planGroups was will mapping [] = Inr ([], [])"
| "planGroups was will mapping (g # groups) =
     (if was g = None \<and> will g = None then planGroups was will mapping groups
      else rbind (PlanStatusMoves [g] (will g) mapping) (\<lambda>planned.
           rbind (planGroups was will mapping groups) (\<lambda>(moves, reached). Inr (planned @ moves, g # reached))))"

definition planMoves :: "office \<Rightarrow> Container list \<Rightarrow> WorkflowScheme list \<Rightarrow> WorkflowScheme list \<Rightarrow> Workflow list \<Rightarrow> Workflow list
    \<Rightarrow> (string \<rightharpoonup> string) \<Rightarrow> (StatusMove list \<times> StatusGroup list) result" where
  "planMoves off collections schemesBefore schemesAfter before after mapping =
     planGroups (\<lambda>g. shapeIn schemesBefore before (hubOf collections) (GroupCollection g) (GroupType g))
       (\<lambda>g. shapeIn schemesAfter after (hubOf collections) (GroupCollection g) (GroupType g)) mapping
       (StatusGroups (offEntries off) (map ContID collections))"

text \<open>\<^verbatim>\<open>WorkflowGate.Settle\<close>: where no workflow runs before or after, an entry still loses its status.\<close>

fun settleGroups :: "(StatusGroup \<Rightarrow> WorkflowShape option) \<Rightarrow> StatusGroup list \<Rightarrow> StatusMove list result" where
  "settleGroups will [] = Inr []"
| "settleGroups will (g # groups) =
     rbind (PlanStatusMoves [g] (will g) Map.empty) (\<lambda>planned. rbind (settleGroups will groups) (\<lambda>moves. Inr (planned @ moves)))"

definition Settle :: "office \<Rightarrow> Container \<Rightarrow> StatusMove list result" where
  "Settle off collection =
     settleGroups (\<lambda>g. shapeIn (offSchemes off) (NewWorkflows (offWorkflows off)) (\<lambda>_. ContParentID collection) (ContID collection) (GroupType g))
       (StatusGroups (offEntries off) [ContID collection])"

section \<open>Publishing\<close>

fun addCollections :: "Container list \<Rightarrow> Container list \<Rightarrow> Container list" where
  "addCollections seen [] = seen"
| "addCollections seen (c # cs) = addCollections (if ContID c \<in> ContID ` set seen then seen else seen @ [c]) cs"

fun reachedCollections :: "office \<Rightarrow> string \<Rightarrow> Container list \<Rightarrow> WorkflowScheme list \<Rightarrow> Container list result" where
  "reachedCollections off key seen [] = Inr seen"
| "reachedCollections off key seen (scheme # schemes) =
     (if SchemeWorkflow scheme \<noteq> key then reachedCollections off key seen schemes
      else case find (\<lambda>c. ContID c = SchemeContainer scheme) (offContainers off) of
             None \<Rightarrow> Inl (Failure ErrNotFound)
           | Some container \<Rightarrow> reachedCollections off key (addCollections seen (collectionsUnder (offContainers off) container)) schemes)"

definition reachedBy :: "StatusGroup list \<Rightarrow> WorkflowScheme list \<Rightarrow> string \<Rightarrow> Container list \<Rightarrow> StatusGroup list" where
  "reachedBy groups schemes key collections =
     filter (\<lambda>g. ResolveWorkflow schemes (GroupCollection g) (hubOf collections (GroupCollection g)) (GroupType g) = Some key) groups"

record publishing =
  pubCurrent :: Workflow
  pubNext :: Workflow
  pubMoves :: "StatusMove list"
  pubGroups :: "StatusGroup list"
  pubRemoved :: "string \<rightharpoonup> int"

definition workflowNotFound :: failure where
  "workflowNotFound = Failure (WithDetail ErrNotFound ''workflows.not_found'')"

definition publishPlan :: "office \<Rightarrow> string \<Rightarrow> (string \<rightharpoonup> string) \<Rightarrow> WorkflowShape option \<Rightarrow> time \<Rightarrow> normalizer \<Rightarrow> publishing result" where
  "publishPlan off key mapping shape now form =
     (let set' = NewWorkflows (offWorkflows off) in
      case FindWorkflow set' key of
        None \<Rightarrow> Inl workflowNotFound
      | Some current \<Rightarrow>
          rbind (case shape of None \<Rightarrow> Inr current | Some s \<Rightarrow> WithDraft current s now form) (\<lambda>drafted.
          rbind (Publish drafted '''' now) (\<lambda>next'.
          rbind (reachedCollections off key [] (offSchemes off)) (\<lambda>collections.
          let after = map (\<lambda>w. if WorkflowKey w = key then next' else w) set' in
          rbind (planMoves off collections (offSchemes off) (offSchemes off) set' after mapping) (\<lambda>(moves, reached).
            let mine = reachedBy reached (offSchemes off) key collections in
            Inr \<lparr>pubCurrent = current, pubNext = next', pubMoves = moves, pubGroups = mine,
                 pubRemoved = RemovedStatuses (Published current) (Published next') mine\<rparr>)))))"

definition mappingRequired :: "string \<Rightarrow> int \<Rightarrow> failure" where
  "mappingRequired status count = workflowInvalid (''/mapping/'' @ status) ''workflows.mapping_required'' [(''status'', status), (''count'', itoa count)]"

text \<open>
  The loop over the removed statuses, which stops at the first without a target; Go ranges over the map in no fixed
  order, the model in the order of the groups.
\<close>

definition unmapped :: "publishing \<Rightarrow> (string \<rightharpoonup> string) \<Rightarrow> (string \<times> int) option" where
  "unmapped plan mapping =
     (case find (\<lambda>g. pubRemoved plan (GroupStatus g) \<noteq> None \<and> (mapping (GroupStatus g) = None \<or> mapping (GroupStatus g) = Some '''')) (pubGroups plan) of
        None \<Rightarrow> None | Some g \<Rightarrow> Some (GroupStatus g, the (pubRemoved plan (GroupStatus g))))"

definition publishWorkflow :: "office \<Rightarrow> string \<Rightarrow> (string \<rightharpoonup> string) \<Rightarrow> int \<Rightarrow> ID \<Rightarrow> ID \<Rightarrow> ID \<Rightarrow> time \<Rightarrow> normalizer
    \<Rightarrow> (office \<times> Workflow \<times> nat) result" where
  "publishWorkflow off key mapping expectedVersion actor newID tenant now form =
     rbind (publishPlan off key mapping None now form) (\<lambda>plan.
       if expectedVersion \<noteq> 0 \<and> expectedVersion \<noteq> WorkflowVersion (pubCurrent plan)
       then Inl (Failure (WithDetail ErrVersionConflict ''workflows.version_conflict''))
       else case unmapped plan mapping of
              Some (status, count) \<Rightarrow> Inl (mappingRequired status count)
            | None \<Rightarrow>
                rbind (storeWorkflow off (pubCurrent plan) ((pubNext plan)\<lparr>PublishedBy := actor, PublishedAt := Some now, WorkflowUpdatedAt := now\<rparr>)
                         newID tenant) (\<lambda>(off', published).
                  let (rows, moved) = moveAll (offEntries off') (pubMoves plan) now
                  in Inr (off'\<lparr>offEntries := rows\<rparr>, published, moved)))"

section \<open>Choosing a workflow\<close>

record SchemeChange =
  ChangeContainer :: ID
  ChangeType :: string
  ChangeWorkflow :: string

definition hubOfContainer :: "Container \<Rightarrow> ID" where
  "hubOfContainer c = (if ContType c = ContainerHub then ContID c else ContParentID c)"

definition schemePlan :: "office \<Rightarrow> SchemeChange \<Rightarrow> StatusMove list result" where
  "schemePlan off change =
     (case find (\<lambda>c. ContID c = ChangeContainer change) (offContainers off) of
        None \<Rightarrow> Inl (Failure ErrNotFound)
      | Some container \<Rightarrow>
          let set' = NewWorkflows (offWorkflows off); before = offSchemes off;
              kept = filter (\<lambda>s. SchemeContainer s \<noteq> ChangeContainer change \<or> SchemeType s \<noteq> ChangeType change) before;
              after = (if ChangeWorkflow change \<noteq> '''' then kept @ [\<lparr>SchemeContainer = ChangeContainer change, SchemeType = ChangeType change,
                         SchemeWorkflow = ChangeWorkflow change\<rparr>] else kept)
          in guarded (if ChangeWorkflow change = '''' then None
                      else case FindWorkflow set' (ChangeWorkflow change) of
                             None \<Rightarrow> Some workflowNotFound
                           | Some chosen \<Rightarrow>
                               if \<not> UsableIn chosen (hubOfContainer container)
                               then Some (Failure (WithFields (WithDetail ErrConflict ''workflows.hub_bound'') [field_error ''/workflow'' ''workflows.hub_bound'']))
                               else None)
               (rbind (planMoves off (collectionsUnder (offContainers off) container) before after set' set' Map.empty) (\<lambda>(moves, _). Inr moves)))"

text \<open>
  What a choice stores: the row of the scheme, and the shipped workflow when it is chosen for the first time.  The code
  stores it over the zero value of a workflow, of which \<open>storeWorkflow\<close> reads only that it has no identifier; a key
  without a workflow has been refused by the plan.
\<close>

definition storeScheme :: "office \<Rightarrow> SchemeChange \<Rightarrow> ID \<Rightarrow> ID \<Rightarrow> time \<Rightarrow> office result" where
  "storeScheme off change newID tenant now =
     (if ChangeWorkflow change = ''''
      then Inr (off\<lparr>offSchemes := RemoveScheme (offSchemes off) (ChangeContainer change) (ChangeType change)\<rparr>)
      else
        rbind (case FindWorkflow (NewWorkflows (offWorkflows off)) (ChangeWorkflow change) of
                 Some used \<Rightarrow> if Stored used then Inr off
                   else rbind (storeWorkflow off SystemWorkflow (used\<lparr>WorkflowUpdatedAt := now\<rparr>) newID tenant) (\<lambda>(off', _). Inr off')
               | None \<Rightarrow> Inr off) (\<lambda>off'.
          Inr (off'\<lparr>offSchemes := SetScheme (offSchemes off') \<lparr>SchemeContainer = ChangeContainer change, SchemeType = ChangeType change,
            SchemeWorkflow = ChangeWorkflow change\<rparr>\<rparr>)))"

definition setWorkflowScheme :: "office \<Rightarrow> SchemeChange \<Rightarrow> bool \<Rightarrow> ID \<Rightarrow> ID \<Rightarrow> time \<Rightarrow> (office \<times> nat) result" where
  "setWorkflowScheme off change confirmed newID tenant now =
     (if \<not> confirmed
      then Inl (Failure (WithFields (WithDetail ErrValidation ''workflows.confirmation_required'')
        [field_error ''/confirm'' ''workflows.confirmation_required'']))
      else
        rbind (schemePlan off change) (\<lambda>moves.
        rbind (storeScheme off change newID tenant now) (\<lambda>off'.
          let (rows, moved) = moveAll (offEntries off') moves now in Inr (off'\<lparr>offEntries := rows\<rparr>, moved))))"

end
