(* ===== verification/Workflow_Laws.thy ===== *)
theory Workflow_Laws
  imports Workflow_Moves
begin

text \<open>
  What a checked shape guarantees, where an entry enters it, and what moving the entries of a publish or of a change of
  scheme leaves: every entry where its workflow stands, none completed or reopened.
\<close>

section \<open>Checked shapes\<close>

definition known :: "WorkflowShape \<Rightarrow> string \<Rightarrow> bool" where
  "known s key \<longleftrightarrow> key \<in> StatusKey ` set (Statuses s)"

definition status_ok :: "WorkflowStatus \<Rightarrow> bool" where
  "status_ok status \<longleftrightarrow> workflowKeyPattern (StatusKey status) \<and> Category_Valid (StatusCat status) \<and> IsLabelToken (StatusColor status)"

definition level_ok :: "ApprovalLevel \<Rightarrow> bool" where
  "level_ok l \<longleftrightarrow> (LevelPeople l \<noteq> [] \<or> LevelGroups l \<noteq> [] \<or> LevelRoles l \<noteq> [] \<or> LevelPersonFields l \<noteq> [])
     \<and> (Counted l \<longrightarrow> LevelRoles l = []) \<and> (LevelRule l = ApprovalNOf \<longrightarrow> 1 \<le> LevelCount l)
     \<and> LevelRule l \<in> {ApprovalAny, ApprovalAll, ApprovalMajority, ApprovalNOf}"

definition approval_ok :: "WorkflowShape \<Rightarrow> StepApproval \<Rightarrow> bool" where
  "approval_ok s a \<longleftrightarrow> ApprovalLevels a \<noteq> [] \<and> list_all level_ok (ApprovalLevels a) \<and> (ApprovalDeclineTo a = '''' \<or> known s (ApprovalDeclineTo a))"

definition step_ok :: "WorkflowShape \<Rightarrow> WorkflowStep \<Rightarrow> bool" where
  "step_ok s step \<longleftrightarrow> workflowKeyPattern (StepKey step) \<and> known s (StepTo step) \<and> (\<forall>key \<in> set (StepFrom step). known s key \<and> key \<noteq> StepTo step)
     \<and> distinct (StepFrom step) \<and> (case StepApprovalOf step of None \<Rightarrow> True | Some a \<Rightarrow> approval_ok s a)"

definition statuses_ok :: "WorkflowShape \<Rightarrow> bool" where
  "statuses_ok s \<longleftrightarrow> distinct (map StatusKey (Statuses s)) \<and> list_all status_ok (Statuses s)"

definition shape_ok :: "WorkflowShape \<Rightarrow> bool" where
  "shape_ok s \<longleftrightarrow> statuses_ok s \<and> Completes s (FirstDone s) \<and> known s (Initial s) \<and> \<not> Completes s (Initial s)
     \<and> distinct (map StepKey (Steps s)) \<and> list_all (step_ok s) (Steps s)"

lemma find_SomeD: "find P xs = Some x \<Longrightarrow> x \<in> set xs \<and> P x"
  by (auto simp: find_Some_iff)

lemma ShapeStatus_None: "ShapeStatus s key = None \<longleftrightarrow> \<not> known s key"
  by (auto simp: ShapeStatus_def known_def find_None_iff)

lemma ShapeStatus_Some: "ShapeStatus s key = Some status \<Longrightarrow> status \<in> set (Statuses s) \<and> StatusKey status = key"
  by (auto simp: ShapeStatus_def find_Some_iff)

lemma known_Some: "known s key \<longleftrightarrow> (\<exists>status. ShapeStatus s key = Some status)"
  using ShapeStatus_None [of s key] by (cases "ShapeStatus s key") auto

lemma Completes_known: "Completes s key \<Longrightarrow> known s key"
  by (auto simp: Completes_def known_Some split: option.splits)

lemma atFormPath_Inr [simp]: "atFormPath r path = Inr x \<longleftrightarrow> r = Inr x"
  by (auto simp: atFormPath_def split: sum.splits failure.splits)

lemma newStatus_ok:
  assumes "newStatus system form at out status = Inr checked"
  shows "status_ok checked \<and> \<not> known out (StatusKey checked) \<and> StatusCat checked = StatusCat status"
  using assms by (auto simp: newStatus_def status_ok_def Let_def go_result ShapeStatus_None split: if_splits)

lemma newStatuses_ok:
  assumes "newStatuses system form i out rest = Inr out'" "statuses_ok out"
  shows "statuses_ok out' \<and> Steps out' = Steps out"
  using assms
proof (induction rest arbitrary: i out)
  case (Cons status rest)
  obtain checked where checked: "newStatus system form (pathAt ''/statuses/'' i) out status = Inr checked"
    and rest: "newStatuses system form (Suc i) (out\<lparr>Statuses := Statuses out @ [checked]\<rparr>) rest = Inr out'"
    using Cons.prems(1) by (auto simp: go_result)
  have "statuses_ok (out\<lparr>Statuses := Statuses out @ [checked]\<rparr>)"
    using Cons.prems(2) newStatus_ok [OF checked] by (auto simp: statuses_ok_def known_def)
  then show ?case using Cons.IH [OF rest] by simp
qed simp

lemma FirstDone_completes:
  assumes "statuses_ok s" "FirstDone s \<noteq> ''''"
  shows "Completes s (FirstDone s)"
proof -
  obtain status where status: "find (\<lambda>status. Category_Completes (StatusCat status)) (Statuses s) = Some status"
    using assms(2) by (auto simp: FirstDone_def split: option.splits)
  then have done': "status \<in> set (Statuses s)" "Category_Completes (StatusCat status)" by (auto simp: find_Some_iff)
  then obtain other where other: "ShapeStatus s (StatusKey status) = Some other" using known_Some [of s "StatusKey status"] by (auto simp: known_def)
  have "other = status" using ShapeStatus_Some [OF other] done'(1) assms(1) by (auto simp: statuses_ok_def distinct_map inj_on_def)
  then show ?thesis using status other done'(2) by (simp add: FirstDone_def Completes_def)
qed

section \<open>Checked steps\<close>

lemma addNew_set [simp]: "set (addNew xs x) = insert x (set xs)"
  by (auto simp: addNew_def)

lemma addNew_distinct [simp]: "distinct (addNew xs x) = distinct xs"
  by (auto simp: addNew_def)

lemma checkEach_Inr:
  "checkEach check keep kept xs = Inr out \<Longrightarrow> distinct kept \<Longrightarrow>
   distinct out \<and> set out = set kept \<union> {x \<in> set xs. keep x} \<and> (\<forall>x \<in> set xs. check x = None)"
  by (induction xs arbitrary: kept) (auto simp: go_result split: if_splits)

lemma newStepWho_Inr:
  "newStepWho who at = Inr out \<Longrightarrow> (WhoRoles out = [] \<longleftrightarrow> WhoRoles who = [])"
  using checkEach_Inr [of "checkRole at" "\<lambda>_. True" "[]" "WhoRoles who"]
  by (auto simp: newStepWho_def go_result Let_def split: if_splits)

lemma newApprovalLevel_ok: "newApprovalLevel level at = Inr out \<Longrightarrow> level_ok out"
  by (auto simp: newApprovalLevel_def level_ok_def Let_def go_result Counted_def split: if_splits)

lemma indexed_map_all:
  "indexed_map i f xs = Inr ys \<Longrightarrow> (\<And>i x y. f i x = Inr y \<Longrightarrow> P y) \<Longrightarrow> length ys = length xs \<and> list_all P ys"
  by (induction xs arbitrary: i ys) (auto simp: go_result)

lemma newStepApproval_ok:
  assumes "newStepApproval approval shape at = Inr out"
  shows "approval_ok shape out"
proof -
  obtain levels where levels: "indexed_map 0 (\<lambda>i level. newApprovalLevel level (pathAt (at @ ''/levels/'') i)) (ApprovalLevels approval) = Inr levels"
    "out = approval\<lparr>ApprovalLevels := levels\<rparr>" "ApprovalLevels approval \<noteq> []" "ApprovalDeclineTo approval = '''' \<or> known shape (ApprovalDeclineTo approval)"
    using assms by (auto simp: newStepApproval_def statusKnown_def ShapeStatus_None go_result split: if_splits)
  have "length levels = length (ApprovalLevels approval) \<and> list_all level_ok levels"
    by (rule indexed_map_all [OF levels(1)]) (rule newApprovalLevel_ok)
  then show ?thesis using levels by (auto simp: approval_ok_def)
qed

lemma newWorkflowStep_ok:
  assumes "newWorkflowStep step shape form at = Inr out"
  shows "step_ok shape out \<and> ShapeStep shape (StepKey out) = None"
proof -
  obtain sources approval where parts: "workflowKeyPattern (StepKey out)" "ShapeStep shape (StepKey out) = None" "known shape (StepTo step)"
    "checkEach (statusKnown shape (at @ ''/from'')) (\<lambda>k. k \<noteq> StepTo step) [] (StepFrom step) = Inr sources"
    "StepTo out = StepTo step" "StepFrom out = sources" "StepApprovalOf out = approval"
    "(case StepApprovalOf step of None \<Rightarrow> Inr None
       | Some approval \<Rightarrow> rbind (newStepApproval approval shape (at @ ''/approval'')) (\<lambda>a. Inr (Some a))) = Inr approval"
    using assms by (auto simp: newWorkflowStep_def statusKnown_def ShapeStatus_None Let_def go_result split: if_splits)
  have "distinct sources \<and> (\<forall>key \<in> set sources. known shape key \<and> key \<noteq> StepTo step)"
    using checkEach_Inr [OF parts(4)] by (auto simp: statusKnown_def ShapeStatus_None split: if_splits)
  moreover have "approval_ok shape a" if "approval = Some a" for a
    using parts(8) that newStepApproval_ok by (auto simp: go_result split: option.splits)
  ultimately show ?thesis using parts by (simp add: step_ok_def split: option.split)
qed

lemma step_ok_statuses:
  assumes "Statuses s = Statuses s'"
  shows "step_ok s = step_ok s'"
proof -
  have "known s = known s'" using assms by (intro ext) (simp add: known_def)
  moreover from this have "approval_ok s = approval_ok s'" by (intro ext) (simp add: approval_ok_def)
  ultimately show ?thesis by (intro ext) (simp add: step_ok_def split: option.split)
qed

lemma newSteps_ok:
  assumes "newSteps form i out rest = Inr out'" "distinct (map StepKey (Steps out))" "list_all (step_ok out) (Steps out)"
  shows "distinct (map StepKey (Steps out')) \<and> list_all (step_ok out') (Steps out') \<and> Statuses out' = Statuses out \<and> Initial out' = Initial out"
  using assms
proof (induction rest arbitrary: i out)
  case (Cons step rest)
  obtain checked where checked: "newWorkflowStep step out form (pathAt ''/steps/'' i) = Inr checked"
    and rest: "newSteps form (Suc i) (out\<lparr>Steps := Steps out @ [checked]\<rparr>) rest = Inr out'"
    using Cons.prems(1) by (auto simp: go_result)
  have "StepKey checked \<notin> StepKey ` set (Steps out)" using newWorkflowStep_ok [OF checked] by (auto simp: ShapeStep_def find_None_iff)
  moreover have "step_ok (out\<lparr>Steps := Steps out @ [checked]\<rparr>) = step_ok out" by (rule step_ok_statuses) simp
  ultimately show ?case using Cons.IH [OF rest] Cons.prems(2,3) newWorkflowStep_ok [OF checked] by simp
qed simp

lemma NewWorkflowShape_shape_ok:
  assumes "NewWorkflowShape inp system form = Inr out"
  shows "shape_ok out"
proof -
  obtain base where base: "newStatuses system form 0 \<lparr>Statuses = [], Initial = '''', Steps = []\<rparr> (Statuses inp) = Inr base"
    "FirstDone base \<noteq> ''''" "case ShapeStatus base (initialOf base (Initial inp)) of None \<Rightarrow> False | Some start \<Rightarrow> \<not> Category_Completes (StatusCat start)"
    "newSteps form 0 (base\<lparr>Initial := initialOf base (Initial inp)\<rparr>) (Steps inp) = Inr out"
    using assms by (auto simp: NewWorkflowShape_def go_result Let_def split: if_splits option.splits)
  let ?started = "base\<lparr>Initial := initialOf base (Initial inp)\<rparr>"
  have ok: "statuses_ok base" "Steps base = []" using newStatuses_ok [OF base(1)] by (simp_all add: statuses_ok_def)
  have steps: "distinct (map StepKey (Steps out))" "list_all (step_ok out) (Steps out)" "Statuses out = Statuses base"
      "Initial out = initialOf base (Initial inp)"
    using newSteps_ok [OF base(4)] ok(2) by simp_all
  have same: "known out = known base" "Completes out = Completes base" "FirstDone out = FirstDone base" "statuses_ok out = statuses_ok base"
    using steps(3) by (auto simp: known_def Completes_def ShapeStatus_def FirstDone_def statuses_ok_def fun_eq_iff)
  have "known base (initialOf base (Initial inp)) \<and> \<not> Completes base (initialOf base (Initial inp))"
    using base(3) by (auto simp: known_Some Completes_def split: option.splits)
  then show ?thesis using same steps ok(1) FirstDone_completes [OF ok(1) base(2)] by (simp add: shape_ok_def)
qed

section \<open>Entering a shape\<close>

text \<open>An entry stands in a shape, or in none, without contradicting its completion.\<close>

definition settled :: "WorkflowShape option \<Rightarrow> string \<Rightarrow> bool \<Rightarrow> bool" where
  "settled shape status completed =
     (case shape of None \<Rightarrow> status = '''' | Some s \<Rightarrow> known s status \<and> Completes s status = completed)"

lemma Entering_settled: "shape_ok s \<Longrightarrow> settled (Some s) (Entering s status completed) completed"
  using Completes_known [of s]
  by (auto simp: shape_ok_def settled_def Entering_def known_Some Completes_def split: option.splits if_splits)

lemma Entering_keeps: "settled (Some s) status completed \<Longrightarrow> Entering s status completed = status"
  by (auto simp: settled_def Entering_def known_Some Completes_def split: option.splits)

lemma targetOf_settled:
  assumes "targetOf shape mapping g = Inr to" "\<And>s. shape = Some s \<Longrightarrow> shape_ok s"
  shows "settled shape to (GroupCompleted g)"
proof (cases shape)
  case (Some s)
  have ok: "shape_ok s" using assms(2) Some by simp
  have "to = Entering s (GroupStatus g) (GroupCompleted g) \<or> (\<exists>status. ShapeStatus s to = Some status \<and> Category_Completes (StatusCat status) = GroupCompleted g)"
    using assms(1) by (auto simp: Some targetOf_def Let_def split: option.splits if_splits)
  then show ?thesis
  proof
    assume "to = Entering s (GroupStatus g) (GroupCompleted g)"
    then show ?thesis using Entering_settled [OF ok] by (simp add: Some)
  qed (auto simp: Some settled_def known_Some Completes_def)
qed (use assms(1) in \<open>simp add: targetOf_def settled_def\<close>)

lemma targetOf_keeps: "settled shape (GroupStatus g) (GroupCompleted g) \<Longrightarrow> targetOf shape mapping g = Inr (GroupStatus g)"
proof (cases shape)
  case (Some s)
  assume settled: "settled shape (GroupStatus g) (GroupCompleted g)"
  have "known s (GroupStatus g)" using settled by (simp add: Some settled_def)
  moreover have "Entering s (GroupStatus g) (GroupCompleted g) = GroupStatus g" using settled unfolding Some by (rule Entering_keeps)
  ultimately show ?thesis by (simp add: Some targetOf_def Let_def ShapeStatus_None)
qed (simp add: targetOf_def settled_def)

section \<open>Moves that do not meet\<close>

definition moved_by :: "StatusMove \<Rightarrow> time \<Rightarrow> EntryRow \<Rightarrow> EntryRow" where
  "moved_by move now row = row\<lparr>EntryStatus := MoveTo move, EntryUpdatedAt := now, EntryVersion := EntryVersion row + 1\<rparr>"

definition apply_moves :: "StatusMove list \<Rightarrow> time \<Rightarrow> EntryRow \<Rightarrow> EntryRow" where
  "apply_moves moves now row = (case find (\<lambda>m. moveMatches m row) moves of None \<Rightarrow> row | Some m \<Rightarrow> moved_by m now row)"

definition apart :: "StatusMove list \<Rightarrow> bool" where
  "apart moves \<longleftrightarrow> (\<forall>m \<in> set moves. \<forall>m' \<in> set moves. MoveCollection m = MoveCollection m' \<and> MoveType m = MoveType m'
     \<and> MoveCompleted m = MoveCompleted m' \<longrightarrow> MoveTo m \<noteq> MoveFrom m')"

text \<open>One statement after the other does what all of them at once would: no entry is moved twice.\<close>

lemma moveAll_apply: "apart moves \<Longrightarrow> fst (moveAll rows moves now) = map (apply_moves moves now) rows"
proof (induction moves arbitrary: rows)
  case (Cons m moves)
  have apart: "apart moves" using Cons.prems by (simp add: apart_def)
  have once: "apply_moves moves now (if moveMatches m row then moved_by m now row else row) = apply_moves (m # moves) now row" for row
  proof (cases "moveMatches m row")
    case True
    have "\<not> moveMatches m' (moved_by m now row)" if "m' \<in> set moves" for m'
      using Cons.prems that True by (auto simp: apart_def moveMatches_def moved_by_def)
    then have "find (\<lambda>m'. moveMatches m' (moved_by m now row)) moves = None" by (auto simp: find_None_iff)
    then show ?thesis using True by (simp add: apply_moves_def)
  qed (simp add: apply_moves_def)
  have "MoveStatuses rows m now = map (\<lambda>row. if moveMatches m row then moved_by m now row else row) rows"
    by (simp add: MoveStatuses_def moved_by_def)
  then show ?case using Cons.IH [OF apart] once by (simp add: Let_def case_prod_beta comp_def)
qed (simp add: apply_moves_def map_idI)

section \<open>Planned moves\<close>

definition group_of :: "EntryRow \<Rightarrow> StatusGroup" where
  "group_of row = \<lparr>GroupCollection = EntryCollection row, GroupType = EntryKind row, GroupStatus = EntryStatus row,
     GroupCompleted = EntryCompleted row, GroupCount = 0\<rparr>"

definition same_group :: "StatusGroup \<Rightarrow> StatusGroup \<Rightarrow> bool" where
  "same_group g h \<longleftrightarrow> GroupCollection g = GroupCollection h \<and> GroupType g = GroupType h \<and> GroupStatus g = GroupStatus h
     \<and> GroupCompleted g = GroupCompleted h"

definition move_of :: "StatusGroup \<Rightarrow> string \<Rightarrow> StatusMove" where
  "move_of g to = \<lparr>MoveCollection = GroupCollection g, MoveType = GroupType g, MoveFrom = GroupStatus g, MoveCompleted = GroupCompleted g,
     MoveTo = to, MoveCount = GroupCount g\<rparr>"

lemma targetOf_same: "same_group g h \<Longrightarrow> targetOf shape mapping g = targetOf shape mapping h"
  by (simp only: targetOf_def same_group_def)

lemma moveMatches_group: "moveMatches (move_of g to) row \<longleftrightarrow> same_group g (group_of row)"
  by (auto simp: moveMatches_def move_of_def same_group_def group_of_def)

text \<open>What a plan holds: a move for every group it reaches that does not stand where it belongs, and nothing else.\<close>

definition planned_for :: "(StatusGroup \<Rightarrow> bool) \<Rightarrow> (StatusGroup \<Rightarrow> WorkflowShape option) \<Rightarrow> (string \<rightharpoonup> string) \<Rightarrow> StatusGroup list \<Rightarrow> StatusMove list \<Rightarrow> bool" where
  "planned_for reaches will mapping groups moves \<longleftrightarrow>
     (\<forall>m \<in> set moves. \<exists>g \<in> set groups. \<exists>to. reaches g \<and> targetOf (will g) mapping g = Inr to \<and> to \<noteq> GroupStatus g \<and> m = move_of g to)
     \<and> (\<forall>g \<in> set groups. reaches g \<longrightarrow> (\<exists>to. targetOf (will g) mapping g = Inr to \<and> (to \<noteq> GroupStatus g \<longrightarrow> move_of g to \<in> set moves)))"

lemma planned_forD:
  "planned_for reaches will mapping groups moves \<Longrightarrow> m \<in> set moves \<Longrightarrow>
   \<exists>g to. g \<in> set groups \<and> reaches g \<and> targetOf (will g) mapping g = Inr to \<and> to \<noteq> GroupStatus g \<and> m = move_of g to"
  "planned_for reaches will mapping groups moves \<Longrightarrow> g \<in> set groups \<Longrightarrow> reaches g \<Longrightarrow>
   \<exists>to. targetOf (will g) mapping g = Inr to \<and> (to \<noteq> GroupStatus g \<longrightarrow> move_of g to \<in> set moves)"
  unfolding planned_for_def by blast+

lemma PlanStatusMoves_one:
  "PlanStatusMoves [g] shape mapping = Inr moves \<longleftrightarrow>
     (\<exists>to. targetOf shape mapping g = Inr to \<and> moves = (if to = GroupStatus g then [] else [move_of g to]))"
  by (auto simp: go_result move_of_def)

lemma planGroups_planned:
  "planGroups was will mapping groups = Inr (moves, reached) \<Longrightarrow>
   planned_for (\<lambda>g. was g \<noteq> None \<or> will g \<noteq> None) will mapping groups moves \<and> reached = filter (\<lambda>g. was g \<noteq> None \<or> will g \<noteq> None) groups"
proof (induction groups arbitrary: moves reached)
  case (Cons g groups)
  show ?case
  proof (cases "was g = None \<and> will g = None")
    case True
    then show ?thesis using Cons by (auto simp: planned_for_def)
  next
    case False
    then obtain to moves' reached' where step: "targetOf (will g) mapping g = Inr to" "planGroups was will mapping groups = Inr (moves', reached')"
      "moves = (if to = GroupStatus g then [] else [move_of g to]) @ moves'" "reached = g # reached'"
      using Cons.prems by (auto simp del: PlanStatusMoves.simps simp: PlanStatusMoves_one go_result split: if_splits)
    show ?thesis using Cons.IH [OF step(2)] step False by (auto simp: planned_for_def)
  qed
qed (simp add: planned_for_def)

lemma settleGroups_planned: "settleGroups will groups = Inr moves \<Longrightarrow> planned_for (\<lambda>_. True) will Map.empty groups moves"
proof (induction groups arbitrary: moves)
  case (Cons g groups)
  then obtain to moves' where step: "targetOf (will g) Map.empty g = Inr to" "settleGroups will groups = Inr moves'"
      "moves = (if to = GroupStatus g then [] else [move_of g to]) @ moves'"
    by (auto simp del: PlanStatusMoves.simps simp: PlanStatusMoves_one go_result)
  show ?case using Cons.IH [OF step(2)] step by (auto simp: planned_for_def)
qed (simp add: planned_for_def)

section \<open>Where the entries stand afterwards\<close>

lemma planned_apart:
  assumes "planned_for reaches will mapping groups moves" "\<And>g s. will g = Some s \<Longrightarrow> shape_ok s"
    and "\<And>g h. GroupCollection g = GroupCollection h \<Longrightarrow> GroupType g = GroupType h \<Longrightarrow> will g = will h"
  shows "apart moves"
  unfolding apart_def
proof (intro ballI impI, elim conjE)
  fix m m' assume m: "m \<in> set moves" "m' \<in> set moves" and same: "MoveCollection m = MoveCollection m'" "MoveType m = MoveType m'" "MoveCompleted m = MoveCompleted m'"
  obtain g to where g: "targetOf (will g) mapping g = Inr to" "m = move_of g to" using planned_forD(1) [OF assms(1) m(1)] by blast
  obtain g' to' where g': "targetOf (will g') mapping g' = Inr to'" "to' \<noteq> GroupStatus g'" "m' = move_of g' to'"
    using planned_forD(1) [OF assms(1) m(2)] by blast
  have "will g = will g'" by (rule assms(3)) (use same g(2) g'(3) in \<open>simp_all add: move_of_def\<close>)
  then have "settled (will g') to (GroupCompleted g')"
    using targetOf_settled [OF g(1) assms(2)] same(3) g(2) g'(3) by (simp add: move_of_def)
  then show "MoveTo m \<noteq> MoveFrom m'" using targetOf_keeps [of "will g'" g' mapping] g g' by (auto simp: move_of_def)
qed

lemma StatusGroups_rows:
  "row \<in> set rows \<Longrightarrow> EntryCollection row \<in> set ids \<Longrightarrow> \<exists>g \<in> set (StatusGroups rows ids). same_group g (group_of row)"
  by (force simp: StatusGroups_def Let_def groupKey_def same_group_def group_of_def)

lemma StatusGroups_collection: "g \<in> set (StatusGroups rows ids) \<Longrightarrow> GroupCollection g \<in> set ids"
  by (auto simp: StatusGroups_def Let_def groupKey_def)

text \<open>An entry the plan reaches goes where its group does, one it does not reach stays.\<close>

lemma planned_row:
  assumes plan: "planned_for reaches will mapping (StatusGroups rows ids) moves" and row: "row \<in> set rows"
    and reach: "\<And>g h. same_group g h \<Longrightarrow> reaches g = reaches h \<and> will g = will h"
  shows "if EntryCollection row \<in> set ids \<and> reaches (group_of row)
    then \<exists>to. targetOf (will (group_of row)) mapping (group_of row) = Inr to
      \<and> apply_moves moves now row = (if to = EntryStatus row then row else moved_by (move_of (group_of row) to) now row)
    else apply_moves moves now row = row"
proof -
  have found: "\<exists>g to. m = move_of g to \<and> same_group g (group_of row) \<and> EntryCollection row \<in> set ids \<and> reaches (group_of row)
      \<and> targetOf (will (group_of row)) mapping (group_of row) = Inr to \<and> to \<noteq> EntryStatus row"
    if some: "find (\<lambda>m. moveMatches m row) moves = Some m" for m
  proof -
    have m: "m \<in> set moves" "moveMatches m row" using some by (auto simp: find_Some_iff)
    then obtain g to where g: "g \<in> set (StatusGroups rows ids)" "reaches g" "targetOf (will g) mapping g = Inr to" "to \<noteq> GroupStatus g" "m = move_of g to"
      using planned_forD(1) [OF plan m(1)] by blast
    have same: "same_group g (group_of row)" using m(2) g(5) moveMatches_group by simp
    then show ?thesis using reach [OF same] g targetOf_same [OF same] StatusGroups_collection [OF g(1)]
      by (intro exI [of _ g] exI [of _ to]) (auto simp: same_group_def group_of_def)
  qed
  show ?thesis
  proof (cases "EntryCollection row \<in> set ids \<and> reaches (group_of row)")
    case True
    obtain g where g: "g \<in> set (StatusGroups rows ids)" "same_group g (group_of row)" using StatusGroups_rows [OF row] True by blast
    then obtain to where to: "targetOf (will g) mapping g = Inr to" "to \<noteq> GroupStatus g \<longrightarrow> move_of g to \<in> set moves"
      using planned_forD(2) [OF plan g(1)] reach [OF g(2)] True by blast
    have target: "targetOf (will (group_of row)) mapping (group_of row) = Inr to" "GroupStatus g = EntryStatus row"
      using to(1) reach [OF g(2)] targetOf_same [OF g(2)] g(2) by (auto simp: same_group_def group_of_def)
    show ?thesis
    proof (cases "find (\<lambda>m. moveMatches m row) moves")
      case None
      then have "to = EntryStatus row" using to(2) target(2) g(2) moveMatches_group [of g to row] by (auto simp: find_None_iff)
      then show ?thesis using True target None by (simp add: apply_moves_def)
    next
      case (Some m)
      then show ?thesis using found [OF Some] True target by (auto simp: apply_moves_def moved_by_def move_of_def)
    qed
  next
    case False
    then show ?thesis using found by (cases "find (\<lambda>m. moveMatches m row) moves") (auto simp: apply_moves_def)
  qed
qed

end
