(* ===== verification/Workflow_Properties.thy ===== *)
theory Workflow_Properties
  imports Workflow_Laws Workspace_Example
begin

text \<open>
  A checked shape is one that entries can live in, and publishing a draft leaves every entry it governs in a status of it
  that agrees with the entry's completion.
\<close>

section \<open>A state that the checks keep\<close>

definition office_ok :: "office \<Rightarrow> bool" where
  "office_ok off \<longleftrightarrow> distinct (map ContID (offContainers off))
     \<and> (\<forall>c \<in> set (offContainers off). \<forall>parent \<in> set (offContainers off). ContParentID c = ContID parent \<longrightarrow> ContType parent = ContainerHub)
     \<and> (\<forall>w \<in> set (offWorkflows off). shape_ok (Published w) \<and> (\<forall>draft. Draft w = Some draft \<longrightarrow> shape_ok draft))"

lemma find_container:
  assumes "office_ok off" "c \<in> set (offContainers off)"
  shows "find (\<lambda>c'. ContID c' = ContID c) (offContainers off) = Some c"
proof (cases "find (\<lambda>c'. ContID c' = ContID c) (offContainers off)")
  case (Some c')
  then have "c' \<in> set (offContainers off)" "ContID c' = ContID c" by (auto simp: find_Some_iff)
  then have "c' = c" using assms by (auto simp: office_ok_def distinct_map inj_on_def)
  then show ?thesis using Some by simp
qed (use assms(2) in \<open>auto simp: find_None_iff\<close>)

lemma SystemWorkflow_ok: "shape_ok (Published SystemWorkflow)" "Draft SystemWorkflow = None" "WorkflowKey SystemWorkflow = SystemWorkflowKey"
  by (code_simp, simp_all add: SystemWorkflow_def)

lemma NewWorkflows_in:
  assumes "w \<in> set (NewWorkflows rows)"
  shows "w = SystemWorkflow \<or> (\<exists>row \<in> set rows. Published w = Published row \<and> Draft w = Draft row)"
proof -
  let ?own = "filter (\<lambda>row. WorkflowKey row = SystemWorkflowKey) rows"
  consider "w \<in> set rows" | "w = SystemWorkflow" | "?own \<noteq> []" "w = (last ?own)\<lparr>System := True\<rparr>"
    using assms by (auto simp: NewWorkflows_def Let_def split: if_splits)
  then show ?thesis
  proof cases
    case 3
    have "last ?own \<in> set rows" using last_in_set [OF 3(1)] by auto
    then show ?thesis using 3(2) by (auto intro!: bexI [of _ "last ?own"])
  qed auto
qed

lemma NewWorkflows_ok:
  assumes "office_ok off" "w \<in> set (NewWorkflows (offWorkflows off))"
  shows "shape_ok (Published w)" "Draft w = Some draft \<Longrightarrow> shape_ok draft"
  using NewWorkflows_in [OF assms(2)] assms(1) SystemWorkflow_ok by (auto simp: office_ok_def)

lemma FindWorkflow_Some: "FindWorkflow ws key = Some w \<Longrightarrow> w \<in> set ws \<and> WorkflowKey w = key"
  by (auto simp: FindWorkflow_def find_Some_iff)

section \<open>The collections a workflow reaches\<close>

lemma addCollections_set:
  "ContID ` set (addCollections seen cs) = ContID ` set seen \<union> ContID ` set cs"
  "set (addCollections seen cs) \<subseteq> set seen \<union> set cs"
  by (induction seen cs rule: addCollections.induct) auto

lemma reachedCollections_all:
  assumes "reachedCollections off key seen schemes = Inr out"
  shows "ContID ` set seen \<subseteq> ContID ` set out
    \<and> (\<forall>scheme \<in> set schemes. SchemeWorkflow scheme = key \<longrightarrow> (\<exists>container. find (\<lambda>c. ContID c = SchemeContainer scheme) (offContainers off) = Some container
        \<and> ContID ` set (collectionsUnder (offContainers off) container) \<subseteq> ContID ` set out))"
  using assms
proof (induction off key seen schemes rule: reachedCollections.induct)
  case (2 off key seen scheme schemes)
  show ?case
  proof (cases "SchemeWorkflow scheme = key")
    case True
    then obtain container where "find (\<lambda>c. ContID c = SchemeContainer scheme) (offContainers off) = Some container"
      using 2(3) by (auto split: option.splits)
    then show ?thesis using 2 True addCollections_set(1) [of seen "collectionsUnder (offContainers off) container"] by auto
  qed (use 2 in auto)
qed simp

lemma collectionsUnder_in: "container \<in> set containers \<Longrightarrow> set (collectionsUnder containers container) \<subseteq> set containers"
  by (auto simp: collectionsUnder_def)

lemma reachedCollections_in:
  "reachedCollections off key seen schemes = Inr out \<Longrightarrow> set seen \<subseteq> set (offContainers off) \<Longrightarrow> set out \<subseteq> set (offContainers off)"
proof (induction off key seen schemes rule: reachedCollections.induct)
  case (2 off key seen scheme schemes)
  show ?case
  proof (cases "SchemeWorkflow scheme = key")
    case True
    then obtain container where container: "find (\<lambda>c. ContID c = SchemeContainer scheme) (offContainers off) = Some container"
      using 2(3) by (auto split: option.splits)
    then have "container \<in> set (offContainers off)" by (auto simp: find_Some_iff)
    then have "set (addCollections seen (collectionsUnder (offContainers off) container)) \<subseteq> set (offContainers off)"
      using addCollections_set(2) [of seen "collectionsUnder (offContainers off) container"] collectionsUnder_in 2(4) by blast
    then show ?thesis using 2(2) [OF _ container] 2(3) True container by simp
  qed (use 2 in auto)
qed simp

lemma hubOf_in:
  assumes "office_ok off" "set targets \<subseteq> set (offContainers off)" "c \<in> set (offContainers off)" "ContID c \<in> ContID ` set targets"
  shows "hubOf targets (ContID c) = ContParentID c"
proof -
  have unique: "c' = c" if "c' \<in> set targets" "ContID c' = ContID c" for c'
    using assms(1-3) that by (auto simp: office_ok_def distinct_map inj_on_def)
  obtain c' where "c' \<in> set targets" "ContID c' = ContID c" using assms(4) by auto
  then obtain found where found: "find (\<lambda>c'. ContID c' = ContID c) (rev targets) = Some found"
    by (cases "find (\<lambda>c'. ContID c' = ContID c) (rev targets)") (auto simp: find_None_iff)
  then show ?thesis using find_SomeD [OF found] unique [of found] by (simp add: hubOf_def)
qed

lemma schemeRow_Some: "schemeRow schemes container wanted = Some key \<Longrightarrow> \<exists>scheme \<in> set schemes. SchemeContainer scheme = container \<and> SchemeWorkflow scheme = key"
  by (auto simp: schemeRow_def dest: find_SomeD)

lemma ResolveWorkflow_Some:
  "ResolveWorkflow schemes collection hub entryType = Some key \<Longrightarrow>
   \<exists>scheme \<in> set schemes. SchemeWorkflow scheme = key \<and> (SchemeContainer scheme = collection \<or> SchemeContainer scheme = hub)"
  using schemeRow_Some by (fastforce simp: ResolveWorkflow_def schemeAt_def split: option.splits if_splits)

text \<open>Every collection in use that runs a workflow for a type is among those its publication reaches.\<close>

lemma reached_in_force:
  assumes "office_ok off" "reachedCollections off key [] (offSchemes off) = Inr targets"
    and c: "c \<in> set (offContainers off)" "ContType c = ContainerCollection" "ContDeletedAt c = None"
    and "ResolveWorkflow (offSchemes off) (ContID c) (ContParentID c) entryType = Some key"
  shows "ContID c \<in> ContID ` set targets"
proof -
  obtain scheme where scheme: "scheme \<in> set (offSchemes off)" "SchemeWorkflow scheme = key"
    "SchemeContainer scheme = ContID c \<or> SchemeContainer scheme = ContParentID c"
    using ResolveWorkflow_Some [OF assms(6)] by blast
  obtain container where container: "find (\<lambda>c. ContID c = SchemeContainer scheme) (offContainers off) = Some container"
    "ContID ` set (collectionsUnder (offContainers off) container) \<subseteq> ContID ` set targets"
    using reachedCollections_all [OF assms(2)] scheme(1,2) by blast
  have there: "container \<in> set (offContainers off)" "ContID container = SchemeContainer scheme" using container(1) by (auto simp: find_Some_iff)
  have "c \<in> set (collectionsUnder (offContainers off) container)"
  proof (cases "SchemeContainer scheme = ContID c")
    case True
    then have "container = c" using container(1) find_container [OF assms(1) c(1)] by simp
    then show ?thesis using c(2) by (simp add: collectionsUnder_def)
  next
    case False
    then have "ContType container = ContainerHub" using assms(1) c(1) there scheme(3) by (auto simp: office_ok_def)
    then show ?thesis using c there scheme(3) False by (simp add: collectionsUnder_def)
  qed
  then show ?thesis using container(2) by blast
qed

section \<open>Shapes that entries can live in\<close>

lemma newStatuses_cats:
  "newStatuses system form i out rest = Inr out' \<Longrightarrow> map StatusCat (Statuses out') = map StatusCat (Statuses out) @ map StatusCat rest"
proof (induction rest arbitrary: i out)
  case (Cons status rest)
  obtain checked where checked: "newStatus system form (pathAt ''/statuses/'' i) out status = Inr checked"
    and rest: "newStatuses system form (Suc i) (out\<lparr>Statuses := Statuses out @ [checked]\<rparr>) rest = Inr out'"
    using Cons.prems by (auto simp: go_result)
  show ?case using Cons.IH [OF rest] newStatus_ok [OF checked] by simp
qed simp

lemma newSteps_targets:
  "newSteps form i out rest = Inr out' \<Longrightarrow> Statuses out' = Statuses out \<and> map StepTo (Steps out') = map StepTo (Steps out) @ map StepTo rest"
proof (induction rest arbitrary: i out)
  case (Cons step rest)
  obtain checked where checked: "newWorkflowStep step out form (pathAt ''/steps/'' i) = Inr checked"
    and rest: "newSteps form (Suc i) (out\<lparr>Steps := Steps out @ [checked]\<rparr>) rest = Inr out'"
    using Cons.prems by (auto simp: go_result)
  have "StepTo checked = StepTo step" using checked by (auto simp: newWorkflowStep_def Let_def go_result split: if_splits)
  then show ?case using Cons.IH [OF rest] by simp
qed simp

text \<open>A step that may be taken from every status is of use too: a checked shape has a status that completes and one that does not.\<close>

lemma step_leaves:
  assumes "shape_ok s" "step_ok s step"
  shows "\<exists>status. known s status \<and> LeavesFrom step status"
proof (cases "StepFrom step")
  case Nil
  have "Initial s \<noteq> FirstDone s" "known s (Initial s)" "known s (FirstDone s)" using assms(1) Completes_known by (auto simp: shape_ok_def)
  then show ?thesis using Nil by (metis LeavesFrom_def)
next
  case (Cons key keys)
  then show ?thesis using assms(2) by (intro exI [of _ key]) (simp add: step_ok_def LeavesFrom_def)
qed

text \<open>
  C3.  A shape that passes the check is one entries can live in: its statuses keep their number, order and categories and
  have distinct keys, one completes an entry, the initial one does not; its steps keep their number, order and targets,
  have distinct keys, name only statuses of the shape, and each leaves some status; and an entry, whatever its status
  before, enters a status of the shape that completes exactly if the entry is completed.
\<close>

theorem NewWorkflowShape_ok:
  assumes "NewWorkflowShape inp system form = Inr out"
  shows "shape_ok out
    \<and> map StatusCat (Statuses out) = map StatusCat (Statuses inp) \<and> map StepTo (Steps out) = map StepTo (Steps inp)
    \<and> length (Statuses out) \<le> MaxWorkflowStatuses \<and> length (Steps out) \<le> MaxWorkflowSteps
    \<and> (\<forall>step \<in> set (Steps out). \<exists>status. known out status \<and> LeavesFrom step status)
    \<and> (\<forall>status completed. settled (Some out) (Entering out status completed) completed)"
proof -
  obtain base where base: "newStatuses system form 0 \<lparr>Statuses = [], Initial = '''', Steps = []\<rparr> (Statuses inp) = Inr base"
    "newSteps form 0 (base\<lparr>Initial := initialOf base (Initial inp)\<rparr>) (Steps inp) = Inr out"
    "length (Statuses inp) \<le> MaxWorkflowStatuses" "length (Steps inp) \<le> MaxWorkflowSteps"
    using assms by (auto simp: NewWorkflowShape_def go_result Let_def split: if_splits option.splits)
  have ok: "shape_ok out" by (rule NewWorkflowShape_shape_ok [OF assms])
  have "Steps base = []" using newStatuses_ok [OF base(1)] by (simp add: statuses_ok_def)
  then have cats: "map StatusCat (Statuses out) = map StatusCat (Statuses inp)" and tos: "map StepTo (Steps out) = map StepTo (Steps inp)"
    using newStatuses_cats [OF base(1)] newSteps_targets [OF base(2)] by simp_all
  have "length (Statuses out) = length (Statuses inp)" "length (Steps out) = length (Steps inp)"
    using map_eq_imp_length_eq [OF cats] map_eq_imp_length_eq [OF tos] .
  moreover have "step_ok out step" if "step \<in> set (Steps out)" for step using ok that by (simp add: shape_ok_def list_all_iff)
  ultimately show ?thesis using ok cats tos base(3,4) step_leaves [OF ok] Entering_settled [OF ok] by simp
qed

theorem NewWorkflowShape_ok_witness:
  "NewWorkflowShape (Published SystemWorkflow) True None = Inr (Published SystemWorkflow)
   \<and> settled (Some (Published SystemWorkflow)) (Entering (Published SystemWorkflow) ''review'' True) True"
proof -
  have run: "NewWorkflowShape (Published SystemWorkflow) True None = Inr (Published SystemWorkflow)" by code_simp
  show ?thesis using NewWorkflowShape_ok [OF run] run by blast
qed

section \<open>Publishing\<close>

lemma FindWorkflow_replaced:
  "WorkflowKey n = key \<Longrightarrow> FindWorkflow (map (\<lambda>w. if WorkflowKey w = key then n else w) ws) key = map_option (\<lambda>_. n) (FindWorkflow ws key)"
  by (induction ws) (auto simp: FindWorkflow_def)

lemma shapeIn_ok:
  assumes "\<And>w. w \<in> set ws \<Longrightarrow> shape_ok (Published w)" "shapeIn schemes ws hub collection entryType = Some s"
  shows "shape_ok s"
  using assms FindWorkflow_Some by (auto simp: shapeIn_def split: option.splits)

text \<open>What a plan of moves does to every entry, whichever shapes come before and after.\<close>

lemma planMoves_rows:
  assumes plan: "planMoves off targets schemesBefore schemesAfter before after mapping = Inr (moves, reached)"
    and ok: "\<And>w. w \<in> set after \<Longrightarrow> shape_ok (Published w)"
    and row: "row \<in> set (offEntries off)" "EntryCollection row \<in> ContID ` set targets"
    and will: "shapeIn schemesAfter after (hubOf targets) (EntryCollection row) (EntryKind row) = s"
    and reach: "s \<noteq> None \<or> shapeIn schemesBefore before (hubOf targets) (EntryCollection row) (EntryKind row) \<noteq> None"
  shows "\<exists>to. targetOf s mapping (group_of row) = Inr to
      \<and> apply_moves moves now row = (if to = EntryStatus row then row else moved_by (move_of (group_of row) to) now row)
      \<and> (\<exists>g \<in> set reached. same_group g (group_of row))"
proof -
  let ?was = "\<lambda>g. shapeIn schemesBefore before (hubOf targets) (GroupCollection g) (GroupType g)"
  let ?will = "\<lambda>g. shapeIn schemesAfter after (hubOf targets) (GroupCollection g) (GroupType g)"
  let ?groups = "StatusGroups (offEntries off) (map ContID targets)"
  have planned: "planned_for (\<lambda>g. ?was g \<noteq> None \<or> ?will g \<noteq> None) ?will mapping ?groups moves"
    "reached = filter (\<lambda>g. ?was g \<noteq> None \<or> ?will g \<noteq> None) ?groups"
    using planGroups_planned plan unfolding planMoves_def by blast+
  have here: "?will (group_of row) = s" "s \<noteq> None \<or> ?was (group_of row) \<noteq> None" using will reach by (simp_all add: group_of_def)
  obtain g where g: "g \<in> set ?groups" "same_group g (group_of row)" using StatusGroups_rows [OF row(1), of "map ContID targets"] row(2) by auto
  have "?will g = s" "?was g = ?was (group_of row)" using g(2) here(1) by (simp_all add: same_group_def)
  then have "g \<in> set reached" using planned(2) g(1) here(2) by auto
  have cond: "EntryCollection row \<in> set (map ContID targets) \<and> (?was (group_of row) \<noteq> None \<or> ?will (group_of row) \<noteq> None)"
    using row(2) here by auto
  have same: "(?was g \<noteq> None \<or> ?will g \<noteq> None) = (?was h \<noteq> None \<or> ?will h \<noteq> None) \<and> ?will g = ?will h" if "same_group g h" for g h
    using that by (simp add: same_group_def)
  have "\<exists>to. targetOf (?will (group_of row)) mapping (group_of row) = Inr to
      \<and> apply_moves moves now row = (if to = EntryStatus row then row else moved_by (move_of (group_of row) to) now row)"
    using planned_row [OF planned(1) row(1) same, of now] unfolding if_P [OF cond] .
  then show ?thesis using \<open>g \<in> set reached\<close> g(2) by (simp only: here(1)) blast
qed

lemma planMoves_apart:
  assumes plan: "planMoves off targets schemesBefore schemesAfter before after mapping = Inr (moves, reached)"
    and ok: "\<And>w. w \<in> set after \<Longrightarrow> shape_ok (Published w)"
  shows "fst (moveAll rows moves now) = map (apply_moves moves now) rows"
proof (rule moveAll_apply)
  show "apart moves"
  proof (rule planned_apart)
    show "planned_for (\<lambda>g. shapeIn schemesBefore before (hubOf targets) (GroupCollection g) (GroupType g) \<noteq> None
        \<or> shapeIn schemesAfter after (hubOf targets) (GroupCollection g) (GroupType g) \<noteq> None)
      (\<lambda>g. shapeIn schemesAfter after (hubOf targets) (GroupCollection g) (GroupType g)) mapping
      (StatusGroups (offEntries off) (map ContID targets)) moves"
      using planGroups_planned plan unfolding planMoves_def by blast
  qed (use shapeIn_ok [OF ok] in auto)
qed

lemma RemovedStatuses_some:
  assumes "g \<in> set groups" "known before (GroupStatus g)" "\<not> known after (GroupStatus g)"
  shows "RemovedStatuses before after groups (GroupStatus g) \<noteq> None"
proof -
  have grows: "foldl (removedStep before after) out gs k \<noteq> None" if "out k \<noteq> None" for out gs k
    using that by (induction gs arbitrary: out) (auto simp: removedStep_def)
  obtain xs ys where "groups = xs @ g # ys" using assms(1) by (metis split_list)
  moreover have "removedStep before after out g (GroupStatus g) \<noteq> None" for out
    using assms(2,3) by (simp add: removedStep_def ShapeStatus_None)
  ultimately show ?thesis using grows by (simp add: RemovedStatuses_def)
qed

lemma storeWorkflow_parts:
  assumes "storeWorkflow off current n newID tenant = Inr (off', stored)"
  shows "offEntries off' = offEntries off \<and> offContainers off' = offContainers off \<and> offSchemes off' = offSchemes off \<and> Published stored = Published n
    \<and> (\<forall>w \<in> set (offWorkflows off'). w \<in> set (offWorkflows off) \<or> Published w = Published n \<and> Draft w = Draft n)"
  using assms by (auto simp: storeWorkflow_def UpdateWorkflow_def InsertWorkflow_def Let_def go_result split: if_splits)

lemma publishPlan_parts:
  assumes "publishPlan off key mapping None now form = Inr plan" "office_ok off"
  obtains draft targets reached where
    "FindWorkflow (NewWorkflows (offWorkflows off)) key = Some (pubCurrent plan)" "Draft (pubCurrent plan) = Some draft" "shape_ok draft"
    "Published (pubNext plan) = draft" "Draft (pubNext plan) = None" "WorkflowKey (pubNext plan) = key"
    "reachedCollections off key [] (offSchemes off) = Inr targets"
    "planMoves off targets (offSchemes off) (offSchemes off) (NewWorkflows (offWorkflows off))
       (map (\<lambda>w. if WorkflowKey w = key then pubNext plan else w) (NewWorkflows (offWorkflows off))) mapping = Inr (pubMoves plan, reached)"
    "pubGroups plan = reachedBy reached (offSchemes off) key targets"
    "pubRemoved plan = RemovedStatuses (Published (pubCurrent plan)) draft (pubGroups plan)"
proof -
  obtain current where current: "FindWorkflow (NewWorkflows (offWorkflows off)) key = Some current"
    using assms(1) by (auto simp: publishPlan_def Let_def split: option.splits)
  obtain draft where draft: "Draft current = Some draft"
    using assms(1) current by (auto simp: publishPlan_def Publish_def Let_def go_result split: option.splits)
  have "shape_ok draft" using NewWorkflows_ok(2) [OF assms(2)] FindWorkflow_Some [OF current] draft by blast
  define n where "n = current\<lparr>Published := draft, Draft := None, PublishedAt := Some now, PublishedBy := '''', WorkflowUpdatedAt := now\<rparr>"
  have new: "Published n = draft" "Draft n = None" "WorkflowKey n = key" using FindWorkflow_Some [OF current] by (simp_all add: n_def)
  obtain targets moves reached where parts: "reachedCollections off key [] (offSchemes off) = Inr targets"
    "planMoves off targets (offSchemes off) (offSchemes off) (NewWorkflows (offWorkflows off))
       (map (\<lambda>w. if WorkflowKey w = key then n else w) (NewWorkflows (offWorkflows off))) mapping = Inr (moves, reached)"
    "plan = \<lparr>pubCurrent = current, pubNext = n, pubMoves = moves, pubGroups = reachedBy reached (offSchemes off) key targets,
       pubRemoved = RemovedStatuses (Published current) draft (reachedBy reached (offSchemes off) key targets)\<rparr>"
    using assms(1) current draft by (auto simp: publishPlan_def Publish_def Let_def go_result new simp flip: n_def)
  show thesis by (rule that [of draft targets reached]) (simp_all add: parts new current draft \<open>shape_ok draft\<close> cong: if_cong)
qed

lemma unmapped_None:
  assumes "unmapped plan mapping = None" "g \<in> set (pubGroups plan)" "pubRemoved plan (GroupStatus g) \<noteq> None"
  shows "\<exists>target. mapping (GroupStatus g) = Some target \<and> target \<noteq> ''''"
  using assms by (auto simp: unmapped_def find_None_iff split: option.splits)

lemma targetOf_mapped:
  "targetOf (Some s) mapping g = Inr to \<Longrightarrow> \<not> known s (GroupStatus g) \<Longrightarrow> mapping (GroupStatus g) = Some target \<Longrightarrow> target \<noteq> '''' \<Longrightarrow> to = target"
  by (auto simp: targetOf_def Let_def ShapeStatus_None split: option.splits if_splits)

lemma moved_row:
  assumes "apply_moves moves now row = (if to = EntryStatus row then row else moved_by (move_of g to) now row)"
  shows "EntryStatus (apply_moves moves now row) = to" "EntryItem (apply_moves moves now row) = EntryItem row"
    "EntryCollection (apply_moves moves now row) = EntryCollection row" "EntryKind (apply_moves moves now row) = EntryKind row"
    "EntryCompleted (apply_moves moves now row) = EntryCompleted row"
  using assms by (simp_all add: moved_by_def move_of_def)

definition in_force :: "office \<Rightarrow> string \<Rightarrow> EntryRow \<Rightarrow> bool" where
  "in_force off key row \<longleftrightarrow> (\<exists>c \<in> set (offContainers off). ContID c = EntryCollection row \<and> ContType c = ContainerCollection \<and> ContDeletedAt c = None
     \<and> ResolveWorkflow (offSchemes off) (ContID c) (ContParentID c) (EntryKind row) = Some key)"

text \<open>What a publication owes an entry that runs the workflow: \<open>row\<close> before it, \<open>row'\<close> after it.\<close>

definition published_row :: "WorkflowShape \<Rightarrow> WorkflowShape \<Rightarrow> (string \<rightharpoonup> string) \<Rightarrow> EntryRow \<Rightarrow> EntryRow \<Rightarrow> bool" where
  "published_row before after mapping row row' \<longleftrightarrow>
     (EntryItem row', EntryCollection row', EntryKind row', EntryCompleted row') = (EntryItem row, EntryCollection row, EntryKind row, EntryCompleted row)
     \<and> settled (Some after) (EntryStatus row') (EntryCompleted row')
     \<and> (settled (Some after) (EntryStatus row) (EntryCompleted row) \<longrightarrow> row' = row)
     \<and> (known before (EntryStatus row) \<and> \<not> known after (EntryStatus row) \<longrightarrow> mapping (EntryStatus row) = Some (EntryStatus row'))"

lemma publishPlan_row:
  assumes plan: "publishPlan off key mapping None now form = Inr plan" "unmapped plan mapping = None" and ok: "office_ok off"
    and row: "row \<in> set (offEntries off)" "in_force off key row"
  shows "published_row (Published (pubCurrent plan)) (Published (pubNext plan)) mapping row (apply_moves (pubMoves plan) at row)"
proof -
  let ?row' = "apply_moves (pubMoves plan) at row"
  obtain draft targets reached where parts:
    "FindWorkflow (NewWorkflows (offWorkflows off)) key = Some (pubCurrent plan)" "Draft (pubCurrent plan) = Some draft" "shape_ok draft"
    "Published (pubNext plan) = draft" "Draft (pubNext plan) = None" "WorkflowKey (pubNext plan) = key"
    "reachedCollections off key [] (offSchemes off) = Inr targets"
    "planMoves off targets (offSchemes off) (offSchemes off) (NewWorkflows (offWorkflows off))
       (map (\<lambda>w. if WorkflowKey w = key then pubNext plan else w) (NewWorkflows (offWorkflows off))) mapping = Inr (pubMoves plan, reached)"
    "pubGroups plan = reachedBy reached (offSchemes off) key targets"
    "pubRemoved plan = RemovedStatuses (Published (pubCurrent plan)) draft (pubGroups plan)"
    using publishPlan_parts [OF plan(1) ok] by blast
  let ?after = "map (\<lambda>w. if WorkflowKey w = key then pubNext plan else w) (NewWorkflows (offWorkflows off))"
  have after_ok: "shape_ok (Published w)" if "w \<in> set ?after" for w using that NewWorkflows_ok(1) [OF ok] parts(3,4) by auto
  obtain c where c: "c \<in> set (offContainers off)" "ContID c = EntryCollection row" "ContType c = ContainerCollection" "ContDeletedAt c = None"
    and resolved: "ResolveWorkflow (offSchemes off) (ContID c) (ContParentID c) (EntryKind row) = Some key" using row(2) by (auto simp: in_force_def)
  have in': "ContID c \<in> ContID ` set targets" by (rule reached_in_force [OF ok parts(7) c(1,3,4) resolved])
  have hub: "hubOf targets (ContID c) = ContParentID c"
    by (rule hubOf_in [OF ok _ c(1) in']) (rule reachedCollections_in [OF parts(7)], simp)
  have will: "shapeIn (offSchemes off) ?after (hubOf targets) (EntryCollection row) (EntryKind row) = Some draft"
    using resolved parts(1,4) FindWorkflow_replaced [OF parts(6)] by (simp add: shapeIn_def hub flip: c(2))
  obtain to g where to: "targetOf (Some draft) mapping (group_of row) = Inr to" "?row' = (if to = EntryStatus row then row else moved_by (move_of (group_of row) to) at row)"
    and g: "g \<in> set reached" "same_group g (group_of row)"
    using planMoves_rows [OF parts(8) after_ok row(1) in' [unfolded c(2)] will, of at] by auto
  have fields: "EntryStatus ?row' = to" "EntryItem ?row' = EntryItem row" "EntryCollection ?row' = EntryCollection row" "EntryKind ?row' = EntryKind row"
    "EntryCompleted ?row' = EntryCompleted row" using moved_row [OF to(2)] by simp_all
  have "settled (Some draft) to (EntryCompleted row)" using targetOf_settled [OF to(1)] parts(3) by (simp add: group_of_def)
  moreover have "?row' = row" if "settled (Some draft) (EntryStatus row) (EntryCompleted row)"
    using targetOf_keeps [of "Some draft" "group_of row" mapping] that to by (simp add: group_of_def)
  moreover have "mapping (EntryStatus row) = Some to" if "known (Published (pubCurrent plan)) (EntryStatus row)" "\<not> known draft (EntryStatus row)"
  proof -
    have status: "GroupStatus g = EntryStatus row" "GroupCollection g = ContID c" "GroupType g = EntryKind row" using g(2) c(2) by (simp_all add: same_group_def group_of_def)
    then have mine: "g \<in> set (pubGroups plan)" using g(1) parts(9) resolved hub by (simp add: reachedBy_def)
    have "pubRemoved plan (GroupStatus g) \<noteq> None" unfolding parts(10) by (rule RemovedStatuses_some [OF mine]) (use that status in simp_all)
    then obtain target where "mapping (EntryStatus row) = Some target" "target \<noteq> ''''" using unmapped_None [OF plan(2) mine] status by auto
    then show ?thesis using targetOf_mapped [OF to(1)] that(2) by (simp add: group_of_def)
  qed
  ultimately show ?thesis by (simp add: published_row_def fields parts(4))
qed

text \<open>
  C38.  Publishing a draft puts exactly the draft in force and keeps the state well-formed.  Every entry of a live collection
  that runs the workflow keeps its collection, type and completion and ends in a status of the published shape that
  agrees with its completion; one that already stood so is not touched; one whose status the draft removed goes where
  the publisher's mapping sends it, and a publication without such a mapping is refused.
\<close>

theorem publish_settles:
  assumes run: "publishWorkflow off key mapping expectedVersion actor newID tenant now form = Inr (off', published, moved)"
    and ok: "office_ok off" and old: "FindWorkflow (NewWorkflows (offWorkflows off)) key = Some current"
  shows "office_ok off' \<and> Draft current = Some (Published published)
    \<and> list_all2 (\<lambda>row row'. in_force off key row \<longrightarrow> published_row (Published current) (Published published) mapping row row')
        (offEntries off) (offEntries off')"
proof -
  obtain plan stored where plan: "publishPlan off key mapping None now form = Inr plan" "unmapped plan mapping = None"
    and store: "storeWorkflow off (pubCurrent plan) ((pubNext plan)\<lparr>PublishedBy := actor, PublishedAt := Some now, WorkflowUpdatedAt := now\<rparr>) newID tenant
      = Inr (stored, published)" and off': "off' = stored\<lparr>offEntries := fst (moveAll (offEntries stored) (pubMoves plan) now)\<rparr>"
    using run by (auto simp: publishWorkflow_def go_result Let_def case_prod_beta split: if_splits option.splits)
  note stored = storeWorkflow_parts [OF store]
  obtain draft targets reached where parts:
    "FindWorkflow (NewWorkflows (offWorkflows off)) key = Some (pubCurrent plan)" "Draft (pubCurrent plan) = Some draft" "shape_ok draft"
    "Published (pubNext plan) = draft" "Draft (pubNext plan) = None" "WorkflowKey (pubNext plan) = key"
    "reachedCollections off key [] (offSchemes off) = Inr targets"
    "planMoves off targets (offSchemes off) (offSchemes off) (NewWorkflows (offWorkflows off))
       (map (\<lambda>w. if WorkflowKey w = key then pubNext plan else w) (NewWorkflows (offWorkflows off))) mapping = Inr (pubMoves plan, reached)"
    "pubGroups plan = reachedBy reached (offSchemes off) key targets"
    "pubRemoved plan = RemovedStatuses (Published (pubCurrent plan)) draft (pubGroups plan)"
    using publishPlan_parts [OF plan(1) ok] by blast
  let ?after = "map (\<lambda>w. if WorkflowKey w = key then pubNext plan else w) (NewWorkflows (offWorkflows off))"
  have current: "pubCurrent plan = current" and published: "Published published = draft" using parts(1,4) old stored by simp_all
  have after_ok: "shape_ok (Published w)" if "w \<in> set ?after" for w using that NewWorkflows_ok(1) [OF ok] parts(3,4) by auto
  have rows: "offEntries off' = map (apply_moves (pubMoves plan) now) (offEntries off)"
    using planMoves_apart [OF parts(8) after_ok] stored off' by simp
  have "office_ok off'" using ok stored parts(3-5) off' unfolding office_ok_def by auto
  moreover have "published_row (Published current) draft mapping row (apply_moves (pubMoves plan) now row)" if "row \<in> set (offEntries off)" "in_force off key row" for row
    using publishPlan_row [OF plan ok that] current parts(4) by simp
  ultimately show ?thesis using parts(2) current published rows by (simp add: list_all2_map2 list_all2_same)
qed

section \<open>A hub that runs a workflow\<close>

definition plainStatus :: "string \<Rightarrow> StatusCategory \<Rightarrow> WorkflowStatus" where
  "plainStatus key category = \<lparr>StatusKey = key, StatusName = key, StatusCat = category, StatusColor = ''slate''\<rparr>"

definition reviewShape :: WorkflowShape where
  "reviewShape = \<lparr>Statuses = [plainStatus ''open'' CategoryTodo, plainStatus ''review'' CategoryInProgress, plainStatus ''closed'' CategoryDone],
     Initial = ''open'', Steps = [plainStep ''ask'' ''review'', plainStep ''close'' ''closed'']\<rparr>"

definition shortShape :: WorkflowShape where
  "shortShape = \<lparr>Statuses = [plainStatus ''open'' CategoryTodo, plainStatus ''closed'' CategoryDone], Initial = ''open'',
     Steps = [plainStep ''close'' ''closed'']\<rparr>"

definition reviewFlow :: Workflow where
  "reviewFlow = \<lparr>WorkflowID = uid (CHR ''a''), WorkflowTenantID = uid (CHR ''0''), WorkflowKey = ''flow'', System = False, WorkflowNameOf = ''Flow'',
     Published = reviewShape, Draft = Some shortShape, PublishedAt = Some 1, PublishedBy = uid (CHR ''9''), WorkflowCreatedAt = 1, WorkflowUpdatedAt = 1,
     WorkflowVersion = 3, WorkflowHubID = '''', CopiedFrom = ''''\<rparr>"

definition flowEntry :: "char \<Rightarrow> string \<Rightarrow> bool \<Rightarrow> EntryRow" where
  "flowEntry c status completed = \<lparr>EntryItem = uid c, EntryCollection = uid (CHR ''c''), EntryKind = ''TASK'', EntryStatus = status,
     EntryCompleted = completed, EntryUpdatedAt = 2, EntryVersion = 1\<rparr>"

definition flowOffice :: office where
  "flowOffice = \<lparr>offWorkflows = [reviewFlow],
     offSchemes = [\<lparr>SchemeContainer = uid (CHR ''f''), SchemeType = '''', SchemeWorkflow = ''flow''\<rparr>],
     offContainers = [(someCollection (uid (CHR ''f'')))\<lparr>ContType := ContainerHub, ContParentID := ''''\<rparr>, someCollection (uid (CHR ''c''))],
     offEntries = [flowEntry (CHR ''1'') ''open'' False, flowEntry (CHR ''2'') ''review'' False, flowEntry (CHR ''3'') ''closed'' True]\<rparr>"

lemma flow_ok: "office_ok flowOffice"
proof -
  have "shape_ok reviewShape" "shape_ok shortShape" by code_simp+
  moreover have "distinct (map ContID (offContainers flowOffice))" by code_simp
  moreover have "offWorkflows flowOffice = [reviewFlow]" "Published reviewFlow = reviewShape" "Draft reviewFlow = Some shortShape"
    by (simp_all add: flowOffice_def reviewFlow_def)
  moreover have "\<forall>c \<in> set (offContainers flowOffice). \<forall>parent \<in> set (offContainers flowOffice). ContParentID c = ContID parent \<longrightarrow> ContType parent = ContainerHub"
    by code_simp
  ultimately show ?thesis by (simp add: office_ok_def)
qed

definition publishedFlow :: Workflow where
  "publishedFlow = reviewFlow\<lparr>Published := shortShape, Draft := None, PublishedAt := Some 7, PublishedBy := uid (CHR ''8''), WorkflowUpdatedAt := 7, WorkflowVersion := 4\<rparr>"

definition publishedOffice :: office where
  "publishedOffice = flowOffice\<lparr>offWorkflows := [publishedFlow],
     offEntries := [flowEntry (CHR ''1'') ''open'' False, (flowEntry (CHR ''2'') ''open'' False)\<lparr>EntryUpdatedAt := 7, EntryVersion := 2\<rparr>,
       flowEntry (CHR ''3'') ''closed'' True]\<rparr>"

lemma flow_published:
  "publishWorkflow flowOffice ''flow'' [''review'' \<mapsto> ''open''] 3 (uid (CHR ''8'')) (uid (CHR ''6'')) (uid (CHR ''0'')) 7 None
     = Inr (publishedOffice, publishedFlow, 1)"
  by code_simp

theorem publish_settles_witness:
  "publishWorkflow flowOffice ''flow'' [''review'' \<mapsto> ''open''] 3 (uid (CHR ''8'')) (uid (CHR ''6'')) (uid (CHR ''0'')) 7 None
     = Inr (publishedOffice, publishedFlow, 1)
   \<and> office_ok publishedOffice
   \<and> published_row reviewShape shortShape [''review'' \<mapsto> ''open''] (flowEntry (CHR ''2'') ''review'' False)
       ((flowEntry (CHR ''2'') ''open'' False)\<lparr>EntryUpdatedAt := 7, EntryVersion := 2\<rparr>)"
proof -
  have current: "FindWorkflow (NewWorkflows (offWorkflows flowOffice)) ''flow'' = Some reviewFlow" by code_simp
  have "in_force flowOffice ''flow'' (flowEntry (CHR ''2'') ''review'' False)" by code_simp
  with publish_settles [OF flow_published flow_ok current] flow_published show ?thesis
    by (simp add: flowOffice_def publishedOffice_def reviewFlow_def publishedFlow_def)
qed

end
