(* ===== verification/Workflow_Choice.thy ===== *)
theory Workflow_Choice
  imports Workflow_Properties
begin

text \<open>
  Choosing the workflow of a hub or a collection: what the stored rows answer is what the plan of the moves took for
  granted, and every entry reached stands in the workflow then in force.
\<close>

section \<open>Choosing a workflow\<close>

lemma find_filter_other: "(\<And>x. P x \<Longrightarrow> Q x) \<Longrightarrow> find P (filter Q xs) = find P xs"
  by (induction xs) auto

lemma find_append: "find P (xs @ ys) = (case find P xs of Some x \<Rightarrow> Some x | None \<Rightarrow> find P ys)"
  by (induction xs) auto

lemma schemeRow_set:
  "schemeRow (SetScheme schemes scheme) container wanted =
     schemeRow (filter (\<lambda>s. SchemeContainer s \<noteq> SchemeContainer scheme \<or> SchemeType s \<noteq> SchemeType scheme) schemes @ [scheme]) container wanted"
proof (cases "container = SchemeContainer scheme \<and> wanted = SchemeType scheme")
  case True
  let ?here = "\<lambda>row. SchemeContainer row = SchemeContainer scheme \<and> SchemeType row = SchemeType scheme"
  have updated: "map_option SchemeWorkflow (find ?here (map (\<lambda>row. if ?here row then row\<lparr>SchemeWorkflow := SchemeWorkflow scheme\<rparr> else row) rows))
      = Some (SchemeWorkflow scheme)" if "list_ex ?here rows" for rows using that by (induction rows) auto
  have none: "find ?here rows = None" if "\<not> list_ex ?here rows" for rows using that by (induction rows) auto
  have gone: "find ?here (filter (\<lambda>s. SchemeContainer s \<noteq> SchemeContainer scheme \<or> SchemeType s \<noteq> SchemeType scheme) rows) = None" for rows
    by (induction rows) auto
  have "schemeRow (SetScheme schemes scheme) container wanted = Some (SchemeWorkflow scheme)"
  proof (cases "list_ex ?here schemes")
    case here: True
    show ?thesis using updated [OF here] here True by (simp only: schemeRow_def SetScheme_def Let_def if_True)
  next
    case elsewhere: False
    show ?thesis using none [OF elsewhere] elsewhere True by (simp only: schemeRow_def SetScheme_def Let_def if_False find_append) simp
  qed
  moreover have "schemeRow (filter (\<lambda>s. SchemeContainer s \<noteq> SchemeContainer scheme \<or> SchemeType s \<noteq> SchemeType scheme) schemes @ [scheme]) container wanted
      = Some (SchemeWorkflow scheme)"
    unfolding schemeRow_def find_append conjunct1 [OF True] conjunct2 [OF True] gone by simp
  ultimately show ?thesis by (rule trans [OF _ sym])
next
  case False
  let ?there = "\<lambda>row. SchemeContainer row = container \<and> SchemeType row = wanted"
  let ?here = "\<lambda>row. SchemeContainer row = SchemeContainer scheme \<and> SchemeType row = SchemeType scheme"
  have kept: "map_option SchemeWorkflow (find ?there (map (\<lambda>row. if ?here row then row\<lparr>SchemeWorkflow := SchemeWorkflow scheme\<rparr> else row) rows))
      = map_option SchemeWorkflow (find ?there rows)" for rows
    using False by (induction rows) auto
  have filtered: "find ?there (filter (\<lambda>s. SchemeContainer s \<noteq> SchemeContainer scheme \<or> SchemeType s \<noteq> SchemeType scheme) rows) = find ?there rows" for rows
    using False by (intro find_filter_other) auto
  have last: "find ?there [scheme] = None" using False by auto
  have "schemeRow (SetScheme schemes scheme) container wanted = schemeRow schemes container wanted"
  proof (cases "list_ex ?here schemes")
    case True
    show ?thesis unfolding schemeRow_def SetScheme_def Let_def if_P [OF True] by (rule kept)
  next
    case False
    show ?thesis unfolding schemeRow_def SetScheme_def Let_def if_not_P [OF False] find_append last by (simp split: option.split)
  qed
  then show ?thesis unfolding schemeRow_def find_append filtered last by (simp split: option.split)
qed

text \<open>The plan and the stored schemes answer the same workflow everywhere.\<close>

lemma shapeIn_rows:
  assumes "\<And>container wanted. schemeRow schemes container wanted = schemeRow schemes' container wanted"
    and "\<And>key. map_option Published (FindWorkflow ws key) = map_option Published (FindWorkflow ws' key)"
  shows "shapeIn schemes ws hub collection entryType = shapeIn schemes' ws' hub collection entryType"
  using assms by (simp add: shapeIn_def ResolveWorkflow_def schemeAt_def split: option.split)

lemma InForce_shapeIn:
  "map_option Published (InForce schemes rows collection (hub collection) entryType) = shapeIn schemes (NewWorkflows rows) hub collection entryType"
  by (auto simp: InForce_def shapeIn_def ResolveWorkflow_def schemeAt_def schemeRow_def split: option.splits)

lemma stored_system:
  assumes "\<not> list_ex (\<lambda>row. WorkflowKey row = SystemWorkflowKey) rows" "WorkflowKey n = SystemWorkflowKey" "Published n = Published SystemWorkflow"
  shows "map_option Published (FindWorkflow (NewWorkflows (rows @ [n])) key) = map_option Published (FindWorkflow (NewWorkflows rows) key)"
proof -
  have "filter (\<lambda>row. WorkflowKey row = SystemWorkflowKey) rows = []" using assms(1) by (auto simp: list_ex_iff filter_empty_conv)
  then show ?thesis using assms(2,3) SystemWorkflow_ok(3) by (simp add: NewWorkflows_def FindWorkflow_def)
qed

lemma unstored_system:
  assumes "FindWorkflow (NewWorkflows rows) key = Some used" "\<not> Stored used" "list_all Stored rows"
  shows "used = SystemWorkflow \<and> \<not> list_ex (\<lambda>row. WorkflowKey row = SystemWorkflowKey) rows"
proof -
  let ?own = "filter (\<lambda>row. WorkflowKey row = SystemWorkflowKey) rows"
  have "used \<notin> set rows" using assms(2,3) by (auto simp: list_all_iff)
  moreover have "last ?own \<in> set rows" if "?own \<noteq> []" using last_in_set [OF that] by auto
  ultimately show ?thesis using FindWorkflow_Some [OF assms(1)] assms(2,3)
    by (auto simp: NewWorkflows_def Let_def list_all_iff Stored_def filter_empty_conv list_ex_iff split: if_splits)
qed

lemma collectionsUnder_live:
  assumes "office_ok off" "find (\<lambda>c. ContID c = i) (offContainers off) = Some container"
    and c: "c \<in> set (offContainers off)" "ContType c = ContainerCollection" "ContDeletedAt c = None" "ContID c = i \<or> ContParentID c = i"
  shows "c \<in> set (collectionsUnder (offContainers off) container)"
proof (cases "ContID c = i")
  case True
  then show ?thesis using find_container [OF assms(1) c(1)] assms(2) c(2) by (simp add: collectionsUnder_def)
next
  case False
  have there: "container \<in> set (offContainers off)" "ContID container = i" using find_SomeD [OF assms(2)] by auto
  then have "ContType container = ContainerHub" using assms(1) c(1,4) False by (auto simp: office_ok_def)
  then show ?thesis using c there False by (simp add: collectionsUnder_def)
qed

text \<open>The schemes and workflows a change stores answer what its plan took for granted.\<close>

definition after_change :: "WorkflowScheme list \<Rightarrow> SchemeChange \<Rightarrow> WorkflowScheme list" where
  "after_change schemes change =
     (let kept = filter (\<lambda>s. SchemeContainer s \<noteq> ChangeContainer change \<or> SchemeType s \<noteq> ChangeType change) schemes in
      if ChangeWorkflow change \<noteq> '''' then kept @ [\<lparr>SchemeContainer = ChangeContainer change, SchemeType = ChangeType change,
        SchemeWorkflow = ChangeWorkflow change\<rparr>] else kept)"

lemma schemePlan_parts:
  assumes "schemePlan off change = Inr moves"
  obtains container reached where "find (\<lambda>c. ContID c = ChangeContainer change) (offContainers off) = Some container"
    "planMoves off (collectionsUnder (offContainers off) container) (offSchemes off) (after_change (offSchemes off) change)
       (NewWorkflows (offWorkflows off)) (NewWorkflows (offWorkflows off)) Map.empty = Inr (moves, reached)"
  using assms by (auto simp: schemePlan_def after_change_def Let_def go_result split: option.splits)

lemma setWorkflowScheme_parts:
  assumes "setWorkflowScheme off change confirmed newID tenant now = Inr (off', moved)" "list_all Stored (offWorkflows off)"
  obtains moves where "schemePlan off change = Inr moves" "offEntries off' = fst (moveAll (offEntries off) moves now)"
    "\<And>hub collection entryType. shapeIn (offSchemes off') (NewWorkflows (offWorkflows off')) hub collection entryType
       = shapeIn (after_change (offSchemes off) change) (NewWorkflows (offWorkflows off)) hub collection entryType"
proof -
  obtain moves stored where plan: "schemePlan off change = Inr moves" and off': "off' = stored\<lparr>offEntries := fst (moveAll (offEntries stored) moves now)\<rparr>"
    and store: "storeScheme off change newID tenant now = Inr stored"
    using assms(1) by (auto simp: setWorkflowScheme_def go_result Let_def case_prod_beta split: if_splits)
  have "offEntries stored = offEntries off \<and> shapeIn (offSchemes stored) (NewWorkflows (offWorkflows stored)) hub collection entryType
       = shapeIn (after_change (offSchemes off) change) (NewWorkflows (offWorkflows off)) hub collection entryType" for hub collection entryType
  proof (cases "ChangeWorkflow change = ''''")
    case True
    then show ?thesis using store by (auto simp: storeScheme_def after_change_def RemoveScheme_def)
  next
    case False
    let ?new = "\<lparr>SchemeContainer = ChangeContainer change, SchemeType = ChangeType change, SchemeWorkflow = ChangeWorkflow change\<rparr>"
    have rows: "schemeRow (SetScheme (offSchemes off) ?new) container wanted = schemeRow (after_change (offSchemes off) change) container wanted" for container wanted
      using False schemeRow_set [of "offSchemes off" ?new] by (simp add: after_change_def)
    consider "stored = off\<lparr>offSchemes := SetScheme (offSchemes off) ?new\<rparr>"
      | used off'' w where "FindWorkflow (NewWorkflows (offWorkflows off)) (ChangeWorkflow change) = Some used" "\<not> Stored used"
        "storeWorkflow off SystemWorkflow (used\<lparr>WorkflowUpdatedAt := now\<rparr>) newID tenant = Inr (off'', w)"
        "stored = off''\<lparr>offSchemes := SetScheme (offSchemes off'') ?new\<rparr>"
      using store False by (auto simp: storeScheme_def go_result split: option.splits if_splits)
    then show ?thesis
    proof cases
      case 1
      then show ?thesis using shapeIn_rows [OF rows] by simp
    next
      case 2
      let ?w = "SystemWorkflow\<lparr>WorkflowID := newID, WorkflowTenantID := tenant, WorkflowUpdatedAt := now, WorkflowCreatedAt := now, WorkflowVersion := 1\<rparr>"
      have system: "used = SystemWorkflow" "\<not> list_ex (\<lambda>row. WorkflowKey row = SystemWorkflowKey) (offWorkflows off)"
        using unstored_system [OF 2(1,2) assms(2)] by simp_all
      have "off'' = off\<lparr>offWorkflows := offWorkflows off @ [w]\<rparr>" "WorkflowKey w = SystemWorkflowKey" "Published w = Published SystemWorkflow"
        using 2(2,3) SystemWorkflow_ok(3) by (auto simp: system(1) storeWorkflow_def InsertWorkflow_def Let_def go_result split: if_splits)
      then show ?thesis using 2(4) shapeIn_rows [OF rows stored_system [OF system(2)]] by simp
    qed
  qed
  then show thesis using that [OF plan] off' by simp
qed

text \<open>What choosing a workflow owes an entry of a live collection \<open>c\<close>, given the workflow in force for it afterwards.\<close>

definition rehomed_row :: "Workflow option \<Rightarrow> EntryRow \<Rightarrow> EntryRow \<Rightarrow> bool" where
  "rehomed_row after row row' \<longleftrightarrow>
     (EntryItem row', EntryCollection row', EntryKind row', EntryCompleted row') = (EntryItem row, EntryCollection row, EntryKind row, EntryCompleted row)
     \<and> settled (map_option Published after) (EntryStatus row') (EntryCompleted row')
     \<and> (settled (map_option Published after) (EntryStatus row) (EntryCompleted row) \<longrightarrow> row' = row)"

definition chosen_for :: "office \<Rightarrow> SchemeChange \<Rightarrow> Container \<Rightarrow> EntryRow \<Rightarrow> bool" where
  "chosen_for off change c row \<longleftrightarrow> c \<in> set (offContainers off) \<and> ContID c = EntryCollection row \<and> ContType c = ContainerCollection
     \<and> ContDeletedAt c = None \<and> (ContID c = ChangeContainer change \<or> ContParentID c = ChangeContainer change)"

definition workflowFor :: "office \<Rightarrow> Container \<Rightarrow> EntryRow \<Rightarrow> Workflow option" where
  "workflowFor off c row = InForce (offSchemes off) (offWorkflows off) (ContID c) (ContParentID c) (EntryKind row)"

text \<open>
  C40.  Choosing a workflow for a hub or a collection, or giving one up, leaves every entry of the live collections it reaches
  in a status of the workflow then in force for its type, one that agrees with the entry's completion, or without a status
  where a workflow ran and none does any more; the entry keeps its collection, type and completion, and is not touched where
  it already stood so.
\<close>

theorem scheme_settles:
  assumes run: "setWorkflowScheme off change confirmed newID tenant now = Inr (off', moved)"
    and ok: "office_ok off" and rows: "list_all Stored (offWorkflows off)"
  shows "list_all2 (\<lambda>row row'. \<forall>c. chosen_for off change c row \<and> (workflowFor off c row \<noteq> None \<or> workflowFor off' c row \<noteq> None)
      \<longrightarrow> rehomed_row (workflowFor off' c row) row row') (offEntries off) (offEntries off')"
proof -
  obtain moves where plan: "schemePlan off change = Inr moves" and entries: "offEntries off' = fst (moveAll (offEntries off) moves now)"
    and shapes: "\<And>hub collection entryType. shapeIn (offSchemes off') (NewWorkflows (offWorkflows off')) hub collection entryType
       = shapeIn (after_change (offSchemes off) change) (NewWorkflows (offWorkflows off)) hub collection entryType"
    using setWorkflowScheme_parts [OF run rows] by blast
  obtain container reached where container: "find (\<lambda>c. ContID c = ChangeContainer change) (offContainers off) = Some container"
    and moves: "planMoves off (collectionsUnder (offContainers off) container) (offSchemes off) (after_change (offSchemes off) change)
       (NewWorkflows (offWorkflows off)) (NewWorkflows (offWorkflows off)) Map.empty = Inr (moves, reached)"
    using schemePlan_parts [OF plan] by blast
  let ?targets = "collectionsUnder (offContainers off) container"
  have in': "set ?targets \<subseteq> set (offContainers off)" using collectionsUnder_in find_SomeD [OF container] by blast
  note shape_ok = NewWorkflows_ok(1) [OF ok]
  have moved: "offEntries off' = map (apply_moves moves now) (offEntries off)" using planMoves_apart [OF moves shape_ok] entries by simp
  have "rehomed_row (workflowFor off' c row) row (apply_moves moves now row)"
    if row: "row \<in> set (offEntries off)" and c: "chosen_for off change c row" and force': "workflowFor off c row \<noteq> None \<or> workflowFor off' c row \<noteq> None" for c row
  proof -
    have member: "c \<in> set ?targets" using collectionsUnder_live [OF ok container] c unfolding chosen_for_def by blast
    then have "ContID c \<in> ContID ` set ?targets" by simp
    moreover have "c \<in> set (offContainers off)" using c by (simp add: chosen_for_def)
    ultimately have hub: "hubOf ?targets (ContID c) = ContParentID c" using hubOf_in [OF ok in'] by blast
    have at: "EntryCollection row = ContID c" using c by (simp add: chosen_for_def)
    have before: "map_option Published (workflowFor off c row) = shapeIn (offSchemes off) (NewWorkflows (offWorkflows off)) (hubOf ?targets) (EntryCollection row) (EntryKind row)"
      and after: "map_option Published (workflowFor off' c row)
        = shapeIn (after_change (offSchemes off) change) (NewWorkflows (offWorkflows off)) (hubOf ?targets) (EntryCollection row) (EntryKind row)"
      using InForce_shapeIn [where hub = "hubOf ?targets" and collection = "ContID c"] by (simp_all add: workflowFor_def hub at shapes)
    have reach: "map_option Published (workflowFor off' c row) \<noteq> None
        \<or> shapeIn (offSchemes off) (NewWorkflows (offWorkflows off)) (hubOf ?targets) (EntryCollection row) (EntryKind row) \<noteq> None"
      using force' by (auto simp flip: before)
    obtain to where to: "targetOf (map_option Published (workflowFor off' c row)) Map.empty (group_of row) = Inr to"
      "apply_moves moves now row = (if to = EntryStatus row then row else moved_by (move_of (group_of row) to) now row)"
      using planMoves_rows [OF moves shape_ok row _ after [symmetric] reach, of now] member at by auto
    have "settled (map_option Published (workflowFor off' c row)) to (EntryCompleted row)"
      using targetOf_settled [OF to(1)] shapeIn_ok [OF shape_ok] after by (simp add: group_of_def)
    moreover have "to = EntryStatus row" if "settled (map_option Published (workflowFor off' c row)) (EntryStatus row) (EntryCompleted row)"
      using targetOf_keeps [of "map_option Published (workflowFor off' c row)" "group_of row" Map.empty] that to by (simp add: group_of_def)
    ultimately show ?thesis using moved_row [OF to(2)] to(2) by (auto simp: rehomed_row_def)
  qed
  then show ?thesis using moved by (simp add: list_all2_map2 list_all2_same)
qed

text \<open>The collection of the example takes the shipped workflow in place of the hub's, which stores it.\<close>

definition shippedChoice :: SchemeChange where
  "shippedChoice = \<lparr>ChangeContainer = uid (CHR ''c''), ChangeType = '''', ChangeWorkflow = SystemWorkflowKey\<rparr>"

definition storedSystem :: Workflow where
  "storedSystem = SystemWorkflow\<lparr>WorkflowID := uid (CHR ''6''), WorkflowTenantID := uid (CHR ''0''), WorkflowUpdatedAt := 7, WorkflowCreatedAt := 7, WorkflowVersion := 1\<rparr>"

definition chosenOffice :: office where
  "chosenOffice = flowOffice\<lparr>offWorkflows := [reviewFlow, storedSystem],
     offSchemes := offSchemes flowOffice @ [\<lparr>SchemeContainer = uid (CHR ''c''), SchemeType = '''', SchemeWorkflow = SystemWorkflowKey\<rparr>],
     offEntries := map (\<lambda>row. row\<lparr>EntryUpdatedAt := 7, EntryVersion := 2\<rparr>)
       [flowEntry (CHR ''1'') ''todo'' False, flowEntry (CHR ''2'') ''todo'' False, flowEntry (CHR ''3'') ''done'' True]\<rparr>"

lemma shipped_chosen: "setWorkflowScheme flowOffice shippedChoice True (uid (CHR ''6'')) (uid (CHR ''0'')) 7 = Inr (chosenOffice, 3)"
  by code_simp

theorem scheme_settles_witness:
  "setWorkflowScheme flowOffice shippedChoice True (uid (CHR ''6'')) (uid (CHR ''0'')) 7 = Inr (chosenOffice, 3)
   \<and> rehomed_row (workflowFor chosenOffice (someCollection (uid (CHR ''c''))) (flowEntry (CHR ''3'') ''closed'' True))
       (flowEntry (CHR ''3'') ''closed'' True) ((flowEntry (CHR ''3'') ''done'' True)\<lparr>EntryUpdatedAt := 7, EntryVersion := 2\<rparr>)"
proof -
  let ?c = "someCollection (uid (CHR ''c''))" and ?row = "flowEntry (CHR ''3'') ''closed'' True"
  have "chosen_for flowOffice shippedChoice ?c ?row" by code_simp
  moreover have "workflowFor chosenOffice ?c ?row = Some (storedSystem\<lparr>System := True\<rparr>)" by code_simp
  moreover have "list_all Stored (offWorkflows flowOffice)" by code_simp
  note all = scheme_settles [OF shipped_chosen flow_ok this]
  moreover have "offEntries flowOffice ! 2 = ?row" "2 < length (offEntries flowOffice)"
    "offEntries chosenOffice ! 2 = (flowEntry (CHR ''3'') ''done'' True)\<lparr>EntryUpdatedAt := 7, EntryVersion := 2\<rparr>" by code_simp+
  note at = list_all2_nthD [OF all this(2), unfolded this(1,3)]
  ultimately show ?thesis using shipped_chosen by auto
qed

end
