(* ===== verification/Approval.thy ===== *)
theory Approval
  imports Workflow Assignment "HOL-Library.Product_Lexorder" "HOL-Library.List_Lexorder" "HOL-Library.Char_ord"
begin

text \<open>
  Approvals of a step: \<^verbatim>\<open>core/domain/model/servicedesk/Approval.go\<close>, the use cases of
  \<^verbatim>\<open>core/application/service/servicedesk/Approvals.go\<close> and \<^verbatim>\<open>Delegation.go\<close>, and the statements of
  \<^verbatim>\<open>postgres/ServiceDeskApprovalRepository.go\<close>.  A state, a verdict and a rule are strings, as in the code.  Reading an
  entry, the members of a group, the roles a person holds and taking a step are ports of the model.  Timers, messages,
  audit and the lists of approvals are not modelled.
\<close>

section \<open>Approvals and decisions\<close>

type_synonym ApprovalState = string
type_synonym Verdict = string

abbreviation "ApprovalPending \<equiv> ''PENDING''"
abbreviation "ApprovalApproved \<equiv> ''APPROVED''"
abbreviation "ApprovalDeclined \<equiv> ''DECLINED''"
abbreviation "ApprovalWithdrawn \<equiv> ''WITHDRAWN''"
abbreviation "VerdictApprove \<equiv> ''APPROVE''"
abbreviation "VerdictDecline \<equiv> ''DECLINE''"

definition MaxApprovalReason :: nat where "MaxApprovalReason = 2000"

record OpenLevel =
  OpenRule :: ApprovalLevel
  CountedPeople :: "ID list"

record Approval =
  ApID :: ID
  ApTenant :: ID
  ApItem :: ID
  ApWorkflow :: string
  ApStep :: string
  ApItemVersion :: int
  ApLevels :: "OpenLevel list"
  ApDeclineTo :: string
  ApDueHours :: int
  ApCurrent :: nat
  ApState :: ApprovalState
  ApRequestedBy :: ID
  ApRequestedAt :: time
  ApLevelSince :: time
  ApDecidedAt :: "time option"
  ApVersion :: int

record Decision =
  DeID :: ID
  DeTenant :: ID
  DeApproval :: ID
  DeLevel :: nat
  DeApprover :: ID
  DeOnBehalfOf :: ID
  DeVerdict :: Verdict
  DeReason :: string
  DeItemVersion :: int
  DeAt :: time

definition hour :: int where "hour = 3600 * 1000000000"

text \<open>The zero time is no time here.\<close>

definition DueAt :: "Approval \<Rightarrow> time option" where
  "DueAt a = (if ApDueHours a = 0 \<or> ApState a \<noteq> ApprovalPending then None else Some (ApLevelSince a + ApDueHours a * hour))"

definition distinctIDs :: "ID list \<Rightarrow> ID list" where
  "distinctIDs ids = foldl (\<lambda>out i. if \<not> IsZero i then addNew out i else out) [] ids"

definition tooFewApprovers :: "nat \<Rightarrow> failure" where
  "tooFewApprovers i = Failure (WithParams (WithDetail ErrConflict ''approvals.too_few_approvers'') [(''level'', itoa (int i + 1))])"

definition openLevel :: "nat \<Rightarrow> ApprovalLevel \<times> ID list \<Rightarrow> OpenLevel result" where
  "openLevel i lc =
     (let (level, counted) = lc; people = distinctIDs counted in
      if Counted level \<and> people = [] \<or> LevelRule level = ApprovalNOf \<and> LevelRoles level = [] \<and> int (length people) < LevelCount level
      then Inl (tooFewApprovers i)
      else Inr \<lparr>OpenRule = level, CountedPeople = people\<rparr>)"

definition stepWithoutApproval :: failure where
  "stepWithoutApproval = Failure (WithDetail ErrConflict ''approvals.step_without_approval'')"

definition NewApproval :: "ID \<Rightarrow> WorkItem \<Rightarrow> string \<Rightarrow> WorkflowStep \<Rightarrow> ID list list \<Rightarrow> ID \<Rightarrow> time \<Rightarrow> Approval result" where
  "NewApproval i item workflow step counted requestedBy now =
     (case StepApprovalOf step of
        None \<Rightarrow> Inl stepWithoutApproval
      | Some approval \<Rightarrow>
          if length counted \<noteq> length (ApprovalLevels approval) then Inl stepWithoutApproval
          else rbind (indexed_map 0 openLevel (zip (ApprovalLevels approval) counted)) (\<lambda>levels.
            Inr \<lparr>ApID = i, ApTenant = TenantID item, ApItem = ItemID item, ApWorkflow = workflow, ApStep = StepKey step,
                 ApItemVersion = Version item, ApLevels = levels, ApDeclineTo = ApprovalDeclineTo approval,
                 ApDueHours = ApprovalDueHours approval, ApCurrent = 0, ApState = ApprovalPending, ApRequestedBy = requestedBy,
                 ApRequestedAt = now, ApLevelSince = now, ApDecidedAt = None, ApVersion = 1\<rparr>))"

record Eligibility =
  Direct :: bool
  OnBehalfOf :: ID

definition notEligible :: Eligibility where "notEligible = \<lparr>Direct = False, OnBehalfOf = ''''\<rparr>"

definition mayDecide :: "Eligibility \<Rightarrow> bool" where
  "mayDecide who \<longleftrightarrow> Direct who \<or> \<not> IsZero (OnBehalfOf who)"

definition deskInvalid :: "string \<Rightarrow> string \<Rightarrow> failure" where
  "deskInvalid path code = Failure (WithFields (WithDetail ErrValidation code) [field_error path code])"

text \<open>An earlier answer at the level that the new one would repeat: of the same person, or for the same person.\<close>

definition answeredBy :: "Approval \<Rightarrow> ID \<Rightarrow> Eligibility \<Rightarrow> Decision \<Rightarrow> bool" where
  "answeredBy a approver who earlier \<longleftrightarrow>
     DeLevel earlier = ApCurrent a
     \<and> (DeApprover earlier = approver \<or> DeOnBehalfOf earlier = approver
        \<or> \<not> IsZero (OnBehalfOf who) \<and> (DeOnBehalfOf earlier = OnBehalfOf who \<or> DeApprover earlier = OnBehalfOf who))"

text \<open>The current level, read by its index.\<close>

definition currentLevel :: "Approval \<Rightarrow> OpenLevel result" where
  "currentLevel a = (if ApCurrent a < length (ApLevels a) then Inr (ApLevels a ! ApCurrent a) else Inl Panic)"

text \<open>Where a yes takes the approval, \<open>yes\<close> of them at the level by now.\<close>

definition passOn :: "Approval \<Rightarrow> int \<Rightarrow> time \<Rightarrow> Approval result" where
  "passOn a yes now =
     rbind (currentLevel a) (\<lambda>level.
       let moved = a\<lparr>ApVersion := ApVersion a + 1\<rparr> in
       if yes < Needed (OpenRule level) (int (length (CountedPeople level))) then Inr moved
       else if ApCurrent a + 1 < length (ApLevels a) then Inr (moved\<lparr>ApCurrent := ApCurrent a + 1, ApLevelSince := now\<rparr>)
       else Inr (moved\<lparr>ApState := ApprovalApproved, ApDecidedAt := Some now\<rparr>))"

definition Decide :: "Approval \<Rightarrow> Decision list \<Rightarrow> ID \<Rightarrow> ID \<Rightarrow> Eligibility \<Rightarrow> Verdict \<Rightarrow> string \<Rightarrow> int \<Rightarrow> time \<Rightarrow> (Approval \<times> Decision) result" where
  "Decide a decided i approver who verdict reason itemVersion now =
     (if ApState a \<noteq> ApprovalPending then Inl (Failure (WithDetail ErrConflict ''approvals.decided''))
      else if \<not> mayDecide who then Inl (Failure (WithDetail ErrForbidden ''approvals.not_an_approver''))
      else if list_ex (answeredBy a approver who) decided then Inl (Failure (WithDetail ErrConflict ''approvals.already_decided''))
      else if verdict \<noteq> VerdictApprove \<and> verdict \<noteq> VerdictDecline then Inl (deskInvalid ''/verdict'' ''approvals.verdict_unknown'')
      else
        let reason = TrimSpace reason in
        if verdict = VerdictDecline \<and> reason = '''' then Inl (deskInvalid ''/reason'' ''approvals.reason_required'')
        else if RuneCountInString reason > MaxApprovalReason then Inl (deskInvalid ''/reason'' ''approvals.reason_too_long'')
        else if CHR 0x00 \<in> set reason then Inl (deskInvalid ''/reason'' ''approvals.reason_malformed'')
        else
          let decision = \<lparr>DeID = i, DeTenant = ApTenant a, DeApproval = ApID a, DeLevel = ApCurrent a, DeApprover = approver,
                DeOnBehalfOf = OnBehalfOf who, DeVerdict = verdict, DeReason = reason, DeItemVersion = itemVersion, DeAt = now\<rparr> in
          if verdict = VerdictDecline
          then Inr (a\<lparr>ApVersion := ApVersion a + 1, ApState := ApprovalDeclined, ApDecidedAt := Some now\<rparr>, decision)
          else
            let yes = 1 + length (filter (\<lambda>earlier. DeLevel earlier = ApCurrent a \<and> DeVerdict earlier = VerdictApprove) decided) in
            rbind (passOn a (int yes) now) (\<lambda>moved. Inr (moved, decision)))"

definition Withdrawn :: "Approval \<Rightarrow> time \<Rightarrow> Approval" where
  "Withdrawn a now = a\<lparr>ApState := ApprovalWithdrawn, ApDecidedAt := Some now, ApVersion := ApVersion a + 1\<rparr>"

definition Counts :: "Approval \<Rightarrow> ID \<Rightarrow> bool result" where
  "Counts a person =
     (if ApState a \<noteq> ApprovalPending then Inr False
      else rbind (currentLevel a) (\<lambda>level. Inr (person \<in> set (CountedPeople level))))"

section \<open>Delegations\<close>

definition MaxDelegationDays :: int where "MaxDelegationDays = 366"

record Delegation =
  DgTenant :: ID
  DgAccount :: ID
  DgDelegate :: ID
  DgFrom :: time
  DgUntil :: time

definition NewDelegation :: "ID \<Rightarrow> ID \<Rightarrow> ID \<Rightarrow> time \<Rightarrow> time \<Rightarrow> Delegation result" where
  "NewDelegation tenant account delegate start end' =
     (if IsZero delegate \<or> delegate = account then Inl (deskInvalid ''/delegate_id'' ''approvals.delegate_self'')
      else if \<not> end' > start then Inl (deskInvalid ''/until'' ''approvals.delegation_empty'')
      else if end' - start > MaxDelegationDays * 24 * hour then Inl (deskInvalid ''/until'' ''approvals.delegation_too_long'')
      else Inr \<lparr>DgTenant = tenant, DgAccount = account, DgDelegate = delegate, DgFrom = start, DgUntil = end'\<rparr>)"

definition Covers :: "Delegation \<Rightarrow> time \<Rightarrow> bool" where
  "Covers d at \<longleftrightarrow> \<not> at < DgFrom d \<and> at < DgUntil d"

section \<open>The tables\<close>

record register =
  regApprovals :: "Approval list"
  regDecisions :: "Decision list"
  regDelegations :: "Delegation list"

text \<open>A unique index allows one pending approval per entry.\<close>

definition InsertApproval :: "register \<Rightarrow> Approval \<Rightarrow> register result" where
  "InsertApproval r a =
     (if list_ex (\<lambda>row. ApID row = ApID a \<or> ApItem row = ApItem a \<and> ApState row = ApprovalPending) (regApprovals r)
      then Inl (Failure (WithDetail ErrConflict ''approvals.pending''))
      else Inr (r\<lparr>regApprovals := regApprovals r @ [a\<lparr>ApCurrent := 0, ApState := ApprovalPending, ApLevelSince := ApRequestedAt a,
             ApDecidedAt := None, ApVersion := 1\<rparr>]\<rparr>))"

definition UpdateApproval :: "register \<Rightarrow> Approval \<Rightarrow> int \<Rightarrow> register result" where
  "UpdateApproval r a expected =
     (if \<not> list_ex (\<lambda>row. ApID row = ApID a \<and> ApVersion row = expected) (regApprovals r)
      then Inl (Failure (WithDetail ErrConflict ''approvals.changed''))
      else Inr (r\<lparr>regApprovals := map (\<lambda>row. if ApID row = ApID a \<and> ApVersion row = expected
             then row\<lparr>ApCurrent := ApCurrent a, ApState := ApState a, ApLevelSince := ApLevelSince a, ApDecidedAt := ApDecidedAt a,
                      ApVersion := ApVersion row + 1\<rparr> else row) (regApprovals r)\<rparr>))"

definition approvalNotFound :: failure where
  "approvalNotFound = Failure (WithDetail ErrNotFound ''approvals.not_found'')"

definition oneApproval :: "Approval option \<Rightarrow> Approval result" where
  "oneApproval found = (case found of None \<Rightarrow> Inl approvalNotFound | Some a \<Rightarrow> Inr a)"

definition FindApproval :: "register \<Rightarrow> ID \<Rightarrow> Approval result" where
  "FindApproval r i = oneApproval (find (\<lambda>a. ApID a = i) (regApprovals r))"

definition PendingOf :: "register \<Rightarrow> ID \<Rightarrow> Approval result" where
  "PendingOf r item = oneApproval (find (\<lambda>a. ApItem a = item \<and> ApState a = ApprovalPending) (regApprovals r))"

definition RecordDecision :: "register \<Rightarrow> Decision \<Rightarrow> register result" where
  "RecordDecision r d =
     (if list_ex (\<lambda>row. DeID row = DeID d \<or> DeApproval row = DeApproval d \<and> DeLevel row = DeLevel d \<and> DeApprover row = DeApprover d) (regDecisions r)
      then Inl (Failure (WithDetail ErrConflict ''approvals.already_decided''))
      else Inr (r\<lparr>regDecisions := regDecisions r @ [d]\<rparr>))"

definition Decisions :: "register \<Rightarrow> ID \<Rightarrow> Decision list" where
  "Decisions r i = sort_key (\<lambda>d. (DeAt d, DeID d)) (filter (\<lambda>d. DeApproval d = i) (regDecisions r))"

definition SaveDelegation :: "register \<Rightarrow> Delegation \<Rightarrow> register" where
  "SaveDelegation r d =
     r\<lparr>regDelegations :=
       (if list_ex (\<lambda>row. DgAccount row = DgAccount d) (regDelegations r)
        then map (\<lambda>row. if DgAccount row = DgAccount d then row\<lparr>DgDelegate := DgDelegate d, DgFrom := DgFrom d, DgUntil := DgUntil d\<rparr> else row) (regDelegations r)
        else regDelegations r @ [d])\<rparr>"

definition DelegationsTo :: "register \<Rightarrow> ID \<Rightarrow> Delegation list" where
  "DelegationsTo r delegate = filter (\<lambda>d. DgDelegate d = delegate) (regDelegations r)"

definition EndDelegation :: "register \<Rightarrow> ID \<Rightarrow> register \<times> bool" where
  "EndDelegation r account =
     (r\<lparr>regDelegations := filter (\<lambda>d. DgAccount d \<noteq> account) (regDelegations r)\<rparr>, list_ex (\<lambda>d. DgAccount d = account) (regDelegations r))"

section \<open>The use cases\<close>

datatype stepTarget = ByStep string | ToStatus string

record approvalPorts =
  entryOf :: "ID \<Rightarrow> WorkItem result"
  stepGroups :: "(ID \<Rightarrow> ID list result) option"
  rolesHeld :: "(ID \<Rightarrow> WorkItem \<Rightarrow> string list result) option"
  invokeStep :: "ID \<Rightarrow> WorkItem \<Rightarrow> stepTarget \<Rightarrow> failure option"

fun stringsOf :: "json list \<Rightarrow> string list" where
  "stringsOf [] = []"
| "stringsOf (JStr s # rest) = s # stringsOf rest"
| "stringsOf (_ # rest) = stringsOf rest"

definition namedIn :: "WorkItem \<Rightarrow> string \<Rightarrow> ID list" where
  "namedIn item field =
     (if field = ''assignee'' then [AssigneeID item]
      else if field = ''created_by'' then [CreatedBy item]
      else let key = (if hasPrefix field FormCustomPrefix then drop (length FormCustomPrefix) field else field) in
        case jget (CustomFields item) key of JStr value \<Rightarrow> [value] | JArr values \<Rightarrow> stringsOf values | _ \<Rightarrow> [])"

fun groupPeople :: "(ID \<Rightarrow> ID list result) \<Rightarrow> ID list \<Rightarrow> ID list result" where
  "groupPeople members [] = Inr []"
| "groupPeople members (g # groups) =
     rbind (case members g of Inl e \<Rightarrow> if isNotFound e then Inr [] else Inl e | Inr found \<Rightarrow> Inr found) (\<lambda>found.
     rbind (groupPeople members groups) (\<lambda>rest. Inr (found @ rest)))"

definition countedIn :: "approvalPorts \<Rightarrow> WorkItem \<Rightarrow> ApprovalLevel \<Rightarrow> ID list result" where
  "countedIn p item level =
     rbind (case stepGroups p of None \<Rightarrow> Inr [] | Some members \<Rightarrow> groupPeople members (LevelGroups level)) (\<lambda>groups.
       Inr (LevelPeople level @ groups @ concat (map (namedIn item) (LevelPersonFields level))))"

definition openApproval :: "approvalPorts \<Rightarrow> register \<Rightarrow> ID \<Rightarrow> ID \<Rightarrow> WorkItem \<Rightarrow> string \<Rightarrow> WorkflowStep \<Rightarrow> time \<Rightarrow> register result" where
  "openApproval p r newID actor item workflow step now =
     (case StepApprovalOf step of
        None \<Rightarrow> Inl stepWithoutApproval
      | Some approval \<Rightarrow>
          rbind (indexed_map 0 (\<lambda>_. countedIn p item) (ApprovalLevels approval)) (\<lambda>counted.
          rbind (NewApproval newID item workflow step counted actor now) (\<lambda>a. InsertApproval r a)))"

definition movedApproval :: "register \<Rightarrow> ID \<Rightarrow> time \<Rightarrow> register result" where
  "movedApproval r item now =
     (case PendingOf r item of
        Inl e \<Rightarrow> if isNotFound e then Inr r else Inl e
      | Inr pending \<Rightarrow> UpdateApproval r (Withdrawn pending now) (ApVersion pending))"

text \<open>The first person away whom the actor decides for and whom the level counts.\<close>

fun behalfOf :: "Approval \<Rightarrow> time \<Rightarrow> Delegation list \<Rightarrow> Eligibility result" where
  "behalfOf a at [] = Inr notEligible"
| "behalfOf a at (d # rest) =
     (if \<not> Covers d at then behalfOf a at rest
      else rbind (Counts a (DgAccount d)) (\<lambda>counted.
        if counted then Inr \<lparr>Direct = False, OnBehalfOf = DgAccount d\<rparr> else behalfOf a at rest))"

definition holdsRole :: "approvalPorts \<Rightarrow> ID \<Rightarrow> ID \<Rightarrow> ApprovalLevel \<Rightarrow> bool result" where
  "holdsRole p actor itemID level =
     (case rolesHeld p of
        None \<Rightarrow> Inr False
      | Some held \<Rightarrow>
          if LevelRoles level = [] then Inr False
          else rbind (entryOf p itemID) (\<lambda>item. rbind (held actor item) (\<lambda>roles. Inr (list_ex (\<lambda>role. role \<in> set roles) (LevelRoles level)))))"

definition eligibility :: "approvalPorts \<Rightarrow> register \<Rightarrow> ID \<Rightarrow> Approval \<Rightarrow> time \<Rightarrow> Eligibility result" where
  "eligibility p r actor a at =
     (if ApState a \<noteq> ApprovalPending \<or> IsZero actor then Inr notEligible
      else
        rbind (Counts a actor) (\<lambda>counts.
        if counts then Inr \<lparr>Direct = True, OnBehalfOf = ''''\<rparr>
        else
          rbind (currentLevel a) (\<lambda>level.
          rbind (holdsRole p actor (ApItem a) (OpenRule level)) (\<lambda>holds.
            if holds then Inr \<lparr>Direct = True, OnBehalfOf = ''''\<rparr>
            else behalfOf a at (DelegationsTo r actor)))))"

text \<open>The step an outcome takes, as whoever asked for the approval.\<close>

definition stepOf :: "Approval \<Rightarrow> stepTarget option" where
  "stepOf a =
     (if ApState a = ApprovalApproved then Some (ByStep (ApStep a))
      else if ApState a = ApprovalDeclined \<and> ApDeclineTo a \<noteq> '''' then Some (ToStatus (ApDeclineTo a))
      else None)"

text \<open>
  Taking the step leaves the approvals of the entry as \<^verbatim>\<open>TakeStep\<close> does: one that still waits is withdrawn.
\<close>

definition takeDecided :: "approvalPorts \<Rightarrow> register \<Rightarrow> WorkItem \<Rightarrow> Approval \<Rightarrow> time \<Rightarrow> register result" where
  "takeDecided p r item a now =
     (case stepOf a of
        None \<Rightarrow> Inr r
      | Some target \<Rightarrow> guarded (invokeStep p (ApRequestedBy a) item target) (movedApproval r (ApItem a) now))"

definition decideApproval :: "approvalPorts \<Rightarrow> register \<Rightarrow> ID \<Rightarrow> ID \<Rightarrow> ID \<Rightarrow> Verdict \<Rightarrow> string \<Rightarrow> time \<Rightarrow> (register \<times> Approval) result" where
  "decideApproval p r newID actor approvalID verdict reason now =
     rbind (FindApproval r approvalID) (\<lambda>a.
     rbind (eligibility p r actor a now) (\<lambda>who.
     if \<not> mayDecide who then Inl approvalNotFound
     else
       rbind (entryOf p (ApItem a)) (\<lambda>item.
       rbind (Decide a (Decisions r (ApID a)) newID actor who verdict reason (Version item) now) (\<lambda>(moved, decision).
       rbind (RecordDecision r decision) (\<lambda>r'.
       rbind (UpdateApproval r' moved (ApVersion a)) (\<lambda>r''.
       rbind (takeDecided p r'' item moved now) (\<lambda>taken. Inr (taken, moved))))))))"

definition setDelegation :: "register \<Rightarrow> ID \<Rightarrow> ID \<Rightarrow> ID \<Rightarrow> time \<Rightarrow> time \<Rightarrow> register result" where
  "setDelegation r tenant actor delegate start end' =
     rbind (NewDelegation tenant actor delegate start end') (\<lambda>d. Inr (SaveDelegation r d))"

definition endDelegation :: "register \<Rightarrow> ID \<Rightarrow> register result" where
  "endDelegation r actor =
     (let (r', ended) = EndDelegation r actor in
      if ended then Inr r' else Inl (Failure (WithDetail ErrNotFound ''approvals.no_delegation'')))"

text \<open>Whom a level still waits for, as its reminders do.\<close>

definition undecided :: "Approval \<Rightarrow> Decision list \<Rightarrow> ID list result" where
  "undecided a decisions =
     rbind (currentLevel a) (\<lambda>level.
       Inr (filter (\<lambda>person. \<not> list_ex (\<lambda>d. DeLevel d = ApCurrent a \<and> (DeApprover d = person \<or> DeOnBehalfOf d = person)) decisions) (CountedPeople level)))"

end
