(* ===== verification/Approval_Laws.thy ===== *)
theory Approval_Laws
  imports Approval Workflow_Laws
begin

text \<open>
  What an approval and its trail of decisions agree on at every moment: the answers of a level come from different people
  and stand for different people, a level left behind was passed by its rule, one decline ends it all.  Every use case
  keeps that.
\<close>

section \<open>The trail of an approval\<close>

text \<open>Whom an answer stands for.\<close>

definition seat :: "Decision \<Rightarrow> ID" where
  "seat d = (if IsZero (DeOnBehalfOf d) then DeApprover d else DeOnBehalfOf d)"

definition at_level :: "nat \<Rightarrow> Decision list \<Rightarrow> Decision list" where
  "at_level l ds = filter (\<lambda>d. DeLevel d = l) ds"

definition needed :: "OpenLevel \<Rightarrow> int" where
  "needed level = Needed (OpenRule level) (int (length (CountedPeople level)))"

definition level_open :: "OpenLevel \<Rightarrow> bool" where
  "level_open level \<longleftrightarrow> level_ok (OpenRule level) \<and> distinct (CountedPeople level) \<and> '''' \<notin> set (CountedPeople level)
     \<and> (Counted (OpenRule level) \<longrightarrow> CountedPeople level \<noteq> [])
     \<and> (LevelRule (OpenRule level) = ApprovalNOf \<and> LevelRoles (OpenRule level) = [] \<longrightarrow> LevelCount (OpenRule level) \<le> int (length (CountedPeople level)))"

definition answers_ok :: "OpenLevel \<Rightarrow> Decision list \<Rightarrow> bool" where
  "answers_ok level ds \<longleftrightarrow> distinct (map seat ds) \<and> distinct (map DeApprover ds)
     \<and> (LevelRoles (OpenRule level) = [] \<longrightarrow> seat ` set ds \<subseteq> set (CountedPeople level))
     \<and> (\<forall>d \<in> set ds. DeApprover d \<in> set (CountedPeople level) \<longrightarrow> DeOnBehalfOf d = '''')"

definition all_yes :: "Decision list \<Rightarrow> bool" where
  "all_yes ds \<longleftrightarrow> (\<forall>d \<in> set ds. DeVerdict d = VerdictApprove)"

definition passed :: "OpenLevel \<Rightarrow> Decision list \<Rightarrow> bool" where
  "passed level ds \<longleftrightarrow> all_yes ds \<and> needed level \<le> int (length ds)"

text \<open>What the state of an approval says of its trail.\<close>

definition standing :: "Approval \<Rightarrow> Decision list \<Rightarrow> bool" where
  "standing a ds \<longleftrightarrow>
     (ApState a = ApprovalPending \<longrightarrow> all_yes ds \<and> int (length (at_level (ApCurrent a) ds)) < needed (ApLevels a ! ApCurrent a))
     \<and> (ApState a = ApprovalApproved \<longrightarrow> Suc (ApCurrent a) = length (ApLevels a) \<and> passed (ApLevels a ! ApCurrent a) (at_level (ApCurrent a) ds))
     \<and> (ApState a = ApprovalDeclined \<longrightarrow> (\<exists>d \<in> set ds. DeLevel d = ApCurrent a \<and> DeVerdict d = VerdictDecline \<and> DeReason d \<noteq> ''''))"

definition trail_ok :: "Approval \<Rightarrow> Decision list \<Rightarrow> bool" where
  "trail_ok a ds \<longleftrightarrow> list_all level_open (ApLevels a) \<and> ApCurrent a < length (ApLevels a) \<and> (\<forall>d \<in> set ds. DeLevel d \<le> ApCurrent a)
     \<and> (\<forall>l < length (ApLevels a). answers_ok (ApLevels a ! l) (at_level l ds))
     \<and> (\<forall>l < ApCurrent a. passed (ApLevels a ! l) (at_level l ds)) \<and> standing a ds"

lemma trail_ok_cong:
  "ApLevels a = ApLevels b \<Longrightarrow> ApCurrent a = ApCurrent b \<Longrightarrow> ApState a = ApState b \<Longrightarrow> trail_ok a ds = trail_ok b ds"
  by (simp add: trail_ok_def standing_def)

lemma at_level_simps [simp]:
  "at_level l [] = []"
  "at_level l (ds @ [d]) = at_level l ds @ (if DeLevel d = l then [d] else [])"
  "set (at_level l ds) = {d \<in> set ds. DeLevel d = l}"
  by (auto simp: at_level_def)

lemma needed_pos: "level_open level \<Longrightarrow> 1 \<le> needed level"
  by (auto simp: level_open_def level_ok_def needed_def Needed_def Counted_def Suc_le_eq)

text \<open>Without roles a level never needs more than the people it counts.\<close>

lemma needed_le:
  "level_open level \<Longrightarrow> LevelRoles (OpenRule level) = [] \<Longrightarrow> CountedPeople level \<noteq> [] \<Longrightarrow> needed level \<le> int (length (CountedPeople level))"
  by (cases "CountedPeople level") (auto simp: level_open_def level_ok_def needed_def Needed_def)

section \<open>Answering\<close>

text \<open>How somebody who may decide stands at a level.\<close>

definition fair :: "OpenLevel \<Rightarrow> ID \<Rightarrow> Eligibility \<Rightarrow> bool" where
  "fair level approver who \<longleftrightarrow>
     (if OnBehalfOf who = '''' then approver \<in> set (CountedPeople level) \<or> LevelRoles (OpenRule level) \<noteq> []
      else OnBehalfOf who \<in> set (CountedPeople level) \<and> approver \<notin> set (CountedPeople level))"

lemma answers_ok_snoc:
  assumes "answers_ok level (at_level (ApCurrent a) ds)" "\<not> list_ex (answeredBy a approver who) ds" "fair level approver who"
    and d: "DeLevel d = ApCurrent a" "DeApprover d = approver" "DeOnBehalfOf d = OnBehalfOf who"
  shows "answers_ok level (at_level (ApCurrent a) ds @ [d])"
proof -
  have fresh: "DeApprover e \<noteq> approver \<and> seat e \<noteq> seat d" if "e \<in> set (at_level (ApCurrent a) ds)" for e
    using assms(2) that d by (auto simp: list_ex_iff answeredBy_def seat_def)
  then have "seat d \<notin> seat ` set (at_level (ApCurrent a) ds)" "DeApprover d \<notin> DeApprover ` set (at_level (ApCurrent a) ds)"
    using d(2) by (auto simp del: at_level_simps) metis+
  then have "distinct (map seat (at_level (ApCurrent a) ds @ [d]))" "distinct (map DeApprover (at_level (ApCurrent a) ds @ [d]))"
    using assms(1) by (simp_all add: answers_ok_def)
  then show ?thesis using assms(1,3) d unfolding answers_ok_def by (auto simp: fair_def seat_def split: if_splits)
qed

lemma passOn_cases:
  assumes "passOn a yes now = Inr b" "ApCurrent a < length (ApLevels a)"
  shows "ApID b = ApID a" "ApLevels b = ApLevels a" "ApVersion b = ApVersion a + 1" "ApItem b = ApItem a"
    and "yes < needed (ApLevels a ! ApCurrent a) \<and> ApCurrent b = ApCurrent a \<and> ApState b = ApState a
      \<or> needed (ApLevels a ! ApCurrent a) \<le> yes \<and> Suc (ApCurrent a) < length (ApLevels a) \<and> ApCurrent b = Suc (ApCurrent a) \<and> ApState b = ApState a
      \<or> needed (ApLevels a ! ApCurrent a) \<le> yes \<and> Suc (ApCurrent a) = length (ApLevels a) \<and> ApCurrent b = ApCurrent a \<and> ApState b = ApprovalApproved"
  using assms by (auto simp: passOn_def currentLevel_def needed_def Let_def split: if_splits)

lemma Decide_Inr:
  assumes "Decide a ds i approver who verdict reason v now = Inr (b, d)"
  shows "ApState a = ApprovalPending" "\<not> list_ex (answeredBy a approver who) ds"
    "DeLevel d = ApCurrent a" "DeApprover d = approver" "DeOnBehalfOf d = OnBehalfOf who" "DeVerdict d = verdict" "DeApproval d = ApID a" "DeID d = i"
    "verdict = VerdictDecline \<and> DeReason d \<noteq> '''' \<and> b = a\<lparr>ApVersion := ApVersion a + 1, ApState := ApprovalDeclined, ApDecidedAt := Some now\<rparr>
      \<or> verdict = VerdictApprove \<and> passOn a (1 + int (length (filter (\<lambda>e. DeLevel e = ApCurrent a \<and> DeVerdict e = VerdictApprove) ds))) now = Inr b"
  using assms by (auto simp: Decide_def Let_def go_result split: if_splits)

lemma all_yes_count: "all_yes ds \<Longrightarrow> filter (\<lambda>e. DeLevel e = l \<and> DeVerdict e = VerdictApprove) ds = at_level l ds"
  by (auto simp: all_yes_def at_level_def intro: filter_cong)

lemma Decide_sorted: "Decide a (sort_key f ds) i approver who verdict reason v now = Decide a ds i approver who verdict reason v now"
proof -
  have same: "list_ex P (sort_key f ds) = list_ex P ds" "length (filter P (sort_key f ds)) = length (filter P ds)" for P
    by (simp_all add: list_ex_iff filter_sort)
  show ?thesis unfolding Decide_def same by (rule refl)
qed

lemma above_empty: "\<forall>d \<in> set ds. DeLevel d \<le> c \<Longrightarrow> c < l \<Longrightarrow> at_level l ds = []"
  by (auto simp: at_level_def filter_empty_conv)

text \<open>A recorded answer leaves an approval and a trail that agree.\<close>

lemma Decide_trail_ok:
  assumes ok: "trail_ok a ds" and run: "Decide a ds i approver who verdict reason v now = Inr (b, d)"
    and fair: "fair (ApLevels a ! ApCurrent a) approver who"
  shows "trail_ok b (ds @ [d])"
proof -
  let ?c = "ApCurrent a" and ?level = "ApLevels a ! ApCurrent a"
  note parts = Decide_Inr [OF run]
  have cur: "?c < length (ApLevels a)" "\<forall>e \<in> set ds. DeLevel e \<le> ?c" "all_yes ds" "list_all level_open (ApLevels a)"
    "int (length (at_level ?c ds)) < needed ?level"
    using ok parts(1) by (auto simp: trail_ok_def standing_def)
  have answers: "answers_ok (ApLevels a ! l) (at_level l (ds @ [d]))" if "l < length (ApLevels a)" for l
    using ok that parts(3) answers_ok_snoc [OF _ parts(2) fair parts(3-5)] by (auto simp: trail_ok_def)
  have before: "passed (ApLevels a ! l) (at_level l (ds @ [d]))" if "l < ?c" for l using ok that parts(3) by (simp add: trail_ok_def)
  consider (declined) "verdict = VerdictDecline" "DeReason d \<noteq> ''''" "b = a\<lparr>ApVersion := ApVersion a + 1, ApState := ApprovalDeclined, ApDecidedAt := Some now\<rparr>"
    | (approved) "verdict = VerdictApprove" "passOn a (1 + int (length (at_level ?c ds))) now = Inr b"
    using parts(9) all_yes_count [OF cur(3)] by auto
  then show ?thesis
  proof cases
    case declined
    then show ?thesis using cur answers before parts(3,6) by (auto simp: trail_ok_def standing_def)
  next
    case approved
    have yes: "all_yes (ds @ [d])" using cur(3) parts(6) approved(1) by (simp add: all_yes_def)
    then have here: "passed ?level (at_level ?c (ds @ [d])) \<longleftrightarrow> needed ?level \<le> 1 + int (length (at_level ?c ds))"
      using parts(3) by (auto simp: passed_def all_yes_def)
    have next': "at_level (Suc ?c) (ds @ [d]) = []" using above_empty [of "ds @ [d]" ?c "Suc ?c"] cur(2) parts(3) by simp
    have "1 \<le> needed (ApLevels a ! Suc ?c)" if "Suc ?c < length (ApLevels a)" using cur(4) that needed_pos by (simp add: list_all_length)
    moreover note kept = passOn_cases(2) [OF approved(2) cur(1)]
    moreover note passOn_cases(5) [OF approved(2) cur(1)]
    ultimately show ?thesis using cur answers before yes here next' parts(1,3) unfolding trail_ok_def standing_def kept
      by (elim disjE) (auto simp: less_Suc_eq)
  qed
qed

section \<open>Who may decide\<close>

lemma Counts_Inr: "Counts a person = Inr c \<Longrightarrow> ApState a = ApprovalPending \<Longrightarrow> ApCurrent a < length (ApLevels a) \<and> c = (person \<in> set (CountedPeople (ApLevels a ! ApCurrent a)))"
  by (auto simp: Counts_def currentLevel_def split: if_splits)

lemma behalfOf_Inr:
  "behalfOf a at delegations = Inr who \<Longrightarrow> ApState a = ApprovalPending \<Longrightarrow>
   who = notEligible \<or> Direct who = False \<and> OnBehalfOf who \<in> set (CountedPeople (ApLevels a ! ApCurrent a))"
proof (induction delegations)
  case (Cons d rest)
  show ?case
  proof (cases "Covers d at")
    case True
    then obtain counted where counted: "Counts a (DgAccount d) = Inr counted"
      and who: "(if counted then Inr \<lparr>Direct = False, OnBehalfOf = DgAccount d\<rparr> else behalfOf a at rest) = Inr who"
      using Cons.prems(1) by (auto simp: go_result)
    show ?thesis using Counts_Inr [OF counted Cons.prems(2)] who Cons.IH Cons.prems(2) by (cases counted) auto
  qed (use Cons in simp)
qed simp

lemma eligibility_fair:
  assumes "eligibility p r actor a at = Inr who" "mayDecide who"
  shows "ApState a = ApprovalPending \<and> actor \<noteq> '''' \<and> fair (ApLevels a ! ApCurrent a) actor who"
proof -
  have pending: "ApState a = ApprovalPending" "actor \<noteq> ''''" using assms by (auto simp: eligibility_def mayDecide_def notEligible_def split: if_splits)
  have role: "LevelRoles level \<noteq> []" if "holdsRole p actor item level = Inr True" for item level
    using that by (auto simp: holdsRole_def split: option.splits if_splits)
  show ?thesis
    using assms pending behalfOf_Inr [OF _ pending(1)] Counts_Inr [OF _ pending(1)] role
    by (fastforce simp: eligibility_def go_result currentLevel_def fair_def mayDecide_def notEligible_def split: if_splits)
qed

end
