(* ===== verification/Approval_Runs.thy ===== *)
theory Approval_Runs
  imports Approval_Laws
begin

text \<open>
  The register of approvals over time: every state the use cases reach keeps its approvals and their trails in agreement.
\<close>

section \<open>Opening\<close>

lemma indexed_map_in: "indexed_map i f xs = Inr ys \<Longrightarrow> y \<in> set ys \<Longrightarrow> \<exists>j x. x \<in> set xs \<and> f j x = Inr y"
  by (induction xs arbitrary: i ys) (auto simp: go_result, blast+)

lemma indexed_map_length: "indexed_map i f xs = Inr ys \<Longrightarrow> length ys = length xs"
  by (induction xs arbitrary: i ys) (auto simp: go_result)

lemma foldl_distinct:
  "distinct out \<Longrightarrow> '''' \<notin> set out \<Longrightarrow> distinct (foldl (\<lambda>out i. if \<not> IsZero i then addNew out i else out) out ids)
     \<and> '''' \<notin> set (foldl (\<lambda>out i. if \<not> IsZero i then addNew out i else out) out ids)"
  by (induction ids arbitrary: out) auto

lemma openLevel_open:
  assumes "openLevel i (level, counted) = Inr out" "level_ok level"
  shows "level_open out"
  using assms foldl_distinct [of "[]" counted] by (auto simp: openLevel_def Let_def level_open_def distinctIDs_def split: if_splits)

lemma NewApproval_ok:
  assumes "NewApproval i item workflow step counted requestedBy now = Inr a" "step_ok shape step"
  shows "ApID a = i \<and> ApItem a = ItemID item \<and> ApState a = ApprovalPending \<and> ApCurrent a = 0 \<and> ApVersion a = 1 \<and> trail_ok a []"
proof -
  obtain approval levels where parts: "StepApprovalOf step = Some approval" "length counted = length (ApprovalLevels approval)"
    "indexed_map 0 openLevel (zip (ApprovalLevels approval) counted) = Inr levels" "ApLevels a = levels"
    "ApID a = i" "ApItem a = ItemID item" "ApState a = ApprovalPending" "ApCurrent a = 0" "ApVersion a = 1"
    using assms(1) by (auto simp: NewApproval_def go_result split: option.splits if_splits)
  have ok: "ApprovalLevels approval \<noteq> []" "list_all level_ok (ApprovalLevels approval)" using assms(2) parts(1) by (auto simp: step_ok_def approval_ok_def)
  have "level_open out" if "out \<in> set levels" for out
    using indexed_map_in [OF parts(3) that] openLevel_open ok(2) by (auto simp: list_all_iff dest: set_zip_leftD)
  then have opened: "list_all level_open levels" by (simp add: list_all_iff)
  moreover have "levels \<noteq> []" using indexed_map_length [OF parts(3)] parts(2) ok(1) by auto
  ultimately have "1 \<le> needed (levels ! 0)" using needed_pos by (simp add: list_all_length)
  then show ?thesis using parts(4-) opened \<open>levels \<noteq> []\<close> by (auto simp: trail_ok_def standing_def answers_ok_def all_yes_def)
qed

section \<open>The register\<close>

definition trail :: "register \<Rightarrow> ID \<Rightarrow> Decision list" where
  "trail r i = filter (\<lambda>d. DeApproval d = i) (regDecisions r)"

definition register_ok :: "register \<Rightarrow> bool" where
  "register_ok r \<longleftrightarrow> distinct (map ApID (regApprovals r)) \<and> DeApproval ` set (regDecisions r) \<subseteq> ApID ` set (regApprovals r)
     \<and> (\<forall>a \<in> set (regApprovals r). trail_ok a (trail r (ApID a)))"

lemma oneApproval_Inr [simp]: "oneApproval found = Inr a \<longleftrightarrow> found = Some a"
  by (auto simp: oneApproval_def split: option.splits)

lemma FindApproval_Inr: "FindApproval r i = Inr a \<Longrightarrow> a \<in> set (regApprovals r) \<and> ApID a = i"
  using find_SomeD [of _ "regApprovals r" a] by (auto simp: FindApproval_def)

lemma InsertApproval_ok:
  assumes "InsertApproval r a = Inr r'" "register_ok r" "trail_ok a []" "ApState a = ApprovalPending" "ApCurrent a = 0"
  shows "register_ok r'"
proof -
  let ?row = "a\<lparr>ApCurrent := 0, ApState := ApprovalPending, ApLevelSince := ApRequestedAt a, ApDecidedAt := None, ApVersion := 1\<rparr>"
  have r': "r' = r\<lparr>regApprovals := regApprovals r @ [?row]\<rparr>" and new: "ApID a \<notin> ApID ` set (regApprovals r)"
    using assms(1) by (auto simp: InsertApproval_def list_ex_iff split: if_splits)
  have "DeApproval d \<noteq> ApID a" if "d \<in> set (regDecisions r)" for d using new assms(2) that unfolding register_ok_def by (metis image_eqI subset_iff)
  then have "trail r (ApID a) = []" by (auto simp: trail_def filter_empty_conv)
  moreover have "trail_ok ?row [] = trail_ok a []" by (rule trail_ok_cong) (simp_all add: assms(4,5))
  ultimately show ?thesis using assms(2,3) new unfolding register_ok_def r' by (auto simp: trail_def)
qed

text \<open>The row of an approval after an update that knew its version.\<close>

lemma UpdateApproval_rows:
  assumes "UpdateApproval r b v = Inr r'" "distinct (map ApID (regApprovals r))" "a \<in> set (regApprovals r)" "ApID a = ApID b" "ApVersion a = v"
  shows "regDecisions r' = regDecisions r" "regDelegations r' = regDelegations r" "map ApID (regApprovals r') = map ApID (regApprovals r)"
    and "regApprovals r' = map (\<lambda>row. if row = a then a\<lparr>ApCurrent := ApCurrent b, ApState := ApState b, ApLevelSince := ApLevelSince b,
           ApDecidedAt := ApDecidedAt b, ApVersion := ApVersion a + 1\<rparr> else row) (regApprovals r)"
proof -
  have unique: "ApID row \<noteq> ApID b" if "row \<in> set (regApprovals r)" "row \<noteq> a" for row using assms(2-4) that by (auto simp: distinct_map inj_on_def)
  have "(if ApID row = ApID b \<and> ApVersion row = v
      then row\<lparr>ApCurrent := ApCurrent b, ApState := ApState b, ApLevelSince := ApLevelSince b, ApDecidedAt := ApDecidedAt b, ApVersion := ApVersion row + 1\<rparr> else row)
    = (if row = a then a\<lparr>ApCurrent := ApCurrent b, ApState := ApState b, ApLevelSince := ApLevelSince b, ApDecidedAt := ApDecidedAt b,
         ApVersion := ApVersion a + 1\<rparr> else row)" if "row \<in> set (regApprovals r)" for row
    using assms(4,5) unique [OF that] by (cases "row = a") simp_all
  moreover have "regApprovals r' = map (\<lambda>row. if ApID row = ApID b \<and> ApVersion row = v
      then row\<lparr>ApCurrent := ApCurrent b, ApState := ApState b, ApLevelSince := ApLevelSince b, ApDecidedAt := ApDecidedAt b, ApVersion := ApVersion row + 1\<rparr> else row) (regApprovals r)"
    using assms(1) by (auto simp: UpdateApproval_def split: if_splits)
  ultimately show "regApprovals r' = map (\<lambda>row. if row = a then a\<lparr>ApCurrent := ApCurrent b, ApState := ApState b, ApLevelSince := ApLevelSince b,
           ApDecidedAt := ApDecidedAt b, ApVersion := ApVersion a + 1\<rparr> else row) (regApprovals r)"
    by (simp cong: map_cong)
qed (use assms(1) in \<open>auto simp: UpdateApproval_def split: if_splits\<close>)

lemma UpdateApproval_ok:
  assumes run: "UpdateApproval r b (ApVersion a) = Inr r'" and a: "a \<in> set (regApprovals r)" "ApID a = ApID b" "ApLevels b = ApLevels a"
    and ids: "distinct (map ApID (regApprovals r))" "DeApproval ` set (regDecisions r) \<subseteq> ApID ` set (regApprovals r)"
    and rest: "\<And>row. row \<in> set (regApprovals r) \<Longrightarrow> row \<noteq> a \<Longrightarrow> trail_ok row (trail r (ApID row))" and here: "trail_ok b (trail r (ApID a))"
  shows "register_ok r'"
proof -
  let ?row = "a\<lparr>ApCurrent := ApCurrent b, ApState := ApState b, ApLevelSince := ApLevelSince b, ApDecidedAt := ApDecidedAt b, ApVersion := ApVersion a + 1\<rparr>"
  note rows = UpdateApproval_rows [OF run ids(1) a(1,2) refl]
  have same: "trail_ok ?row ds = trail_ok b ds" for ds by (rule trail_ok_cong) (simp_all add: a(3))
  have ids': "ApID ` set (regApprovals r') = ApID ` set (regApprovals r)" using rows(3) by (metis list.set_map)
  have "trail r' i = trail r i" for i by (simp add: trail_def rows(1))
  then have "trail_ok row (trail r' (ApID row))" if "row \<in> set (regApprovals r')" for row
    using that rest here same by (auto simp: rows(4))
  then show ?thesis using ids rows(1,3) ids' unfolding register_ok_def by simp
qed

lemma standing_withdrawn: "trail_ok a ds \<Longrightarrow> trail_ok (Withdrawn a now) ds"
  by (simp add: trail_ok_def standing_def Withdrawn_def)

lemma movedApproval_ok:
  assumes "movedApproval r item now = Inr r'" "register_ok r"
  shows "register_ok r'"
proof (cases "PendingOf r item")
  case (Inr pending)
  then have "pending \<in> set (regApprovals r)" using find_SomeD [of _ "regApprovals r" pending] by (auto simp: PendingOf_def)
  moreover have "UpdateApproval r (Withdrawn pending now) (ApVersion pending) = Inr r'" using assms(1) Inr by (simp add: movedApproval_def)
  ultimately show ?thesis
    using assms(2) standing_withdrawn by (intro UpdateApproval_ok [of r "Withdrawn pending now" pending]) (auto simp: register_ok_def Withdrawn_def)
qed (use assms in \<open>auto simp: movedApproval_def split: if_splits\<close>)

section \<open>Deciding\<close>

lemma decideApproval_parts:
  assumes "decideApproval p r newID actor i verdict reason now = Inr (r', b)" "register_ok r"
  obtains a who item d r1 r2 where "a \<in> set (regApprovals r)" "ApID a = i" "eligibility p r actor a now = Inr who" "mayDecide who"
    "Decide a (trail r i) newID actor who verdict reason (Version item) now = Inr (b, d)"
    "r1 = r\<lparr>regDecisions := regDecisions r @ [d]\<rparr>" "UpdateApproval r1 b (ApVersion a) = Inr r2" "takeDecided p r2 item b now = Inr r'"
proof -
  obtain a who item d r1 r2 where parts: "FindApproval r i = Inr a" "eligibility p r actor a now = Inr who" "mayDecide who"
    "Decide a (Decisions r (ApID a)) newID actor who verdict reason (Version item) now = Inr (b, d)" "RecordDecision r d = Inr r1"
    "UpdateApproval r1 b (ApVersion a) = Inr r2" "takeDecided p r2 item b now = Inr r'"
    using assms(1) by (auto simp: decideApproval_def go_result split: if_splits)
  then show thesis using that [of a who item d r1 r2] FindApproval_Inr [OF parts(1)]
    by (auto simp: Decisions_def Decide_sorted trail_def RecordDecision_def split: if_splits)
qed

text \<open>What the approval decided on becomes: the same but for where it stands.\<close>

lemma Decide_keeps:
  assumes "Decide a ds i approver who verdict reason v now = Inr (b, d)" "ApCurrent a < length (ApLevels a)"
  shows "ApID b = ApID a \<and> ApLevels b = ApLevels a \<and> ApItem b = ApItem a \<and> ApVersion b = ApVersion a + 1"
  using Decide_Inr(9) [OF assms(1)] passOn_cases(1-4) [OF _ assms(2)] by auto

lemma decided_ok:
  assumes "register_ok r" and a: "a \<in> set (regApprovals r)" and who: "eligibility p r actor a now = Inr who" "mayDecide who"
    and run: "Decide a (trail r (ApID a)) newID actor who verdict reason v now = Inr (b, d)"
    and stored: "UpdateApproval (r\<lparr>regDecisions := regDecisions r @ [d]\<rparr>) b (ApVersion a) = Inr r2"
  shows "register_ok r2"
proof (rule UpdateApproval_ok [OF stored])
  have ok: "trail_ok a (trail r (ApID a))" using assms(1) a by (simp add: register_ok_def)
  then have cur: "ApCurrent a < length (ApLevels a)" by (simp add: trail_ok_def)
  let ?r1 = "r\<lparr>regDecisions := regDecisions r @ [d]\<rparr>"
  have new: "DeApproval d = ApID a" by (rule Decide_Inr(7) [OF run])
  show "a \<in> set (regApprovals ?r1)" "ApID a = ApID b" "ApLevels b = ApLevels a" using a Decide_keeps [OF run cur] by simp_all
  show "distinct (map ApID (regApprovals ?r1))" "DeApproval ` set (regDecisions ?r1) \<subseteq> ApID ` set (regApprovals ?r1)"
    using assms(1) a new by (auto simp: register_ok_def)
  have unique: "ApID row \<noteq> ApID a" if "row \<in> set (regApprovals r)" "row \<noteq> a" for row
    using assms(1) a that by (auto simp: register_ok_def distinct_map inj_on_def)
  show "trail_ok row (trail ?r1 (ApID row))" if "row \<in> set (regApprovals ?r1)" "row \<noteq> a" for row
    using assms(1) that unique [of row] new by (auto simp: register_ok_def trail_def)
  have "trail_ok b (trail r (ApID a) @ [d])" using Decide_trail_ok [OF ok run] eligibility_fair [OF who] by blast
  then show "trail_ok b (trail ?r1 (ApID a))" using new by (simp add: trail_def)
qed

lemma decideApproval_ok:
  assumes "decideApproval p r newID actor i verdict reason now = Inr (r', b)" "register_ok r"
  shows "register_ok r'"
proof -
  obtain a who item d r1 r2 where parts: "a \<in> set (regApprovals r)" "ApID a = i" "eligibility p r actor a now = Inr who" "mayDecide who"
    "Decide a (trail r i) newID actor who verdict reason (Version item) now = Inr (b, d)" "r1 = r\<lparr>regDecisions := regDecisions r @ [d]\<rparr>"
    "UpdateApproval r1 b (ApVersion a) = Inr r2" "takeDecided p r2 item b now = Inr r'"
    by (rule decideApproval_parts [OF assms])
  have "register_ok r2" using decided_ok [OF assms(2) parts(1,3,4)] parts(2,5-7) by blast
  then show ?thesis using parts(8) movedApproval_ok by (auto simp: takeDecided_def go_result split: option.splits)
qed

section \<open>Every state the use cases reach\<close>

text \<open>A step that opens an approval belongs to a checked shape.\<close>

inductive approvals_reached :: "register \<Rightarrow> bool" where
  empty: "approvals_reached \<lparr>regApprovals = [], regDecisions = [], regDelegations = []\<rparr>"
| opened: "approvals_reached r \<Longrightarrow> step_ok shape step \<Longrightarrow> openApproval p r newID actor item workflow step now = Inr r' \<Longrightarrow> approvals_reached r'"
| left: "approvals_reached r \<Longrightarrow> movedApproval r itemID now = Inr r' \<Longrightarrow> approvals_reached r'"
| decided: "approvals_reached r \<Longrightarrow> decideApproval p r newID actor i verdict reason now = Inr (r', b) \<Longrightarrow> approvals_reached r'"
| delegated: "approvals_reached r \<Longrightarrow> setDelegation r tenant actor delegate start end' = Inr r' \<Longrightarrow> approvals_reached r'"
| returned: "approvals_reached r \<Longrightarrow> endDelegation r actor = Inr r' \<Longrightarrow> approvals_reached r'"

lemma register_ok_cong: "regApprovals r = regApprovals r' \<Longrightarrow> regDecisions r = regDecisions r' \<Longrightarrow> register_ok r = register_ok r'"
  by (simp add: register_ok_def trail_def)

lemma approvals_reached_ok: "approvals_reached r \<Longrightarrow> register_ok r"
proof (induction rule: approvals_reached.induct)
  case (opened r shape step p newID actor item workflow now r')
  then obtain counted a where new: "NewApproval newID item workflow step counted actor now = Inr a" "InsertApproval r a = Inr r'"
    by (auto simp: openApproval_def go_result split: option.splits)
  then show ?case using InsertApproval_ok [OF new(2) opened.IH] NewApproval_ok [OF new(1) opened.hyps(2)] by simp
next
  case (delegated r tenant actor delegate start end' r')
  have "regApprovals r = regApprovals r' \<and> regDecisions r = regDecisions r'" using delegated.hyps(2) by (auto simp: setDelegation_def SaveDelegation_def go_result)
  then show ?case using delegated.IH register_ok_cong [of r r'] by simp
next
  case (returned r actor r')
  have "regApprovals r = regApprovals r' \<and> regDecisions r = regDecisions r'" using returned.hyps(2) by (auto simp: endDelegation_def EndDelegation_def split: if_splits)
  then show ?case using returned.IH register_ok_cong [of r r'] by simp
next
  case (left r itemID now r')
  then show ?case using movedApproval_ok by blast
next
  case (decided r p newID actor i verdict reason now r' b)
  then show ?case using decideApproval_ok by blast
qed (simp add: register_ok_def)

end
