(* ===== verification/Approval_Properties.thy ===== *)
theory Approval_Properties
  imports Approval_Runs Workflow_Properties
begin

text \<open>
  What an approval means: approved, every level was passed by its rule by as many different people, each for themselves
  or for somebody away; and a level that counts people can always be passed.
\<close>

section \<open>What an outcome means\<close>

definition decided_by :: "OpenLevel \<Rightarrow> Decision list \<Rightarrow> bool" where
  "decided_by level yes \<longleftrightarrow> all_yes yes \<and> distinct (map seat yes) \<and> distinct (map DeApprover yes) \<and> needed level \<le> int (length yes)
     \<and> (LevelRoles (OpenRule level) = [] \<longrightarrow> seat ` set yes \<subseteq> set (CountedPeople level))
     \<and> (LevelRule (OpenRule level) = ApprovalAll \<longrightarrow> seat ` set yes = set (CountedPeople level))
     \<and> (LevelRule (OpenRule level) = ApprovalMajority \<longrightarrow> length (CountedPeople level) < 2 * length yes)"

lemma passed_decided_by:
  assumes "level_open level" "answers_ok level ds" "passed level ds"
  shows "decided_by level ds"
proof -
  have counted: "LevelRoles (OpenRule level) = []" if "Counted (OpenRule level)" using assms(1) that by (simp add: level_open_def level_ok_def)
  have "seat ` set ds = set (CountedPeople level)" if all: "LevelRule (OpenRule level) = ApprovalAll"
  proof (rule card_seteq)
    show "seat ` set ds \<subseteq> set (CountedPeople level)" using assms(2) counted all by (simp add: answers_ok_def Counted_def)
    have "card (set (CountedPeople level)) = length (CountedPeople level)" using assms(1) by (simp add: level_open_def distinct_card)
    moreover have "card (seat ` set ds) = length ds" using assms(2) distinct_card [of "map seat ds"] by (simp add: answers_ok_def)
    ultimately show "card (set (CountedPeople level)) \<le> card (seat ` set ds)" using assms(3) all by (simp add: passed_def needed_def Needed_def)
  qed simp
  moreover have "length (CountedPeople level) < 2 * length ds" if "LevelRule (OpenRule level) = ApprovalMajority"
    using assms(3) that by (simp add: passed_def needed_def Needed_def) linarith
  ultimately show ?thesis using assms(2,3) by (simp add: decided_by_def passed_def answers_ok_def)
qed

text \<open>
  C31.  However approvals are opened, answered, delegated and left behind: in an approved one every level was passed by
  yeses alone, at least as many as its rule needs, given by different people and standing for different people, all of
  them counted when the level names no role; under the rule for all they stand for exactly the people counted, under
  the rule for a majority for more than half.  A declined one has a decline with a reason at the level it stopped at.
\<close>

theorem approval_outcome:
  assumes "approvals_reached r" "a \<in> set (regApprovals r)"
  shows "(ApState a = ApprovalApproved \<longrightarrow> (\<forall>l < length (ApLevels a). decided_by (ApLevels a ! l) (at_level l (trail r (ApID a)))))
    \<and> (ApState a = ApprovalDeclined \<longrightarrow> (\<exists>d \<in> set (trail r (ApID a)). DeLevel d = ApCurrent a \<and> DeVerdict d = VerdictDecline \<and> DeReason d \<noteq> ''''))"
proof -
  have ok: "trail_ok a (trail r (ApID a))" using approvals_reached_ok [OF assms(1)] assms(2) by (simp add: register_ok_def)
  have "decided_by (ApLevels a ! l) (at_level l (trail r (ApID a)))" if "ApState a = ApprovalApproved" "l < length (ApLevels a)" for l
  proof (rule passed_decided_by)
    show "level_open (ApLevels a ! l)" using ok that(2) by (simp add: trail_ok_def list_all_length)
    show "answers_ok (ApLevels a ! l) (at_level l (trail r (ApID a)))" using ok that(2) by (simp add: trail_ok_def)
    have "l < ApCurrent a \<or> l = ApCurrent a" using ok that by (auto simp: trail_ok_def standing_def)
    then show "passed (ApLevels a ! l) (at_level l (trail r (ApID a)))" using ok that(1) by (auto simp: trail_ok_def standing_def)
  qed
  then show ?thesis using ok by (simp add: trail_ok_def standing_def)
qed

section \<open>A level of people can be passed\<close>

lemma somebody_left:
  assumes "trail_ok a ds" "ApState a = ApprovalPending" "LevelRoles (OpenRule (ApLevels a ! ApCurrent a)) = []" "CountedPeople (ApLevels a ! ApCurrent a) \<noteq> []"
  obtains person where "person \<in> set (CountedPeople (ApLevels a ! ApCurrent a))" "\<And>d. d \<in> set ds \<Longrightarrow> DeLevel d = ApCurrent a \<Longrightarrow> seat d \<noteq> person \<and> DeApprover d \<noteq> person"
proof -
  let ?level = "ApLevels a ! ApCurrent a" and ?here = "at_level (ApCurrent a) ds"
  have ok: "level_open ?level" "answers_ok ?level ?here" "int (length ?here) < needed ?level"
    using assms(1,2) by (auto simp: trail_ok_def list_all_length standing_def)
  have "card (seat ` set ?here) \<le> length ?here" by (metis card_length length_map list.set_map)
  moreover have "card (set (CountedPeople ?level)) = length (CountedPeople ?level)" using ok(1) by (simp add: level_open_def distinct_card)
  ultimately have "card (seat ` set ?here) < card (set (CountedPeople ?level))" using ok(3) needed_le [OF ok(1) assms(3,4)] by linarith
  then have "\<not> set (CountedPeople ?level) \<subseteq> seat ` set ?here" using card_mono [of "seat ` set ?here" "set (CountedPeople ?level)"] by auto
  then obtain person where person: "person \<in> set (CountedPeople ?level)" "person \<notin> seat ` set ?here" by blast
  have "seat d \<noteq> person \<and> DeApprover d \<noteq> person" if "d \<in> set ds" "DeLevel d = ApCurrent a" for d
    using person that ok(2) by (auto simp: answers_ok_def seat_def image_iff)
  then show thesis using that person(1) by blast
qed

lemma yes_accepted:
  assumes "trail_ok a ds" "ApState a = ApprovalPending" "person \<in> set (CountedPeople (ApLevels a ! ApCurrent a))"
    and "\<And>d. d \<in> set ds \<Longrightarrow> DeLevel d = ApCurrent a \<Longrightarrow> seat d \<noteq> person \<and> DeApprover d \<noteq> person"
  shows "\<exists>b d. Decide a ds i person \<lparr>Direct = True, OnBehalfOf = ''''\<rparr> VerdictApprove '''' v now = Inr (b, d)"
proof -
  have person: "person \<noteq> ''''" using assms(1,3) by (auto simp: trail_ok_def list_all_length level_open_def)
  have "DeOnBehalfOf d \<noteq> person" if "d \<in> set ds" "DeLevel d = ApCurrent a" for d
    using assms(4) [OF that] person by (auto simp: seat_def split: if_splits)
  then have "\<not> list_ex (answeredBy a person \<lparr>Direct = True, OnBehalfOf = ''''\<rparr>) ds" using assms(4) by (auto simp: list_ex_iff answeredBy_def)
  moreover have "TrimSpace '''' = ''''" by code_simp
  moreover have "RuneCountInString '''' = 0" by code_simp
  moreover have "ApCurrent a < length (ApLevels a)" using assms(1) by (simp add: trail_ok_def)
  ultimately show ?thesis using assms(2) by (auto simp: Decide_def mayDecide_def passOn_def currentLevel_def Let_def)
qed

lemma find_approval:
  assumes "register_ok r" "a \<in> set (regApprovals r)"
  shows "FindApproval r (ApID a) = Inr a"
proof -
  obtain found where found: "find (\<lambda>b. ApID b = ApID a) (regApprovals r) = Some found"
    using assms(2) by (cases "find (\<lambda>b. ApID b = ApID a) (regApprovals r)") (auto simp: find_None_iff)
  then have "found = a" using find_SomeD [OF found] assms by (auto simp: register_ok_def distinct_map inj_on_def)
  then show ?thesis using found by (simp add: FindApproval_def)
qed

lemma update_possible: "a \<in> set (regApprovals r) \<Longrightarrow> ApID b = ApID a \<Longrightarrow> \<exists>r'. UpdateApproval r b (ApVersion a) = Inr r'"
  by (auto simp: UpdateApproval_def list_ex_iff)

lemma leaving_possible:
  assumes "register_ok r"
  shows "\<exists>r'. movedApproval r item now = Inr r' \<and> regDecisions r' = regDecisions r
    \<and> (\<forall>a \<in> set (regApprovals r). ApState a \<noteq> ApprovalPending \<longrightarrow> a \<in> set (regApprovals r'))"
proof (cases "PendingOf r item")
  case (Inl e)
  then have "isNotFound e" by (auto simp: PendingOf_def oneApproval_def approvalNotFound_def isNotFound_def split: option.splits)
  then show ?thesis using Inl by (simp add: movedApproval_def)
next
  case (Inr pending)
  then have pending: "pending \<in> set (regApprovals r)" "ApState pending = ApprovalPending"
    using find_SomeD [of _ "regApprovals r" pending] by (auto simp: PendingOf_def)
  then obtain r' where r': "UpdateApproval r (Withdrawn pending now) (ApVersion pending) = Inr r'"
    using update_possible [of pending r "Withdrawn pending now"] by (auto simp: Withdrawn_def)
  have "distinct (map ApID (regApprovals r))" "ApID pending = ApID (Withdrawn pending now)" using assms by (simp_all add: register_ok_def Withdrawn_def)
  note rows = UpdateApproval_rows [OF r' this(1) pending(1) this(2) refl]
  have "a \<in> set (regApprovals r')" if "a \<in> set (regApprovals r)" "ApState a \<noteq> ApprovalPending" for a
    using that pending(2) by (auto simp: rows(4) image_iff intro!: bexI [of _ a])
  then show ?thesis using Inr r' rows(1) by (simp add: movedApproval_def)
qed

text \<open>How far an approval has come: the level it stands at, and the answers there.\<close>

definition further :: "register \<Rightarrow> Approval \<Rightarrow> register \<Rightarrow> Approval \<Rightarrow> bool" where
  "further r a r' b \<longleftrightarrow> ApID b = ApID a \<and> ApLevels b = ApLevels a \<and> ApItem b = ApItem a
     \<and> (ApState b = ApprovalApproved
        \<or> ApState b = ApprovalPending \<and> (ApCurrent a < ApCurrent b
            \<or> ApCurrent b = ApCurrent a \<and> length (at_level (ApCurrent a) (trail r' (ApID a))) = Suc (length (at_level (ApCurrent a) (trail r (ApID a))))))"

lemma yes_recorded:
  assumes ok: "register_ok r" and a: "a \<in> set (regApprovals r)" "ApState a = ApprovalPending"
    and left: "\<And>d. d \<in> set (trail r (ApID a)) \<Longrightarrow> DeLevel d = ApCurrent a \<Longrightarrow> DeApprover d \<noteq> person"
    and run: "Decide a (trail r (ApID a)) newID person who VerdictApprove '''' v now = Inr (b, d)" and fresh: "newID \<notin> DeID ` set (regDecisions r)"
  shows "\<exists>r2 row. RecordDecision r d = Inr (r\<lparr>regDecisions := regDecisions r @ [d]\<rparr>)
    \<and> UpdateApproval (r\<lparr>regDecisions := regDecisions r @ [d]\<rparr>) b (ApVersion a) = Inr r2 \<and> row \<in> set (regApprovals r2)
    \<and> further r a r2 row \<and> ApState row = ApState b"
proof -
  let ?r1 = "r\<lparr>regDecisions := regDecisions r @ [d]\<rparr>"
  note parts = Decide_Inr [OF run]
  have cur: "ApCurrent a < length (ApLevels a)" using ok a(1) by (auto simp: register_ok_def trail_ok_def)
  note keeps = Decide_keeps [OF run cur]
  have "DeApprover row \<noteq> person" if "row \<in> set (regDecisions r)" "DeApproval row = ApID a" "DeLevel row = ApCurrent a" for row
    using left [of row] that by (simp add: trail_def)
  moreover have "DeID row \<noteq> newID" if "row \<in> set (regDecisions r)" for row using fresh that by blast
  ultimately have record': "RecordDecision r d = Inr ?r1" using parts(3,4,7,8) by (auto simp: RecordDecision_def list_ex_iff)
  obtain r2 where r2: "UpdateApproval ?r1 b (ApVersion a) = Inr r2" using update_possible [of a ?r1 b] a(1) keeps by auto
  have ids: "distinct (map ApID (regApprovals ?r1))" "a \<in> set (regApprovals ?r1)" "ApID a = ApID b" using ok a(1) keeps by (simp_all add: register_ok_def)
  note rows = UpdateApproval_rows [OF r2 ids refl]
  let ?row = "a\<lparr>ApCurrent := ApCurrent b, ApState := ApState b, ApLevelSince := ApLevelSince b, ApDecidedAt := ApDecidedAt b, ApVersion := ApVersion a + 1\<rparr>"
  have "?row \<in> set (regApprovals r2)" using a(1) by (auto simp: rows(4) image_iff intro!: bexI [of _ a])
  moreover have "trail r2 (ApID a) = trail r (ApID a) @ [d]" using parts(7) by (simp add: trail_def rows(1))
  moreover have "passOn a (1 + int (length (filter (\<lambda>e. DeLevel e = ApCurrent a \<and> DeVerdict e = VerdictApprove) (trail r (ApID a))))) now = Inr b"
    using parts(9) by simp
  note passOn_cases(5) [OF this cur]
  ultimately show ?thesis using record' r2 parts(3) a(2) by (intro exI [of _ r2] exI [of _ ?row]) (auto simp: further_def)
qed

lemma yes_step:
  assumes ok: "register_ok r" and a: "a \<in> set (regApprovals r)" "ApState a = ApprovalPending"
    and people: "LevelRoles (OpenRule (ApLevels a ! ApCurrent a)) = []" "CountedPeople (ApLevels a ! ApCurrent a) \<noteq> []"
    and ports: "entryOf p (ApItem a) = Inr item" "\<And>asker entry target. invokeStep p asker entry target = None"
  shows "\<exists>newID person r' b row. decideApproval p r newID person (ApID a) VerdictApprove '''' now = Inr (r', b)
    \<and> row \<in> set (regApprovals r') \<and> further r a r' row"
proof -
  let ?direct = "\<lparr>Direct = True, OnBehalfOf = ''''\<rparr>"
  have trail: "trail_ok a (trail r (ApID a))" using ok a(1) by (simp add: register_ok_def)
  obtain person where person: "person \<in> set (CountedPeople (ApLevels a ! ApCurrent a))"
    "\<And>d. d \<in> set (trail r (ApID a)) \<Longrightarrow> DeLevel d = ApCurrent a \<Longrightarrow> seat d \<noteq> person \<and> DeApprover d \<noteq> person"
    using somebody_left [OF trail a(2) people] by blast
  have "\<exists>newID. newID \<notin> DeID ` set (regDecisions r)" by (rule ex_new_if_finite [OF infinite_UNIV_listI]) simp
  then obtain newID where fresh: "newID \<notin> DeID ` set (regDecisions r)" ..
  obtain b d where run: "Decide a (trail r (ApID a)) newID person ?direct VerdictApprove '''' (Version item) now = Inr (b, d)"
    using yes_accepted [OF trail a(2) person] by blast
  obtain r2 row where stored: "RecordDecision r d = Inr (r\<lparr>regDecisions := regDecisions r @ [d]\<rparr>)"
    "UpdateApproval (r\<lparr>regDecisions := regDecisions r @ [d]\<rparr>) b (ApVersion a) = Inr r2" "row \<in> set (regApprovals r2)" "further r a r2 row" "ApState row = ApState b"
    using yes_recorded [OF ok a _ run fresh] person(2) by blast
  have cur: "ApCurrent a < length (ApLevels a)" "person \<noteq> ''''" using trail person(1) by (auto simp: trail_ok_def list_all_length level_open_def)
  have who: "eligibility p r person a now = Inr ?direct" using a(2) person(1) cur by (simp add: eligibility_def Counts_def currentLevel_def)
  have r2: "register_ok r2" by (rule decided_ok [OF ok a(1) who _ run stored(2)]) (simp add: mayDecide_def)
  obtain r' where r': "takeDecided p r2 item b now = Inr r'" "row \<in> set (regApprovals r')" "regDecisions r' = regDecisions r2"
  proof (cases "stepOf b")
    case (Some target)
    then have "ApState row \<noteq> ApprovalPending" using stored(5) by (auto simp: stepOf_def split: if_splits)
    then show thesis using that leaving_possible [OF r2, of "ApItem b" now] stored(3) Some ports(2) by (auto simp: takeDecided_def)
  qed (use that stored(3) in \<open>auto simp: takeDecided_def\<close>)
  have "decideApproval p r newID person (ApID a) VerdictApprove '''' now = Inr (r', b)"
    using find_approval [OF ok a(1)] who ports(1) run stored(1,2) r'(1)
    by (simp add: decideApproval_def mayDecide_def Decisions_def Decide_sorted flip: trail_def)
  moreover have "further r a r' row" using stored(4) r'(3) by (simp add: further_def trail_def)
  ultimately show ?thesis using r'(2) by blast
qed

inductive yeses :: "approvalPorts \<Rightarrow> ID \<Rightarrow> register \<Rightarrow> register \<Rightarrow> bool" for p i where
  none: "yeses p i r r"
| yes: "decideApproval p r newID person i VerdictApprove '''' now = Inr (r', b) \<Longrightarrow> yeses p i r' r'' \<Longrightarrow> yeses p i r r''"

definition people_decide :: "Approval \<Rightarrow> bool" where
  "people_decide a \<longleftrightarrow> list_all (\<lambda>level. LevelRoles (OpenRule level) = [] \<and> CountedPeople level \<noteq> []) (ApLevels a)"

text \<open>The people left to ask: at the levels ahead, then at this one.\<close>

lemma yeses_approve:
  assumes "register_ok r" "a \<in> set (regApprovals r)" "ApState a = ApprovalPending" "people_decide a"
    and ports: "entryOf p (ApItem a) = Inr item" "\<And>asker entry target. invokeStep p asker entry target = None"
  shows "\<exists>r' b. yeses p (ApID a) r r' \<and> b \<in> set (regApprovals r') \<and> ApID b = ApID a \<and> ApState b = ApprovalApproved"
  using assms(1-5)
proof (induction "(length (ApLevels a) - ApCurrent a, length (CountedPeople (ApLevels a ! ApCurrent a)) - length (at_level (ApCurrent a) (trail r (ApID a))))"
    arbitrary: a r rule: wf_induct_rule [OF wf_lex_prod [OF wf_less_than wf_less_than]])
  case (1 a r)
  have trail: "trail_ok a (trail r (ApID a))" using 1(2,3) by (simp add: register_ok_def)
  then have cur: "ApCurrent a < length (ApLevels a)" "level_open (ApLevels a ! ApCurrent a)"
    "int (length (at_level (ApCurrent a) (trail r (ApID a)))) < needed (ApLevels a ! ApCurrent a)"
    using 1(4) by (auto simp: trail_ok_def list_all_length standing_def)
  have people: "LevelRoles (OpenRule (ApLevels a ! ApCurrent a)) = []" "CountedPeople (ApLevels a ! ApCurrent a) \<noteq> []"
    using 1(5) cur(1) by (auto simp: people_decide_def list_all_length)
  obtain newID person r' b row where step: "decideApproval p r newID person (ApID a) VerdictApprove '''' 0 = Inr (r', b)"
    "row \<in> set (regApprovals r')" "further r a r' row"
    using yes_step [OF 1(2-4) people 1(6) ports(2), of 0] by blast
  have kept: "ApID row = ApID a" "ApLevels row = ApLevels a" "ApItem row = ApItem a" using step(3) by (simp_all add: further_def)
  have ok: "register_ok r'" by (rule decideApproval_ok [OF step(1) 1(2)])
  show ?case
  proof (cases "ApState row = ApprovalApproved")
    case True
    then show ?thesis using step kept(1) yeses.yes [OF step(1) yeses.none] by blast
  next
    case False
    have left: "length (at_level (ApCurrent a) (trail r (ApID a))) < length (CountedPeople (ApLevels a ! ApCurrent a))"
      using cur(3) needed_le [OF cur(2) people] by linarith
    have "((length (ApLevels row) - ApCurrent row, length (CountedPeople (ApLevels row ! ApCurrent row)) - length (at_level (ApCurrent row) (trail r' (ApID row)))),
        (length (ApLevels a) - ApCurrent a, length (CountedPeople (ApLevels a ! ApCurrent a)) - length (at_level (ApCurrent a) (trail r (ApID a)))))
        \<in> less_than <*lex*> less_than"
      using step(3) False left cur(1) by (auto simp: further_def)
    moreover have "ApState row = ApprovalPending" "people_decide row" "entryOf p (ApItem row) = Inr item"
      using step(3) False 1(5,6) kept by (auto simp: further_def people_decide_def)
    ultimately show ?thesis using 1(1) [OF _ ok step(2)] kept(1) yeses.yes [OF step(1)] by metis
  qed
qed

text \<open>
  C5.  An approval is never stuck: while it waits, and every level counts somebody and names no role, there are people whose
  yes, one after the other, is accepted and approves it, as long as its entry is there and the step is not refused.
\<close>

theorem approval_not_stuck:
  assumes "approvals_reached r" "a \<in> set (regApprovals r)" "ApState a = ApprovalPending" "people_decide a"
    and "entryOf p (ApItem a) = Inr item" "\<And>asker entry target. invokeStep p asker entry target = None"
  shows "\<exists>r' b. yeses p (ApID a) r r' \<and> b \<in> set (regApprovals r') \<and> ApID b = ApID a \<and> ApState b = ApprovalApproved"
  using yeses_approve [OF approvals_reached_ok [OF assms(1)] assms(2-6)] .

section \<open>Two people asked, one of them away\<close>

definition deskPorts :: approvalPorts where
  "deskPorts = \<lparr>entryOf = (\<lambda>_. Inr task1), stepGroups = None, rolesHeld = None, invokeStep = (\<lambda>_ _ _. None)\<rparr>"

definition bothLevel :: OpenLevel where
  "bothLevel = \<lparr>OpenRule = \<lparr>LevelPeople = [uid (CHR ''7''), uid (CHR ''8'')], LevelGroups = [], LevelRoles = [], LevelPersonFields = [],
     LevelRule = ApprovalAll, LevelCount = 0\<rparr>, CountedPeople = [uid (CHR ''7''), uid (CHR ''8'')]\<rparr>"

definition askedStep :: WorkflowStep where
  "askedStep = (plainStep ''close'' ''closed'')\<lparr>StepApprovalOf := Some \<lparr>ApprovalLevels = [OpenRule bothLevel], ApprovalDeclineTo = '''', ApprovalDueHours = 24\<rparr>\<rparr>"

definition asked :: Approval where
  "asked = \<lparr>ApID = uid (CHR ''a''), ApTenant = uid (CHR ''0''), ApItem = ItemID task1, ApWorkflow = ''flow'', ApStep = ''close'', ApItemVersion = 1,
     ApLevels = [bothLevel], ApDeclineTo = '''', ApDueHours = 24, ApCurrent = 0, ApState = ApprovalPending, ApRequestedBy = uid (CHR ''9''),
     ApRequestedAt = 5, ApLevelSince = 5, ApDecidedAt = None, ApVersion = 1\<rparr>"

definition away :: Delegation where
  "away = \<lparr>DgTenant = uid (CHR ''0''), DgAccount = uid (CHR ''8''), DgDelegate = uid (CHR ''6''), DgFrom = 5, DgUntil = 100\<rparr>"

definition yesOf :: "char \<Rightarrow> char \<Rightarrow> ID \<Rightarrow> time \<Rightarrow> Decision" where
  "yesOf c person absent at = \<lparr>DeID = uid c, DeTenant = uid (CHR ''0''), DeApproval = uid (CHR ''a''), DeLevel = 0, DeApprover = uid person,
     DeOnBehalfOf = absent, DeVerdict = VerdictApprove, DeReason = '''', DeItemVersion = 1, DeAt = at\<rparr>"

definition halfway :: register where
  "halfway = \<lparr>regApprovals = [asked\<lparr>ApVersion := 2\<rparr>], regDecisions = [yesOf (CHR ''d'') (CHR ''7'') '''' 8], regDelegations = [away]\<rparr>"

definition agreed :: Approval where
  "agreed = asked\<lparr>ApState := ApprovalApproved, ApDecidedAt := Some 9, ApVersion := 3\<rparr>"

definition bothAgreed :: register where
  "bothAgreed = \<lparr>regApprovals = [agreed], regDecisions = [yesOf (CHR ''d'') (CHR ''7'') '''' 8, yesOf (CHR ''e'') (CHR ''6'') (uid (CHR ''8'')) 9],
     regDelegations = [away]\<rparr>"

lemma halfway_reached: "approvals_reached halfway"
proof -
  have "step_ok reviewShape askedStep" by code_simp
  moreover have "openApproval deskPorts \<lparr>regApprovals = [], regDecisions = [], regDelegations = []\<rparr> (uid (CHR ''a'')) (uid (CHR ''9'')) task1 ''flow'' askedStep 5
      = Inr \<lparr>regApprovals = [asked], regDecisions = [], regDelegations = []\<rparr>" by code_simp
  ultimately have "approvals_reached \<lparr>regApprovals = [asked], regDecisions = [], regDelegations = []\<rparr>"
    by (rule approvals_reached.opened [OF approvals_reached.empty])
  moreover have "setDelegation \<lparr>regApprovals = [asked], regDecisions = [], regDelegations = []\<rparr> (uid (CHR ''0'')) (uid (CHR ''8'')) (uid (CHR ''6'')) 5 100
      = Inr \<lparr>regApprovals = [asked], regDecisions = [], regDelegations = [away]\<rparr>" by code_simp
  ultimately have "approvals_reached \<lparr>regApprovals = [asked], regDecisions = [], regDelegations = [away]\<rparr>" by (rule approvals_reached.delegated)
  moreover have "decideApproval deskPorts \<lparr>regApprovals = [asked], regDecisions = [], regDelegations = [away]\<rparr> (uid (CHR ''d'')) (uid (CHR ''7'')) (uid (CHR ''a''))
      VerdictApprove '''' 8 = Inr (halfway, asked\<lparr>ApVersion := 2\<rparr>)" by code_simp
  ultimately show ?thesis by (rule approvals_reached.decided)
qed

lemma agreed_reached: "approvals_reached bothAgreed"
proof (rule approvals_reached.decided [OF halfway_reached])
  show "decideApproval deskPorts halfway (uid (CHR ''e'')) (uid (CHR ''6'')) (uid (CHR ''a'')) VerdictApprove '''' 9 = Inr (bothAgreed, agreed)" by code_simp
qed

theorem approval_outcome_witness:
  "approvals_reached bothAgreed \<and> decided_by bothLevel [yesOf (CHR ''d'') (CHR ''7'') '''' 8, yesOf (CHR ''e'') (CHR ''6'') (uid (CHR ''8'')) 9]"
proof -
  have "agreed \<in> set (regApprovals bothAgreed)" "ApState agreed = ApprovalApproved" "ApLevels agreed = [bothLevel]"
    by (simp_all add: bothAgreed_def agreed_def asked_def)
  moreover have "at_level 0 (trail bothAgreed (ApID agreed)) = [yesOf (CHR ''d'') (CHR ''7'') '''' 8, yesOf (CHR ''e'') (CHR ''6'') (uid (CHR ''8'')) 9]"
    by (simp add: at_level_def trail_def bothAgreed_def yesOf_def agreed_def asked_def)
  ultimately show ?thesis using approval_outcome [OF agreed_reached, of agreed] agreed_reached by simp
qed

theorem approval_not_stuck_witness:
  "approvals_reached halfway
   \<and> (\<exists>r' b. yeses deskPorts (uid (CHR ''a'')) halfway r' \<and> b \<in> set (regApprovals r') \<and> ApID b = uid (CHR ''a'') \<and> ApState b = ApprovalApproved)"
proof -
  have "people_decide (asked\<lparr>ApVersion := 2\<rparr>)" by code_simp
  then show ?thesis using approval_not_stuck [OF halfway_reached, of "asked\<lparr>ApVersion := 2\<rparr>" deskPorts task1] halfway_reached
    by (simp add: halfway_def asked_def deskPorts_def)
qed

section \<open>A level that counts nobody\<close>

text \<open>
  The rule for any one person is not checked for having people: its approval opens with nobody counted, and then nobody
  can answer it.
\<close>

definition emptyLevel :: ApprovalLevel where
  "emptyLevel = \<lparr>LevelPeople = [], LevelGroups = [], LevelRoles = [], LevelPersonFields = [''assignee''], LevelRule = ApprovalAny, LevelCount = 0\<rparr>"

lemma emptyLevel_opens: "level_ok emptyLevel \<and> rbind (countedIn deskPorts task1 emptyLevel) (\<lambda>counted. openLevel 0 (emptyLevel, counted))
    = Inr \<lparr>OpenRule = emptyLevel, CountedPeople = []\<rparr>"
  by code_simp

lemma behalfOf_nobody: "\<forall>person. Counts a person = Inr False \<Longrightarrow> behalfOf a at ds = Inr notEligible"
  by (induction ds) simp_all

theorem nobody_may_decide:
  assumes "ApState a = ApprovalPending" "ApCurrent a < length (ApLevels a)" "CountedPeople (ApLevels a ! ApCurrent a) = []"
    and "LevelRoles (OpenRule (ApLevels a ! ApCurrent a)) = []"
  shows "eligibility p r actor a at = Inr notEligible"
proof -
  have "Counts a person = Inr False" for person using assms by (simp add: Counts_def currentLevel_def)
  then show ?thesis using assms behalfOf_nobody [of a at "DelegationsTo r actor"]
    by (auto simp: eligibility_def currentLevel_def holdsRole_def split: option.splits)
qed

end
