(* ===== verification/Spec2Isabelle.thy ===== *)
theory Spec2Isabelle
  imports Ranks Push_Laws Access_Laws Lifecycles Label_Laws Schedule_Answers Assignment_Properties Workflow_Choice Approval_Properties
begin

text \<open>
  A model of the core of Hubtask, a server for shared work in hubs, collections and trees of items, and the laws
  that make it correct.  The code is the Go module under \<^verbatim>\<open>src/\<close>; what is modelled is its domain
  (\<^verbatim>\<open>src/core/domain\<close>), the use cases that synchronise devices and place items
  (\<^verbatim>\<open>src/core/application/service/sync\<close> and \<^verbatim>\<open>.../work\<close>), and the statements those use cases run
  (\<^verbatim>\<open>src/infrastructure/postgres\<close>).  Go functions are HOL functions of the same name; an error return is the left
  side of a sum (\<open>result\<close>), a nil error of a check is \<open>None\<close>; a row is a record, a table a list of rows, a statement
  a function on the table, a transaction one function on the state.  Text is a list of bytes, as a Go string is;
  \<open>int\<close> stands for times (nanoseconds since the epoch) and Go integers that cannot overflow, the counter of a clock
  reading is a 32-bit word.

  \<^bold>\<open>The parts and their theories.\<close>

  \<^item> \<open>Prelude\<close>, \<open>Errors\<close>, \<open>Ids\<close>, \<open>Go_Strings\<close>, \<open>Json\<close>: results and their composition, the error values of
    \<^verbatim>\<open>shared/Errors.go\<close>, identifiers (\<^verbatim>\<open>shared/ID.go\<close>), the functions of Go's \<^verbatim>\<open>strings\<close> the code uses,
    the values a push carries.

  \<^item> \<open>Order_Keys\<close>, \<open>Order_Key_Laws\<close>, \<open>Ranks\<close>: the fractional keys that order rows (\<^verbatim>\<open>service/Ordering.go\<close>) and the
    rank a created or moved row takes.  A key strictly between two bounds always exists and is valid, apart from the
    floor of the space (C1, C2, \<open>OrderKeyBetween_floor\<close>); rows land where they were asked to, or are refused (C4, C6, \<open>itemOrderKey_appends\<close>).  The client's laws are proved in
    the locale \<open>key_space\<close>, interpreted on the generator.

  \<^item> \<open>Clock\<close>, \<open>Clock_Laws\<close>: hybrid logical clock readings (\<^verbatim>\<open>shared/HLC.go\<close>) and their bound against a device's
    skew: text form, order, strictly forward ticks, readings kept within the skew (C7-C10).

  \<^item> \<open>Replicas\<close>, \<open>Set_Merge\<close>: merging states as a locale (\<open>state_merge\<close>), and the observed-remove sets of an item with
    the tags stored for them (\<^verbatim>\<open>work/SetElement.go\<close>, \<^verbatim>\<open>sync/Set.go\<close>): convergence, what a pushed change
    leaves, and where the stored tags do not converge (C12-C14).

  \<^item> \<open>Sync_Kinds\<close>, \<open>Push\<close>, \<open>Push_Laws\<close>: the merge matrix (\<^verbatim>\<open>model/sync\<close>) and the push of a device's queue
    (\<^verbatim>\<open>service/sync\<close>) against the operation log: answers survive the log, a repeated queue changes nothing,
    a rejected mutation leaves the world alone, readings of fields converge (C15-C17, C19).  The use cases a push calls
    are ports of the model, parameters without assumptions.

  \<^item> \<open>Access\<close>, \<open>Access_Laws\<close>: roles, scopes, custom roles and every decision of \<^verbatim>\<open>service/Authorization.go\<close>,
    \<^verbatim>\<open>ItemAccess.go\<close> and \<^verbatim>\<open>PermissionCatalogue.go\<close>: private hubs, the effective role, handing roles out,
    the list of held permissions, the reach over entries (C20-C22, C24, C25).

  \<^item> \<open>Items\<close>, \<open>Item_Laws\<close>, \<open>Containers\<close>, \<open>Lifecycles\<close>: an item and a container with every change of their own
    (\<^verbatim>\<open>work/Item.go\<close>, \<^verbatim>\<open>DueDate.go\<close>, \<^verbatim>\<open>CapabilityProfile.go\<close>, \<^verbatim>\<open>Container.go\<close>, \<^verbatim>\<open>Lifecycle.go\<close>).
    The steps of an item are an inductive relation; its invariant, what a frozen item allows, and repeated updates
    are C28, C29 and \<open>Updated_idempotent\<close>.  Archive and trash are the locale \<open>lifecycle\<close>, interpreted on items and containers, which
    refine one automaton (C30).

  \<^item> \<open>Hierarchy\<close>, \<open>Placements\<close>, \<open>Tree_Laws\<close>, \<open>Placement_Laws\<close>, \<open>Completion_Laws\<close>, \<open>Placement_Properties\<close>,
    \<open>Label_Laws\<close>: the tree of items with materialised paths (\<^verbatim>\<open>service/Hierarchy.go\<close>, \<^verbatim>\<open>service/Completion.go\<close>) and the use cases over the stored
    tree (\<^verbatim>\<open>CreateWorkItem.go\<close>, \<^verbatim>\<open>MoveWorkItem.go\<close>, \<^verbatim>\<open>CompleteWorkItem.go\<close>, \<^verbatim>\<open>AddLabel.go\<close>,
    \<^verbatim>\<open>ItemRepository.go\<close>).  The reachable trees are an inductive predicate over all of them: they are consistent,
    paths are ancestry, depth is bounded, a move carries its subtree and nothing else, completion settles the parents,
    labels stay in step with their tags (C32-C35, C37, C39); two racing moves (C36), labels in a read-only collection and
    labels dropped by a move (\<open>archived_collection_takes_labels\<close>, \<open>moved_label_cannot_return\<close>) are where the guarantees end.  \<open>Workspace_Example\<close> is a small tree, built
    by the use cases, that the properties are applied to.

  \<^item> \<open>Schedule\<close>, \<open>Schedule_Order\<close>, \<open>Schedule_Laws\<close>, \<open>Schedule_Passes\<close>, \<open>Schedule_Properties\<close>, \<open>Schedule_Answers\<close>: the
    scheduler of a plan (\<^verbatim>\<open>planning/Schedule.go\<close>) with its axis of working days, the topological order, the forward
    and the backward pass and the roll-up of summaries.  An order is found exactly when the dependencies have no loop
    (C18), every dependency holds in the answer or is reported (C26), and the floats measure the room there is (C27).

  \<^item> \<open>Assign_Policy\<close>, \<open>Assignment\<close>, \<open>Assignment_Laws\<close>, \<open>Assignment_Properties\<close>: who an entry is given to.  The policy of a
    collection (\<^verbatim>\<open>work/AutoAssignPolicy.go\<close>) with its table, the five strategies of \<^verbatim>\<open>service/Assignment.go\<close> as
    instances of the locale \<open>strategy\<close>, and the use cases \<^verbatim>\<open>AutoAssignWorkItem.go\<close>, \<^verbatim>\<open>AssignWorkItem.go\<close> and the
    assignment of a created entry.  An entry lands on somebody who may have it or stays (C23), and a rotation gives
    everybody who stays in it a turn (C11).

  \<^item> \<open>Workflow\<close>, \<open>Workflow_Moves\<close>, \<open>Workflow_Laws\<close>, \<open>Workflow_Properties\<close>, \<open>Workflow_Choice\<close>: the statuses and steps of a
    workflow and their check (\<^verbatim>\<open>work/Workflow.go\<close>, \<^verbatim>\<open>StepApproval.go\<close>), drafts and publishing, the workflow in force,
    and the use cases that change it (\<^verbatim>\<open>service/workflow/Workflows.go\<close>) with the statements that move entries
    (\<^verbatim>\<open>WorkflowRepository.go\<close>).  A checked shape can be lived in (C3); publishing a draft (C38) and choosing a workflow
    (C40) leave every entry in a status of the workflow in force that agrees with its completion, though the moves are
    one statement after the other.

  \<^item> \<open>Approval\<close>, \<open>Approval_Laws\<close>, \<open>Approval_Runs\<close>, \<open>Approval_Properties\<close>: the approvals a step of a workflow asks for
    (\<^verbatim>\<open>servicedesk/Approval.go\<close>, \<^verbatim>\<open>service/servicedesk/Approvals.go\<close>, \<^verbatim>\<open>Delegation.go\<close> and
    \<^verbatim>\<open>ServiceDeskApprovalRepository.go\<close>): opening one with the people its levels count, answering, answering for
    somebody away, withdrawing.  The registers the use cases reach are an inductive predicate; on them an outcome means
    what its rule says (C31) and a level that counts people can be passed (C5).  A level without people opens all the
    same when any one person would do, and nobody can answer it (\<open>nobody_may_decide\<close>).

  \<^bold>\<open>Termination and fuel.\<close>  Every function is total.  The one loop whose end depends on the data is the roll-up of
  completion along the parents (\<open>rollUp\<close>): it takes fuel and answers \<open>None\<close> without; C37 shows that the number of
  levels of a reachable tree is enough.

  \<^bold>\<open>What is a parameter.\<close>  The gates of a use case (permission check, structure of a collection, entry types, board
  flow, quotas) are a record of functions on which nothing is assumed; text normalisation (NFC) and the time zone
  database are parameters; the text form of an instant is a function of the caller.

  \<^bold>\<open>What is not modelled.\<close>  Events, audit and activity entries of a write; who may take a step of a workflow
  and its expressions, entry types and structure settings, links, sprints and releases, agreements, reminders and portals of the service desk,
  retention, automation and backup;
  the transport (REST, MCP, worker), generated code and clients, configuration and start-up.  Transactions are taken
  as one step each, except where a property is about two of them (C36): there the reading and the writing half are
  separate functions, interleaved explicitly.
\<close>

end
